(* ===== verification/Go_Unicode.thy ===== *)
theory Go_Unicode
  imports Prelude
begin

text \<open>
  White space and letter case of UTF-8 byte strings, as Go's \<open>unicode\<close> and \<open>strings\<close>
  packages see them.  No byte that starts the encoding of a rune occurs inside another
  encoding, so an encoding found anywhere in a string is a rune there, whatever is around
  it, also in strings that are not valid UTF-8.  White space is complete.  The case of
  letters is exact between ASCII letters and for the four runes outside ASCII that a
  mapping of Go's takes to an ASCII letter, so a comparison with ASCII text has Go's
  result; other letters keep their case.
\<close>

subsection \<open>Bytes\<close>

definition is_space :: "char \<Rightarrow> bool" where
  "is_space c \<longleftrightarrow> c = SPC \<or> c = TAB \<or> c = LF \<or> c = VT \<or> c = FF \<or> c = CR"

definition ascii :: "char \<Rightarrow> bool" where
  "ascii c \<longleftrightarrow> \<not> digit7 c"

lemma ascii_code: "ascii c \<longleftrightarrow> (of_char c :: nat) < 128"
  by (cases c) (auto simp: ascii_def)

definition starts :: "string \<Rightarrow> string \<Rightarrow> bool" where
  "starts s e \<longleftrightarrow> take (length e) s = e"

text \<open>The first of some encodings that a string starts with.\<close>

fun first_rune :: "string list \<Rightarrow> string \<Rightarrow> string option" where
  "first_rune [] s = None"
| "first_rune (e # es) s = (if starts s e then Some e else first_rune es s)"

subsection \<open>White space\<close>

text \<open>The encodings of the white space outside ASCII: U+0085, U+00A0, U+1680, U+2000 to
  U+200A, U+2028, U+2029, U+202F, U+205F and U+3000.\<close>

definition wide_spaces :: "string list" where
  "wide_spaces =
     [[CHR 0xC2, CHR 0x85], [CHR 0xC2, CHR 0xA0], [CHR 0xE1, CHR 0x9A, CHR 0x80],
      [CHR 0xE2, CHR 0x80, CHR 0x80], [CHR 0xE2, CHR 0x80, CHR 0x81], [CHR 0xE2, CHR 0x80, CHR 0x82],
      [CHR 0xE2, CHR 0x80, CHR 0x83], [CHR 0xE2, CHR 0x80, CHR 0x84], [CHR 0xE2, CHR 0x80, CHR 0x85],
      [CHR 0xE2, CHR 0x80, CHR 0x86], [CHR 0xE2, CHR 0x80, CHR 0x87], [CHR 0xE2, CHR 0x80, CHR 0x88],
      [CHR 0xE2, CHR 0x80, CHR 0x89], [CHR 0xE2, CHR 0x80, CHR 0x8A], [CHR 0xE2, CHR 0x80, CHR 0xA8],
      [CHR 0xE2, CHR 0x80, CHR 0xA9], [CHR 0xE2, CHR 0x80, CHR 0xAF], [CHR 0xE2, CHR 0x81, CHR 0x9F],
      [CHR 0xE3, CHR 0x80, CHR 0x80]]"

text \<open>How many bytes of white space a string starts with, 0 when it starts with none.  To
  look at the end of a string, the encodings and the string are reversed.\<close>

fun space_len :: "string list \<Rightarrow> string \<Rightarrow> nat" where
  "space_len tab [] = 0"
| "space_len tab (c # s) =
     (if is_space c then 1 else if ascii c then 0
      else (case first_rune tab (c # s) of None \<Rightarrow> 0 | Some e \<Rightarrow> length e))"

fun skip_spaces :: "string list \<Rightarrow> string \<Rightarrow> string" where
  "skip_spaces tab [] = []"
| "skip_spaces tab (c # s) =
     (let n = space_len tab (c # s) in if n = 0 then c # s else skip_spaces tab (drop (n - 1) s))"

definition back_spaces :: "string list" where
  "back_spaces = map rev wide_spaces"

definition TrimLeftSpace :: "string \<Rightarrow> string" where
  "TrimLeftSpace s = skip_spaces wide_spaces s"

definition TrimRightSpace :: "string \<Rightarrow> string" where
  "TrimRightSpace s = rev (skip_spaces back_spaces (rev s))"

definition TrimSpace :: "string \<Rightarrow> string" where
  "TrimSpace s = TrimRightSpace (TrimLeftSpace s)"

text \<open>\<open>strings.Fields\<close>: \<open>w\<close> is the current word, reversed.\<close>

fun fields_from :: "string \<Rightarrow> string \<Rightarrow> string list" where
  "fields_from w [] = (if w = [] then [] else [rev w])"
| "fields_from w (c # s) =
     (let n = space_len wide_spaces (c # s) in
      if n = 0 then fields_from (c # w) s
      else if w = [] then fields_from [] (drop (n - 1) s)
      else rev w # fields_from [] (drop (n - 1) s))"

definition Fields :: "string \<Rightarrow> string list" where
  "Fields s = fields_from [] s"

subsection \<open>Case\<close>

definition upper_letters :: string where "upper_letters = ''ABCDEFGHIJKLMNOPQRSTUVWXYZ''"
definition lower_letters :: string where "lower_letters = ''abcdefghijklmnopqrstuvwxyz''"

definition lower_char :: "char \<Rightarrow> char" where
  "lower_char c = (case map_of (zip upper_letters lower_letters) c of None \<Rightarrow> c | Some d \<Rightarrow> d)"

definition upper_char :: "char \<Rightarrow> char" where
  "upper_char c = (case map_of (zip lower_letters upper_letters) c of None \<Rightarrow> c | Some d \<Rightarrow> d)"

text \<open>The dotted capital I (U+0130), the dotless i (U+0131), the long s (U+017F) and the
  Kelvin sign (U+212A).\<close>

definition dotted_I :: string where "dotted_I = [CHR 0xC4, CHR 0xB0]"
definition dotless_i :: string where "dotless_i = [CHR 0xC4, CHR 0xB1]"
definition long_s :: string where "long_s = [CHR 0xC5, CHR 0xBF]"
definition kelvin :: string where "kelvin = [CHR 0xE2, CHR 0x84, CHR 0xAA]"

text \<open>Bytes are mapped by \<open>f\<close>; a rune of the table becomes its ASCII letter.\<close>

fun map_runes :: "(string \<times> char) list \<Rightarrow> (char \<Rightarrow> char) \<Rightarrow> string \<Rightarrow> string" where
  "map_runes tab f [] = []"
| "map_runes tab f (c # s) =
     (if ascii c then f c # map_runes tab f s
      else (case first_rune (map fst tab) (c # s) of
          None \<Rightarrow> f c # map_runes tab f s
        | Some e \<Rightarrow> the (map_of tab e) # map_runes tab f (drop (length e - 1) s)))"

definition ToLower :: "string \<Rightarrow> string" where
  "ToLower s = map_runes [(dotted_I, CHR ''i''), (kelvin, CHR ''k'')] lower_char s"

definition ToUpper :: "string \<Rightarrow> string" where
  "ToUpper s = map_runes [(dotless_i, CHR ''I''), (long_s, CHR ''S'')] upper_char s"

text \<open>What \<open>strings.EqualFold\<close> and the keys of \<open>encoding/json\<close> compare.\<close>

definition fold_case :: "string \<Rightarrow> string" where
  "fold_case s = map_runes [(long_s, CHR ''s''), (kelvin, CHR ''k'')] lower_char s"

definition EqualFold :: "string \<Rightarrow> string \<Rightarrow> bool" where
  "EqualFold s t \<longleftrightarrow> fold_case s = fold_case t"


subsection \<open>Laws: where a string starts\<close>

lemma starts_append: "starts s e \<Longrightarrow> starts (s @ t) e"
  unfolding starts_def by (metis length_take min.cobounded1 take_append diff_is_0_eq' take0 append_Nil2)

lemma first_rune_Some: "first_rune tab s = Some e \<Longrightarrow> e \<in> set tab \<and> starts s e"
  by (induction tab) (auto split: if_splits)

lemma first_rune_None: "first_rune tab s = None \<longleftrightarrow> (\<forall>e \<in> set tab. \<not> starts s e)"
  by (induction tab) auto

text \<open>An encoding outside ASCII does not reach past a following ASCII byte.\<close>

definition wide :: "string list \<Rightarrow> bool" where
  "wide tab \<longleftrightarrow> list_all (\<lambda>e. e \<noteq> [] \<and> list_all (\<lambda>c. \<not> ascii c) e) tab"

lemma wide_rune: "wide tab \<Longrightarrow> e \<in> set tab \<Longrightarrow> e \<noteq> [] \<and> list_all (\<lambda>c. \<not> ascii c) e"
  by (auto simp: wide_def list_all_iff)

lemma wide_tables [simp]: "wide wide_spaces" "wide back_spaces"
  by code_simp+

text \<open>What may follow a piece of text without changing how the text itself reads.\<close>

definition plain_start :: "string \<Rightarrow> bool" where
  "plain_start t \<longleftrightarrow> t = [] \<or> ascii (hd t)"

lemma plain_start_simps [simp]: "plain_start []" "plain_start (c # t) \<longleftrightarrow> ascii c"
  by (simp_all add: plain_start_def)

lemma starts_plain:
  assumes "starts (s @ t) e" "list_all (\<lambda>c. \<not> ascii c) e" "plain_start t"
  shows "starts s e"
proof (cases "length e \<le> length s")
  case False
  define v where "v = take (length e - length s) t"
  from assms(1) False have e: "e = s @ v" by (simp add: starts_def v_def)
  with False have v: "v \<noteq> []" by auto
  then have t: "t \<noteq> []" "hd v = hd t" by (auto simp: v_def hd_take)
  from e v have "hd v \<in> set e" by simp
  with assms(2) t have "\<not> ascii (hd t)" by (metis list_all_iff)
  with t assms(3) show ?thesis by (simp add: plain_start_def)
qed (use assms(1) in \<open>simp add: starts_def\<close>)

lemma first_rune_plain:
  "wide tab \<Longrightarrow> plain_start t \<Longrightarrow> first_rune tab (s @ t) = first_rune tab s"
proof (induction tab)
  case (Cons e es)
  then have "list_all (\<lambda>c. \<not> ascii c) e" by (simp add: wide_def)
  then have "starts (s @ t) e \<longleftrightarrow> starts s e"
    using starts_plain [of s t e] starts_append [of s e t] Cons.prems by blast
  with Cons show ?case by (simp add: wide_def)
qed simp

lemma space_len_plain:
  "wide tab \<Longrightarrow> plain_start t \<Longrightarrow> s \<noteq> [] \<Longrightarrow> space_len tab (s @ t) = space_len tab s"
  using first_rune_plain [of tab t s] by (cases s) auto

lemma space_len_ascii [simp]: "ascii c \<Longrightarrow> space_len tab (c # s) = (if is_space c then 1 else 0)"
  by simp

text \<open>Text that starts with white space does so whatever is added to it.\<close>

lemma space_len_append: "wide tab \<Longrightarrow> space_len tab s \<noteq> 0 \<Longrightarrow> space_len tab (s @ t) \<noteq> 0"
proof (cases s)
  case (Cons c u)
  assume w: "wide tab" and n: "space_len tab s \<noteq> 0"
  then show ?thesis
  proof (cases "is_space c")
    case False
    with n Cons obtain e where a: "\<not> ascii c" and "first_rune tab s = Some e" by (auto split: if_splits option.splits)
    then have "first_rune tab (s @ t) \<noteq> None"
      using first_rune_Some [of tab s e] starts_append by (auto simp: first_rune_None)
    then obtain e' where e': "first_rune tab (s @ t) = Some e'" by auto
    then have "e' \<noteq> []" using first_rune_Some [OF e'] wide_rune [OF w] by auto
    with e' a Cons show ?thesis by auto
  qed (simp add: Cons)
qed simp

subsection \<open>Laws: trimming\<close>

text \<open>A string that \<open>TrimSpace\<close> leaves alone.\<close>

definition trimmed :: "string \<Rightarrow> bool" where
  "trimmed s \<longleftrightarrow> space_len wide_spaces s = 0 \<and> space_len back_spaces (rev s) = 0"

lemma skip_spaces_id: "space_len tab s = 0 \<Longrightarrow> skip_spaces tab s = s"
  by (cases s) simp_all

lemma skip_spaces_stops: "space_len tab (skip_spaces tab s) = 0"
  by (induction tab s rule: skip_spaces.induct) (simp_all add: Let_def)

lemma skip_spaces_suffix: "\<exists>u. s = u @ skip_spaces tab s"
proof (induction tab s rule: skip_spaces.induct)
  case (2 tab c s)
  show ?case
  proof (cases "space_len tab (c # s) = 0")
    case False
    define n where "n = space_len tab (c # s) - 1"
    have k: "skip_spaces tab (c # s) = skip_spaces tab (drop n s)" using False by (simp add: Let_def n_def del: space_len.simps)
    obtain u where "drop n s = u @ skip_spaces tab (drop n s)" using 2 [OF refl False] n_def by blast
    then have "take n s @ drop n s = take n s @ u @ skip_spaces tab (drop n s)" by simp
    then have "c # s = (c # take n s @ u) @ skip_spaces tab (c # s)" by (simp only: k append_take_drop_id append_Cons append_assoc)
    then show ?thesis by blast
  qed (simp add: Let_def del: space_len.simps)
qed simp

lemma skip_spaces_plain: "list_all is_space u \<Longrightarrow> skip_spaces tab (u @ s) = skip_spaces tab s"
  by (induction u) (simp_all add: Let_def)

lemma TrimSpace_trimmed: "trimmed s \<Longrightarrow> TrimSpace s = s"
  by (simp add: TrimSpace_def TrimLeftSpace_def TrimRightSpace_def trimmed_def skip_spaces_id)

lemma trimmed_TrimSpace [simp]: "trimmed (TrimSpace s)"
proof -
  let ?l = "TrimLeftSpace s"
  obtain u where "rev ?l = u @ skip_spaces back_spaces (rev ?l)" using skip_spaces_suffix by blast
  then have "?l = TrimSpace s @ rev u"
    by (metis TrimRightSpace_def TrimSpace_def rev_append rev_rev_ident)
  moreover have "space_len wide_spaces ?l = 0" by (simp add: TrimLeftSpace_def skip_spaces_stops)
  ultimately have "space_len wide_spaces (TrimSpace s) = 0"
    using space_len_append [of wide_spaces "TrimSpace s" "rev u"] by fastforce
  then show ?thesis
    by (simp add: trimmed_def TrimSpace_def TrimRightSpace_def skip_spaces_stops)
qed

lemma TrimSpace_idem [simp]: "TrimSpace (TrimSpace s) = TrimSpace s"
  by (rule TrimSpace_trimmed) simp

lemma TrimSpace_Nil [simp]: "TrimSpace [] = []"
  by (simp add: TrimSpace_def TrimLeftSpace_def TrimRightSpace_def)

lemma space_ascii: "is_space c \<Longrightarrow> ascii c"
  by (auto simp: is_space_def ascii_def)

lemma TrimSpace_space: "is_space c \<Longrightarrow> TrimSpace (c # s) = TrimSpace s"
  by (simp add: TrimSpace_def TrimLeftSpace_def Let_def)

lemma TrimSpace_append_space:
  assumes "trimmed s" "list_all is_space u"
  shows "TrimSpace (s @ u) = s"
proof (cases "s = []")
  case True
  have "TrimSpace u = TrimSpace []" using assms(2)
    by (induction u) (simp_all add: TrimSpace_space)
  with True show ?thesis by simp
next
  case False
  have "plain_start u" using assms(2) by (cases u) (auto simp: space_ascii)
  then have "space_len wide_spaces (s @ u) = 0"
    using assms(1) False by (simp add: space_len_plain trimmed_def)
  then have l: "TrimLeftSpace (s @ u) = s @ u" by (simp add: TrimLeftSpace_def skip_spaces_id)
  have "skip_spaces back_spaces (rev u @ rev s) = skip_spaces back_spaces (rev s)"
    by (rule skip_spaces_plain) (use assms(2) in \<open>simp add: list_all_iff\<close>)
  with l assms(1) show ?thesis
    by (simp add: TrimSpace_def TrimRightSpace_def trimmed_def skip_spaces_id)
qed

text \<open>Text that starts and ends with ASCII is trimmed when these two bytes are not white
  space.\<close>

lemma trimmed_ascii:
  "s \<noteq> [] \<Longrightarrow> ascii (hd s) \<Longrightarrow> ascii (last s) \<Longrightarrow> \<not> is_space (hd s) \<Longrightarrow> \<not> is_space (last s) \<Longrightarrow> trimmed s"
proof -
  assume s: "s \<noteq> []" "ascii (hd s)" "ascii (last s)" "\<not> is_space (hd s)" "\<not> is_space (last s)"
  then have "space_len back_spaces (rev s) = 0" by (cases s rule: rev_cases) simp_all
  with s show ?thesis by (cases s) (simp_all add: trimmed_def)
qed

lemma trimmed_Nil [simp]: "trimmed []"
  by (simp add: trimmed_def)

text \<open>Two trimmed pieces around plain text.\<close>

lemma trimmed_append:
  assumes "trimmed s" "trimmed t" "s \<noteq> []" "t \<noteq> []" "ascii c"
  shows "trimmed (s @ c # t)"
  using assms space_len_plain [of wide_spaces "c # t" s] space_len_plain [of back_spaces "c # rev s" "rev t"]
  by (simp add: trimmed_def)

subsection \<open>Laws: words\<close>

fun no_space :: "string \<Rightarrow> bool" where
  "no_space [] \<longleftrightarrow> True"
| "no_space (c # s) \<longleftrightarrow> space_len wide_spaces (c # s) = 0 \<and> no_space s"

text \<open>A command word: not empty and free of white space.\<close>

definition is_word :: "string \<Rightarrow> bool" where
  "is_word w \<longleftrightarrow> w \<noteq> [] \<and> no_space w"

lemma no_space_ascii: "list_all (\<lambda>c. ascii c \<and> \<not> is_space c) s \<Longrightarrow> no_space s"
  by (induction s) simp_all

lemma no_space_append: "no_space s \<Longrightarrow> no_space t \<Longrightarrow> plain_start t \<Longrightarrow> no_space (s @ t)"
proof (induction s)
  case (Cons c s)
  then show ?case using space_len_plain [of wide_spaces t "c # s"] by (simp del: space_len.simps)
qed simp

lemma no_space_prefix: "no_space (s @ t) \<Longrightarrow> no_space s"
proof (induction s)
  case (Cons c s)
  then show ?case using space_len_append [of wide_spaces "c # s" t] by (auto simp del: space_len.simps)
qed simp

lemma no_space_member: "no_space s \<Longrightarrow> c \<in> set s \<Longrightarrow> \<not> is_space c"
  by (induction s) (auto split: if_splits)

lemma no_space_start: "no_space s \<Longrightarrow> space_len wide_spaces s = 0"
  by (cases s) (simp_all del: space_len.simps(2))

lemma fields_from_word:
  assumes "plain_start t"
  shows "no_space v \<Longrightarrow> fields_from w (v @ t) = fields_from (rev v @ w) t"
proof (induction v arbitrary: w)
  case (Cons c v)
  then have "space_len wide_spaces (c # v @ t) = 0"
    using space_len_plain [of wide_spaces t "c # v"] assms by (simp del: space_len.simps)
  with Cons show ?case by (simp del: space_len.simps)
qed simp

text \<open>The words \<open>Fields\<close> returns are words: no rune of white space starts in the current
  word, whatever follows.\<close>

fun no_space_in :: "string \<Rightarrow> string \<Rightarrow> bool" where
  "no_space_in [] t \<longleftrightarrow> True"
| "no_space_in (c # s) t \<longleftrightarrow> space_len wide_spaces (c # s @ t) = 0 \<and> no_space_in s t"

lemma no_space_in_snoc: "no_space_in (s @ [c]) t \<longleftrightarrow> no_space_in s (c # t) \<and> space_len wide_spaces (c # t) = 0"
  by (induction s) (auto simp del: space_len.simps)

lemma no_space_in_word: "no_space_in s t \<Longrightarrow> no_space s"
proof (induction s)
  case (Cons c s)
  then show ?case using space_len_append [of wide_spaces "c # s" t] by (auto simp del: space_len.simps)
qed simp

lemma fields_from_words: "x \<in> set (fields_from w s) \<Longrightarrow> no_space_in (rev w) s \<Longrightarrow> is_word x"
proof (induction w s rule: fields_from.induct)
  case (1 w)
  then show ?case using no_space_in_word by (auto simp: is_word_def split: if_splits)
next
  case (2 w c s)
  let ?n = "space_len wide_spaces (c # s)"
  consider "?n = 0" | "?n \<noteq> 0" "x = rev w" "w \<noteq> []" | "?n \<noteq> 0" "x \<in> set (fields_from [] (drop (?n - 1) s))"
    using "2.prems"(1) by (auto simp: Let_def simp del: space_len.simps split: if_splits)
  then show ?case
  proof cases
    case 1
    with "2.IH"(1) [OF refl 1] "2.prems" show ?thesis by (simp add: no_space_in_snoc del: space_len.simps)
  next
    case 2
    with "2.prems"(2) show ?thesis using no_space_in_word by (simp add: is_word_def)
  next
    case 3
    then show ?thesis using "2.IH"(2,3) [OF refl 3(1)] by (cases "w = []") (simp_all del: space_len.simps)
  qed
qed

lemma Fields_words: "x \<in> set (Fields s) \<Longrightarrow> is_word x"
  unfolding Fields_def by (erule fields_from_words) simp

lemma Fields_nonempty_words: "[] \<notin> set (Fields s)"
  using Fields_words is_word_def by blast

lemma Fields_Nil [simp]: "Fields [] = []"
  by (simp add: Fields_def)

lemma Fields_word: "is_word w \<Longrightarrow> Fields w = [w]"
  using fields_from_word [of "[]" w "[]"] by (auto simp: Fields_def is_word_def)

lemma space_SPC [simp]: "is_space SPC" "ascii SPC"
  by (simp_all add: is_space_def ascii_def)

lemma Fields_word_space: "is_word w \<Longrightarrow> Fields (w @ SPC # s) = w # Fields s"
  using fields_from_word [of "SPC # s" w "[]"] by (auto simp: Fields_def is_word_def Let_def)

text \<open>Blank text: nothing but white space.\<close>

definition blank :: "string \<Rightarrow> bool" where
  "blank s \<longleftrightarrow> skip_spaces wide_spaces s = []"

lemma Fields_empty: "Fields s = [] \<longleftrightarrow> blank s"
proof -
  have "fields_from w s = [] \<longleftrightarrow> w = [] \<and> skip_spaces wide_spaces s = []" for w
  proof (induction w s rule: fields_from.induct)
    case (2 w c s)
    then show ?case by (cases "space_len wide_spaces (c # s) = 0") (auto simp: Let_def simp del: space_len.simps)
  qed simp
  then show ?thesis by (simp add: Fields_def blank_def)
qed

lemma trimmed_not_blank: "trimmed s \<Longrightarrow> s \<noteq> [] \<Longrightarrow> \<not> blank s"
  by (simp add: trimmed_def blank_def skip_spaces_id)

lemma no_space_suffix: "no_space (s @ t) \<Longrightarrow> no_space t"
  by (induction s) simp_all

lemma wide_spaces_start: "e \<in> set wide_spaces \<Longrightarrow> \<not> no_space e"
proof -
  have "list_all (\<lambda>e. \<not> no_space e) wide_spaces" by code_simp
  then show "e \<in> set wide_spaces \<Longrightarrow> \<not> no_space e" by (simp add: list_all_iff)
qed

lemma is_word_trimmed: "is_word w \<Longrightarrow> trimmed w"
proof -
  assume w: "is_word w"
  then have n: "no_space w" and "w \<noteq> []" by (simp_all add: is_word_def)
  have "space_len back_spaces (rev w) = 0"
  proof (rule ccontr)
    assume s: "space_len back_spaces (rev w) \<noteq> 0"
    obtain x c where x: "w = x @ [c]" using \<open>w \<noteq> []\<close> by (cases w rule: rev_cases) auto
    then have "\<not> is_space c" using no_space_member [OF n, of c] by simp
    with s x obtain e where "first_rune back_spaces (rev w) = Some e" by (auto split: if_splits option.splits)
    then obtain v where v: "v \<in> set wide_spaces" "starts (rev w) (rev v)"
      using first_rune_Some [of back_spaces "rev w" e] by (auto simp: back_spaces_def)
    then have "rev w = rev v @ drop (length v) (rev w)" by (metis append_take_drop_id length_rev starts_def)
    then have "w = rev (drop (length v) (rev w)) @ v" by (metis rev_append rev_rev_ident)
    with n have "no_space v" by (metis no_space_suffix)
    with v(1) show False by (simp add: wide_spaces_start)
  qed
  with n show ?thesis by (simp add: trimmed_def no_space_start)
qed

subsection \<open>Laws: case\<close>

lemma map_runes_append: "list_all ascii s \<Longrightarrow> map_runes tab f (s @ t) = map f s @ map_runes tab f t"
  by (induction s) simp_all

lemma map_runes_ascii: "list_all ascii s \<Longrightarrow> map_runes tab f s = map f s"
  by (induction s) simp_all

lemma ToLower_ascii: "list_all ascii s \<Longrightarrow> ToLower s = map lower_char s"
  by (simp add: ToLower_def map_runes_ascii)

lemma ToLower_append: "list_all ascii s \<Longrightarrow> ToLower (s @ t) = map lower_char s @ ToLower t"
  by (simp add: ToLower_def map_runes_append)

lemma fold_case_ascii: "list_all ascii s \<Longrightarrow> fold_case s = map lower_char s"
  by (simp add: fold_case_def map_runes_ascii)

end
