(* ===== verification/Go_Strings.thy ===== *)
theory Go_Strings
  imports Go_Unicode
begin

text \<open>
  The part of Go's \<open>strings\<close> and \<open>strconv\<close> packages that the program calls, on byte
  strings; white space and letter case are in \<open>Go_Unicode\<close>.  The defining recursions are
  structural, so closed calls evaluate by the simplifier.
\<close>

subsection \<open>Bytes\<close>

definition is_digit :: "char \<Rightarrow> bool" where
  "is_digit c \<longleftrightarrow> 48 \<le> (of_char c :: nat) \<and> (of_char c :: nat) \<le> 57"

definition digit_val :: "char \<Rightarrow> nat" where
  "digit_val c = of_char c - 48"

definition digit_char :: "nat \<Rightarrow> char" where
  "digit_char n = char_of (48 + n)"

subsection \<open>Prefixes, suffixes, searching\<close>

definition HasPrefix :: "string \<Rightarrow> string \<Rightarrow> bool" where
  "HasPrefix s p \<longleftrightarrow> take (length p) s = p"

definition HasSuffix :: "string \<Rightarrow> string \<Rightarrow> bool" where
  "HasSuffix s p \<longleftrightarrow> length p \<le> length s \<and> drop (length s - length p) s = p"

definition TrimPrefix :: "string \<Rightarrow> string \<Rightarrow> string" where
  "TrimPrefix s p = (if HasPrefix s p then drop (length p) s else s)"

definition TrimSuffix :: "string \<Rightarrow> string \<Rightarrow> string" where
  "TrimSuffix s p = (if HasSuffix s p then take (length s - length p) s else s)"

text \<open>\<open>IndexByte\<close>: the first position of a byte, \<open>None\<close> for Go's \<open>-1\<close>.\<close>

fun IndexByte :: "string \<Rightarrow> char \<Rightarrow> nat option" where
  "IndexByte [] c = None"
| "IndexByte (x # xs) c = (if x = c then Some 0 else map_option Suc (IndexByte xs c))"

subsection \<open>Trimming\<close>

definition trim_right :: "(char \<Rightarrow> bool) \<Rightarrow> string \<Rightarrow> string" where
  "trim_right P s = rev (dropWhile P (rev s))"

definition TrimFunc :: "(char \<Rightarrow> bool) \<Rightarrow> string \<Rightarrow> string" where
  "TrimFunc P s = trim_right P (dropWhile P s)"

definition Trim :: "string \<Rightarrow> string \<Rightarrow> string" where
  "Trim s cutset = TrimFunc (\<lambda>c. c \<in> set cutset) s"

subsection \<open>Splitting and joining\<close>

text \<open>\<open>strings.Split\<close> with a one-byte separator: never empty.\<close>

fun Split :: "string \<Rightarrow> char \<Rightarrow> string list" where
  "Split [] c = [[]]"
| "Split (x # xs) c =
     (if x = c then [] # Split xs c
      else (case Split xs c of [] \<Rightarrow> [[x]] | w # ws \<Rightarrow> (x # w) # ws))"

text \<open>\<open>strings.SplitN(s, sep, 2)\<close>.\<close>

definition SplitN2 :: "string \<Rightarrow> char \<Rightarrow> string list" where
  "SplitN2 s c = (case IndexByte s c of None \<Rightarrow> [s] | Some i \<Rightarrow> [take i s, drop (Suc i) s])"

fun Join :: "string list \<Rightarrow> string \<Rightarrow> string" where
  "Join [] sep = []"
| "Join [w] sep = w"
| "Join (w # v # ws) sep = w @ sep @ Join (v # ws) sep"

text \<open>\<open>strings.ReplaceAll\<close> with one-byte old and new.\<close>

definition ReplaceByte :: "string \<Rightarrow> char \<Rightarrow> char \<Rightarrow> string" where
  "ReplaceByte s a b = map (\<lambda>c. if c = a then b else c) s"

subsection \<open>Numbers\<close>

definition max_int64 :: int where "max_int64 = 2 ^ 63 - 1"
definition min_int64 :: int where "min_int64 = - (2 ^ 63)"

definition dec_value :: "string \<Rightarrow> nat" where
  "dec_value ds = foldl (\<lambda>n c. n * 10 + digit_val c) 0 ds"

text \<open>
  \<open>strconv.Atoi\<close> on a 64-bit machine returns a value and an error.  A syntax error comes
  with the value 0, a range error with the nearest bound; the flag says whether the error
  is nil.
\<close>

definition Atoi :: "string \<Rightarrow> int \<times> bool" where
  "Atoi s =
     (let neg = HasPrefix s ''-'';
          ds = (if neg \<or> HasPrefix s ''+'' then tl s else s)
      in if ds = [] \<or> \<not> list_all is_digit ds then (0, False)
         else let n = int (dec_value ds) in
           if neg then (if n \<le> 2 ^ 63 then (- n, True) else (min_int64, False))
           else (if n < 2 ^ 63 then (n, True) else (max_int64, False)))"

text \<open>\<open>%d\<close> on a non-negative and on a signed number.\<close>

fun dec_rev :: "nat \<Rightarrow> string" where
  "dec_rev n = (if n < 10 then [digit_char n] else digit_char (n mod 10) # dec_rev (n div 10))"

definition show_nat :: "nat \<Rightarrow> string" where
  "show_nat n = rev (dec_rev n)"

definition show_int :: "int \<Rightarrow> string" where
  "show_int n = (if n < 0 then CHR ''-'' # show_nat (nat (- n)) else show_nat (nat n))"

declare dec_rev.simps [simp del]


subsection \<open>Laws: prefixes, suffixes, searching\<close>

lemma HasPrefix_iff: "HasPrefix s p \<longleftrightarrow> (\<exists>t. s = p @ t)"
proof
  assume "HasPrefix s p"
  then have "s = p @ drop (length p) s"
    unfolding HasPrefix_def by (metis append_take_drop_id)
  then show "\<exists>t. s = p @ t" by blast
qed (auto simp: HasPrefix_def)

lemma HasPrefix_append [simp]: "HasPrefix (p @ t) p"
  by (simp add: HasPrefix_def)

lemma HasPrefix_refl [simp]: "HasPrefix s s"
  by (simp add: HasPrefix_def)

lemma HasPrefix_Nil [simp]: "HasPrefix s []"
  by (simp add: HasPrefix_def)

lemma HasPrefix_trans: "HasPrefix s p \<Longrightarrow> HasPrefix p q \<Longrightarrow> HasPrefix s q"
  by (auto simp: HasPrefix_iff)

lemma HasSuffix_iff: "HasSuffix s p \<longleftrightarrow> (\<exists>t. s = t @ p)"
proof
  assume "HasSuffix s p"
  then have "s = take (length s - length p) s @ p"
    unfolding HasSuffix_def by (metis append_take_drop_id)
  then show "\<exists>t. s = t @ p" by blast
qed (auto simp: HasSuffix_def)

lemma HasSuffix_append [simp]: "HasSuffix (t @ p) p"
  by (simp add: HasSuffix_def)

lemma TrimPrefix_append [simp]: "TrimPrefix (p @ t) p = t"
  by (simp add: TrimPrefix_def)

lemma TrimSuffix_append [simp]: "TrimSuffix (t @ p) p = t"
  by (simp add: TrimSuffix_def)

lemma IndexByte_None [simp]: "IndexByte s c = None \<longleftrightarrow> c \<notin> set s"
  by (induction s) auto

lemma IndexByte_Some:
  "IndexByte s c = Some i \<longleftrightarrow> i < length s \<and> s ! i = c \<and> c \<notin> set (take i s)"
proof (induction s arbitrary: i)
  case (Cons x xs)
  show ?case by (cases i) (auto simp: Cons.IH)
qed simp

lemma IndexByte_append: "c \<notin> set s \<Longrightarrow> IndexByte (s @ c # t) c = Some (length s)"
  by (induction s) auto

lemma IndexByte_split:
  assumes "IndexByte s c = Some i"
  shows "s = take i s @ c # drop (Suc i) s"
  using assms by (auto simp: IndexByte_Some id_take_nth_drop)

subsection \<open>Laws: trimming\<close>

lemma trim_right_id: "s = [] \<or> \<not> P (last s) \<Longrightarrow> trim_right P s = s"
  unfolding trim_right_def
  by (metis dropWhile_eq_self_iff hd_rev rev_is_Nil_conv rev_rev_ident)

lemma trim_right_snoc: "trim_right P (s @ [c]) = (if P c then trim_right P s else s @ [c])"
  by (simp add: trim_right_def)

lemma trim_right_last: "trim_right P s = [] \<or> \<not> P (last (trim_right P s))"
proof (induction s rule: rev_induct)
  case (snoc c s)
  then show ?case by (auto simp: trim_right_snoc)
qed (simp add: trim_right_def)

lemma trim_right_prefix: "\<exists>u. s = trim_right P s @ u \<and> list_all P u"
proof (induction s rule: rev_induct)
  case (snoc c s)
  then obtain u where "s = trim_right P s @ u" "list_all P u" by blast
  then show ?case by (cases "P c") (auto simp: trim_right_snoc intro: exI [of _ "u @ [c]"])
qed (simp add: trim_right_def)

lemma hd_dropWhile_not: "dropWhile P s \<noteq> [] \<Longrightarrow> \<not> P (hd (dropWhile P s))"
  by (rule hd_dropWhile)

subsection \<open>Laws: splitting and joining\<close>

text \<open>Words joined by single blanks split into the same words.\<close>

lemma Fields_Join: "list_all is_word ws \<Longrightarrow> Fields (Join ws '' '') = ws"
proof (induction ws "'' ''" rule: Join.induct)
  case (2 w)
  then show ?case by (simp add: Fields_word)
next
  case (3 w v ws)
  then have "Fields (w @ SPC # Join (v # ws) '' '') = w # Fields (Join (v # ws) '' '')"
    by (intro Fields_word_space) simp
  with 3 show ?case by simp
qed simp

lemma Split_nonempty [simp]: "Split s c \<noteq> []"
  by (induction s) (auto split: list.splits)

lemma Join_Cons: "ws \<noteq> [] \<Longrightarrow> Join (w # ws) sep = w @ sep @ Join ws sep"
  by (cases ws) auto

lemma Join_Cons_hd: "Join ((x # w) # ws) sep = x # Join (w # ws) sep"
  by (cases ws) auto

lemma Join_Split: "Join (Split s c) [c] = s"
proof (induction s)
  case (Cons x xs)
  then show ?case
    by (cases "x = c"; cases "Split xs c") (auto simp: Join_Cons Join_Cons_hd)
qed simp

lemma Split_parts: "w \<in> set (Split s c) \<Longrightarrow> c \<notin> set w"
proof (induction s arbitrary: w)
  case (Cons x xs)
  show ?case
  proof (cases "x = c")
    case True
    with Cons show ?thesis by auto
  next
    case False
    obtain v vs where v: "Split xs c = v # vs"
      using Split_nonempty [of xs c] by (cases "Split xs c") auto
    then have "c \<notin> set v" using Cons.IH [of v] by simp
    with False Cons v show ?thesis by auto
  qed
qed simp

lemma Split_free: "c \<notin> set w \<Longrightarrow> Split w c = [w]"
  by (induction w) auto

lemma Split_append: "c \<notin> set w \<Longrightarrow> Split (w @ c # s) c = w # Split s c"
  by (induction w) auto

lemma Split_Join: "ws \<noteq> [] \<Longrightarrow> (\<And>w. w \<in> set ws \<Longrightarrow> c \<notin> set w) \<Longrightarrow> Split (Join ws [c]) c = ws"
proof (induction ws "[c]" rule: Join.induct)
  case (2 w)
  then show ?case by (simp add: Split_free)
next
  case (3 w v ws)
  then show ?case using Split_append [of c w "Join (v # ws) [c]"] by simp
qed simp

subsection \<open>Laws: numbers\<close>

lemma is_digit_plain: "is_digit c \<Longrightarrow> ascii c \<and> \<not> is_space c"
  by (auto simp: is_digit_def ascii_code is_space_def)

lemma digits_trimmed: "list_all is_digit s \<Longrightarrow> trimmed s"
  by (cases "s = []") (auto simp: list_all_iff is_digit_plain intro!: trimmed_ascii)

lemma is_digit_digit_char: "n < 10 \<Longrightarrow> is_digit (digit_char n)"
  by (simp add: is_digit_def digit_char_def of_char_of)

lemma digit_val_digit_char: "n < 10 \<Longrightarrow> digit_val (digit_char n) = n"
  by (simp add: digit_val_def digit_char_def of_char_of)

lemma dec_rev_digits: "list_all is_digit (dec_rev n)"
proof (induction n rule: dec_rev.induct)
  case (1 n)
  then show ?case by (subst dec_rev.simps) (auto simp: is_digit_digit_char)
qed

lemma dec_rev_nonempty: "dec_rev n \<noteq> []"
  by (subst dec_rev.simps) simp

lemma dec_value_snoc: "dec_value (ds @ [c]) = dec_value ds * 10 + digit_val c"
  by (simp add: dec_value_def)

lemma dec_value_dec_rev: "dec_value (rev (dec_rev n)) = n"
proof (induction n rule: dec_rev.induct)
  case (1 n)
  show ?case
  proof (cases "n < 10")
    case True
    then show ?thesis
      by (subst dec_rev.simps) (simp add: dec_value_def digit_val_digit_char)
  next
    case False
    with 1 show ?thesis
      by (subst dec_rev.simps) (simp add: dec_value_snoc digit_val_digit_char)
  qed
qed

lemma show_nat_digits: "list_all is_digit (show_nat n)"
  using dec_rev_digits [of n] by (simp add: show_nat_def list_all_iff)

lemma show_nat_nonempty [simp]: "show_nat n \<noteq> []"
  by (simp add: show_nat_def dec_rev_nonempty)

lemma dec_value_show_nat [simp]: "dec_value (show_nat n) = n"
  by (simp add: show_nat_def dec_value_dec_rev)

lemma digit_not_sign: "is_digit c \<Longrightarrow> c \<noteq> CHR ''-'' \<and> c \<noteq> CHR ''+''"
  by (auto simp: is_digit_def)

lemma digits_no_sign:
  assumes "list_all is_digit s"
  shows "\<not> HasPrefix s ''-''" and "\<not> HasPrefix s ''+''"
  using assms by (cases s; auto simp: HasPrefix_def dest: digit_not_sign)+

text \<open>Every 64-bit number survives printing and parsing.\<close>

lemma Atoi_show_int:
  assumes "min_int64 \<le> n" "n \<le> max_int64"
  shows "Atoi (show_int n) = (n, True)"
proof (cases "n < 0")
  case True
  then have "show_int n = CHR ''-'' # show_nat (nat (- n))"
    by (simp add: show_int_def)
  moreover have "int (nat (- n)) \<le> 2 ^ 63"
    using assms(1) True by (simp add: min_int64_def)
  ultimately show ?thesis
    using True by (simp add: Atoi_def HasPrefix_def show_nat_digits Let_def)
next
  case False
  then have s: "show_int n = show_nat (nat n)"
    by (simp add: show_int_def)
  moreover have "int (nat n) < 2 ^ 63"
    using assms(2) False by (simp add: max_int64_def)
  ultimately show ?thesis
    using False digits_no_sign [OF show_nat_digits, of "nat n"]
    by (simp add: Atoi_def show_nat_digits Let_def)
qed

lemma Atoi_range: "min_int64 \<le> fst (Atoi s) \<and> fst (Atoi s) \<le> max_int64"
  by (auto simp: Atoi_def Let_def min_int64_def max_int64_def)

end
