(* ===== verification/Config_Data.thy ===== *)
theory Config_Data
  imports Go_Strings
begin

text \<open>
  The configuration of \<open>internal/config/config.go\<close>: one record per Go struct, with a
  two-letter prefix where Go reuses a field name.  A pointer field is an \<open>option\<close>, a Go
  \<open>int\<close> an \<open>int\<close>, a slice a list.  \<open>Default\<close> is the development configuration.
\<close>

record CommandConfig =
  cc_Type :: string
  cc_Method :: string
  cc_Route :: string

record ProxyCacheConfig =
  AllowedOrigins :: "string list"
  DenyAll :: bool
  TTL :: string
  MaxSize :: string
  StoragePath :: string
  MaxRedirects :: int
  AllowPrivateIPs :: bool
  AllowRedirects :: "bool option"

record AuthConfig =
  ac_Anonymous :: "string list"
  ac_Identified :: "string list"
  ac_Trusted :: "string list"

record LimitsConfig =
  lc_Anonymous :: string
  lc_Identified :: string
  lc_Trusted :: string

record MCPAuthConfig =
  ma_Anonymous :: "string list"
  ma_Identified :: "string list"
  ma_Trusted :: "string list"

record MCPConfig =
  mc_Transport :: string
  mc_Command :: string
  mc_URL :: string
  mc_Auth :: MCPAuthConfig

record FeedConfig =
  fc_Path :: string
  fc_Format :: string

record SitemapConfig =
  sm_Path :: string
  sm_Dynamic :: bool

record RobotsConfig =
  CrawlDelay :: int
  AllowedPaths :: "string list"
  BlockedPaths :: "string list"

record MetaConfig =
  Feeds :: "FeedConfig list"
  Sitemap :: SitemapConfig
  Robots :: RobotsConfig

record SiteConfig =
  Host :: string
  Port :: int
  HostKey :: string
  Root :: string
  Backend :: string
  AuthorizedKeysPath :: string
  Commands :: "CommandConfig list"
  ProxyCache :: ProxyCacheConfig
  Auth :: AuthConfig
  Limits :: LimitsConfig
  MCP :: "MCPConfig option"
  Meta :: MetaConfig

record Config =
  Sites :: "SiteConfig list"

text \<open>The zero values Go gives to fields that are not set.\<close>

definition zero_CommandConfig :: CommandConfig where
  "zero_CommandConfig = \<lparr>cc_Type = [], cc_Method = [], cc_Route = []\<rparr>"
definition zero_ProxyCacheConfig :: ProxyCacheConfig where
  "zero_ProxyCacheConfig = \<lparr>AllowedOrigins = [], DenyAll = False, TTL = [], MaxSize = [],
     StoragePath = [], MaxRedirects = 0, AllowPrivateIPs = False, AllowRedirects = None\<rparr>"
definition zero_AuthConfig :: AuthConfig where
  "zero_AuthConfig = \<lparr>ac_Anonymous = [], ac_Identified = [], ac_Trusted = []\<rparr>"
definition zero_LimitsConfig :: LimitsConfig where
  "zero_LimitsConfig = \<lparr>lc_Anonymous = [], lc_Identified = [], lc_Trusted = []\<rparr>"
definition zero_MCPAuthConfig :: MCPAuthConfig where
  "zero_MCPAuthConfig = \<lparr>ma_Anonymous = [], ma_Identified = [], ma_Trusted = []\<rparr>"
definition zero_MCPConfig :: MCPConfig where
  "zero_MCPConfig = \<lparr>mc_Transport = [], mc_Command = [], mc_URL = [], mc_Auth = zero_MCPAuthConfig\<rparr>"
definition zero_MetaConfig :: MetaConfig where
  "zero_MetaConfig = \<lparr>Feeds = [], Sitemap = \<lparr>sm_Path = [], sm_Dynamic = False\<rparr>,
     Robots = \<lparr>CrawlDelay = 0, AllowedPaths = [], BlockedPaths = []\<rparr>\<rparr>"

definition zero_SiteConfig :: SiteConfig where
  "zero_SiteConfig = \<lparr>Host = [], Port = 0, HostKey = [], Root = [], Backend = [],
     AuthorizedKeysPath = [], Commands = [], ProxyCache = zero_ProxyCacheConfig,
     Auth = zero_AuthConfig, Limits = zero_LimitsConfig, MCP = None, Meta = zero_MetaConfig\<rparr>"

definition Default :: Config where
  "Default = \<lparr>Sites = [zero_SiteConfig\<lparr>
     Host := ''localhost'',
     Port := 22443,
     HostKey := [],
     Commands := [zero_CommandConfig\<lparr>cc_Type := ''receive-pack'', cc_Route := ''/''\<rparr>],
     Auth := zero_AuthConfig\<lparr>ac_Anonymous := [''receive-pack'', ''capabilities'']\<rparr>,
     Limits := \<lparr>lc_Anonymous = ''60/min'', lc_Identified = ''300/min'', lc_Trusted = ''unlimited''\<rparr>\<rparr>]\<rparr>"

lemmas zero_config_defs = zero_CommandConfig_def zero_ProxyCacheConfig_def zero_AuthConfig_def
  zero_LimitsConfig_def zero_MCPAuthConfig_def zero_MCPConfig_def zero_MetaConfig_def
  zero_SiteConfig_def

end
