(* ===== verification/Scanner.thy ===== *)
theory Scanner
  imports Config_Data
begin

text \<open>
  The lexical layer of \<open>internal/config/parser.go\<close>: the cursor (\<open>parser\<close>), \<open>peek\<close>, \<open>advance\<close>
  and the scanning operations built on them.  Each operation is proved equal to a function on
  the rest of the input, and the locale \<open>scan_op\<close> states the contract they share: the input
  stays, the cursor never goes back, and line and column stay those of its position.
  \<open>advance\<close> is only ever called where \<open>p_pos p < length (p_input p)\<close> is known.
\<close>

subsection \<open>The code\<close>

record parser =
  p_input :: string
  p_pos :: nat
  p_line :: nat
  p_col :: nat

definition newParser :: "string \<Rightarrow> parser" where
  "newParser input = \<lparr>p_input = input, p_pos = 0, p_line = 1, p_col = 1\<rparr>"

definition peek :: "parser \<Rightarrow> char" where
  "peek p = (if length (p_input p) \<le> p_pos p then NUL else p_input p ! p_pos p)"

definition advance :: "parser \<Rightarrow> char \<times> parser" where
  "advance p =
     (let ch = p_input p ! p_pos p in
      (ch, if ch = LF then p\<lparr>p_pos := p_pos p + 1, p_line := p_line p + 1, p_col := 1\<rparr>
           else p\<lparr>p_pos := p_pos p + 1, p_col := p_col p + 1\<rparr>))"

abbreviation next_char :: "parser \<Rightarrow> parser" where "next_char p \<equiv> snd (advance p)"

lemma advance_simps [simp]:
  "p_input (next_char p) = p_input p" "p_pos (next_char p) = Suc (p_pos p)"
  by (auto simp: advance_def Let_def)

text \<open>The loop \<open>for p.pos < len(p.input) && ok(p.peek()) { p.advance() }\<close>.\<close>

function skip_while :: "(char \<Rightarrow> bool) \<Rightarrow> parser \<Rightarrow> parser" where
  "skip_while ok p =
     (if p_pos p < length (p_input p) \<and> ok (peek p) then skip_while ok (next_char p) else p)"
  by pat_completeness auto
termination
  by (relation "measure (\<lambda>(ok, p). length (p_input p) - p_pos p)") auto

declare skip_while.simps [simp del]

lemma skip_while_input [simp]: "p_input (skip_while ok p) = p_input p"
  by (induction ok p rule: skip_while.induct) (subst skip_while.simps, simp)

lemma skip_while_pos: "p_pos p \<le> p_pos (skip_while ok p)"
proof (induction ok p rule: skip_while.induct)
  case (1 ok p)
  then show ?case by (subst skip_while.simps) (auto dest: Suc_leD)
qed

lemma skip_while_progress:
  "p_pos p < length (p_input p) \<Longrightarrow> ok (peek p) \<Longrightarrow> p_pos p < p_pos (skip_while ok p)"
  using skip_while_pos [of "next_char p" ok] by (subst skip_while.simps) simp

definition is_blank :: "char \<Rightarrow> bool" where
  "is_blank ch \<longleftrightarrow> ch = SPC \<or> ch = TAB \<or> ch = LF \<or> ch = CR"

function skipWhitespace :: "parser \<Rightarrow> parser" where
  "skipWhitespace p =
     (if p_pos p < length (p_input p) then
        (let ch = peek p in
         if ch = CHR ''#'' then skipWhitespace (skip_while (\<lambda>c. c \<noteq> LF) p)
         else if is_blank ch then skipWhitespace (next_char p)
         else p)
      else p)"
  by pat_completeness auto
termination
proof (relation "measure (\<lambda>p. length (p_input p) - p_pos p)")
  fix p x
  assume "p_pos p < length (p_input p)" "x = peek p" "x = CHR ''#''"
  moreover from this have "p_pos p < p_pos (skip_while (\<lambda>c. c \<noteq> LF) p)"
    by (intro skip_while_progress) auto
  ultimately show "(skip_while (\<lambda>c. c \<noteq> LF) p, p) \<in> measure (\<lambda>p. length (p_input p) - p_pos p)"
    by simp
qed auto

declare skipWhitespace.simps [simp del]

definition slice :: "string \<Rightarrow> nat \<Rightarrow> nat \<Rightarrow> string" where
  "slice s a b = take (b - a) (drop a s)"

definition word_char :: "char \<Rightarrow> bool" where
  "word_char ch \<longleftrightarrow> \<not> (is_blank ch \<or> ch = CHR ''{'' \<or> ch = CHR ''}'' \<or> ch = CHR ''#'')"

definition readWord :: "parser \<Rightarrow> string \<times> parser" where
  "readWord p0 =
     (let p = skipWhitespace p0; start = p_pos p; p = skip_while word_char p
      in (slice (p_input p) start (p_pos p), p))"

definition readUntilNewline :: "parser \<Rightarrow> string \<times> parser" where
  "readUntilNewline p0 =
     (let start = p_pos p0; p = skip_while (\<lambda>c. c \<noteq> LF \<and> c \<noteq> CHR ''#'') p0
      in (TrimSpace (slice (p_input p) start (p_pos p)), p))"

text \<open>The body of \<open>readQuotedString\<close> after the opening quote; \<open>sb\<close> is what was written.\<close>

function quoted_loop :: "string \<Rightarrow> parser \<Rightarrow> string option \<times> parser" where
  "quoted_loop sb p =
     (if p_pos p < length (p_input p) then
        (let (ch, q) = advance p in
         if ch = BSL \<and> p_pos q < length (p_input q) then
           quoted_loop (sb @ [fst (advance q)]) (next_char q)
         else if ch = DQ then (Some sb, q)
         else quoted_loop (sb @ [ch]) q)
      else (None, p))"
  by pat_completeness auto
termination
  by (relation "measure (\<lambda>(sb, p). length (p_input p) - p_pos p)")
    (auto simp: advance_def Let_def split: if_splits)

declare quoted_loop.simps [simp del]


subsection \<open>The rest of the input\<close>

definition rest :: "parser \<Rightarrow> string" where
  "rest p = drop (p_pos p) (p_input p)"

lemma rest_Nil: "rest p = [] \<longleftrightarrow> length (p_input p) \<le> p_pos p"
  by (simp add: rest_def)

lemma rest_Cons:
  assumes "rest p = c # cs"
  shows "p_pos p < length (p_input p)" and "peek p = c" and "fst (advance p) = c"
    and "rest (next_char p) = cs"
  using drop_eq_ConsD [OF assms [unfolded rest_def]]
  by (simp_all add: rest_def peek_def advance_def Let_def)

lemma peek_rest: "peek p = (case rest p of [] \<Rightarrow> NUL | c # cs \<Rightarrow> c)"
  by (auto simp: peek_def rest_Nil rest_Cons(2) split: list.split dest: rest_Cons)

lemma rest_newParser [simp]: "rest (newParser s) = s"
  by (simp add: rest_def newParser_def)

lemma not_at_end: "p_pos p < length (p_input p) \<longleftrightarrow> rest p \<noteq> []"
  by (simp add: rest_Nil not_le)

lemma skip_while_step: "skip_while ok p =
    (case rest p of [] \<Rightarrow> p | c # cs \<Rightarrow> if ok c then skip_while ok (next_char p) else p)"
  by (subst skip_while.simps) (auto simp: not_at_end peek_rest split: list.split)

lemma rest_skip_while: "rest (skip_while ok p) = dropWhile ok (rest p)"
proof (induction "rest p" arbitrary: p)
  case Nil
  then show ?case by (simp add: skip_while_step)
next
  case (Cons c cs)
  from rest_Cons(4) [OF Cons(2) [symmetric]] have "rest (next_char p) = cs" .
  with Cons(1) [of "next_char p"] Cons(2) [symmetric] show ?case
    by (subst skip_while_step) simp
qed

lemma pos_skip_while: "p_pos (skip_while ok p) = p_pos p + length (takeWhile ok (rest p))"
proof (induction "rest p" arbitrary: p)
  case Nil
  then show ?case by (simp add: skip_while_step)
next
  case (Cons c cs)
  from rest_Cons(4) [OF Cons(2) [symmetric]] have "rest (next_char p) = cs" .
  with Cons(1) [of "next_char p"] Cons(2) [symmetric] show ?case
    by (subst skip_while_step) simp
qed

lemma slice_skip_while:
  "slice (p_input p) (p_pos p) (p_pos (skip_while ok p)) = takeWhile ok (rest p)"
  using take_length_takeWhile [of ok "rest p"]
  by (simp add: slice_def pos_skip_while rest_def)

text \<open>White space and comments, on the rest of the input.\<close>

function ws_skip :: "string \<Rightarrow> string" where
  "ws_skip [] = []"
| "ws_skip (c # cs) =
     (if c = CHR ''#'' then ws_skip (dropWhile (\<lambda>c. c \<noteq> LF) cs)
      else if is_blank c then ws_skip cs else c # cs)"
  by pat_completeness auto
termination
  by (relation "measure length") (auto simp: le_imp_less_Suc length_dropWhile_le)

lemma is_blank_hash [simp]: "\<not> is_blank CHR ''#''" "\<not> is_blank CHR ''{''" "\<not> is_blank CHR ''}''"
  "\<not> is_blank CHR ''[''" "\<not> is_blank CHR '']''" "\<not> is_blank DQ"
  by (simp_all add: is_blank_def)

lemma skipWhitespace_step: "skipWhitespace p =
    (case rest p of [] \<Rightarrow> p
     | c # cs \<Rightarrow> if c = CHR ''#'' then skipWhitespace (skip_while (\<lambda>c. c \<noteq> LF) p)
         else if is_blank c then skipWhitespace (next_char p) else p)"
  by (subst skipWhitespace.simps) (auto simp: not_at_end peek_rest split: list.split)

lemma rest_skipWhitespace [scan_rules]: "rest (skipWhitespace p) = ws_skip (rest p)"
proof (induction p rule: skipWhitespace.induct)
  case (1 p)
  show ?case
  proof (cases "rest p")
    case Nil
    then show ?thesis by (simp add: skipWhitespace_step)
  next
    case (Cons c cs)
    note r = rest_Cons [OF Cons]
    show ?thesis
    proof (cases "c = CHR ''#''")
      case True
      with 1(1) [OF r(1) refl] Cons r(2) show ?thesis
        by (simp add: skipWhitespace_step [of p] rest_skip_while)
    next
      case False
      with 1(2) [OF r(1) refl] Cons r show ?thesis
        by (auto simp: skipWhitespace_step [of p])
    qed
  qed
qed

lemma ws_skip_idem [simp]: "ws_skip (ws_skip s) = ws_skip s"
  by (induction s rule: ws_skip.induct) auto

lemma ws_skip_suffix: "\<exists>u. s = u @ ws_skip s"
proof (induction s rule: ws_skip.induct)
  case (2 c cs)
  show ?case
  proof (cases "c = CHR ''#''")
    case True
    with 2(1) obtain u where "dropWhile (\<lambda>c. c \<noteq> LF) cs = u @ ws_skip (c # cs)" by auto
    then have "c # cs = (c # takeWhile (\<lambda>c. c \<noteq> LF) cs @ u) @ ws_skip (c # cs)"
      by (metis append_Cons append_assoc takeWhile_dropWhile_id)
    then show ?thesis by blast
  next
    case False
    with 2(2) show ?thesis by (cases "is_blank c") (auto intro: exI [of _ "c # u" for u])
  qed
qed simp

lemma readWord_fst [scan_rules]: "fst (readWord p) = takeWhile word_char (ws_skip (rest p))"
  using slice_skip_while [of "skipWhitespace p" word_char]
  by (simp add: readWord_def Let_def rest_skipWhitespace)

lemma readWord_rest [scan_rules]: "rest (snd (readWord p)) = dropWhile word_char (ws_skip (rest p))"
  by (simp add: readWord_def Let_def rest_skip_while rest_skipWhitespace)

lemma readUntilNewline_fst [scan_rules]: "fst (readUntilNewline p) =
    TrimSpace (takeWhile (\<lambda>c. c \<noteq> LF \<and> c \<noteq> CHR ''#'') (rest p))"
  by (simp add: readUntilNewline_def Let_def slice_skip_while)

lemma readUntilNewline_rest [scan_rules]: "rest (snd (readUntilNewline p)) =
    dropWhile (\<lambda>c. c \<noteq> LF \<and> c \<noteq> CHR ''#'') (rest p)"
  by (simp add: readUntilNewline_def Let_def rest_skip_while)


text \<open>The quoted string, on the rest of the input: its contents and what follows.\<close>

fun unquote :: "string \<Rightarrow> string option \<times> string" where
  "unquote [] = (None, [])"
| "unquote (c # cs) =
     (if c = DQ then (Some [], cs)
      else if c = BSL then
        (case cs of
           [] \<Rightarrow> (None, [])
         | d # ds \<Rightarrow> (case unquote ds of (r, left) \<Rightarrow> (map_option ((#) d) r, left)))
      else (case unquote cs of (r, left) \<Rightarrow> (map_option ((#) c) r, left)))"

lemma quoted_loop_end: "rest p = [] \<Longrightarrow> quoted_loop sb p = (None, p)"
  by (subst quoted_loop.simps) (simp add: not_at_end)

lemma quoted_loop_cons:
  assumes "rest p = c # cs"
  shows "quoted_loop sb p =
    (if c = BSL \<and> cs \<noteq> [] then quoted_loop (sb @ [hd cs]) (next_char (next_char p))
     else if c = DQ then (Some sb, next_char p) else quoted_loop (sb @ [c]) (next_char p))"
proof -
  note r = rest_Cons [OF assms]
  obtain q where a: "advance p = (c, q)" using r(3) by (cases "advance p") auto
  with r(4) have q: "rest q = cs" by simp
  then have "p_pos q < length (p_input q) \<longleftrightarrow> cs \<noteq> []"
    using not_at_end [of q] by simp
  moreover have "cs \<noteq> [] \<Longrightarrow> fst (advance q) = hd cs"
    using rest_Cons(3) [of q "hd cs" "tl cs"] q by simp
  ultimately show ?thesis
    using r(1) by (subst quoted_loop.simps) (simp add: a Let_def)
qed

lemma quoted_loop_unquote:
  "fst (quoted_loop sb p) = map_option ((@) sb) (fst (unquote s)) \<and>
   rest (snd (quoted_loop sb p)) = snd (unquote s)"
  if "rest p = s"
  using that
proof (induction s arbitrary: sb p rule: unquote.induct)
  case 1
  then show ?case by (simp add: quoted_loop_end)
next
  case (2 c cs)
  have r1: "rest (next_char p) = cs" by (rule rest_Cons(4) [OF "2.prems"])
  consider "c = DQ" | (esc) d ds where "c = BSL" "cs = d # ds" | (last) "c = BSL" "cs = []"
    | (char) "c \<noteq> DQ" "c \<noteq> BSL"
    by (cases cs) auto
  then show ?case
  proof cases
    case 1
    with r1 show ?thesis by (simp add: quoted_loop_cons [OF "2.prems"])
  next
    case esc
    have r2: "rest (next_char (next_char p)) = ds"
      by (rule rest_Cons(4)) (simp add: r1 esc)
    have ih: "fst (quoted_loop (sb @ [d]) (next_char (next_char p))) = map_option (\<lambda>w. sb @ d # w) (fst (unquote ds))"
      "rest (snd (quoted_loop (sb @ [d]) (next_char (next_char p)))) = snd (unquote ds)"
      using "2.IH"(1) [OF _ _ esc(2) r2, of "sb @ [d]"] esc(1) by (simp_all add: append_snoc_fun)
    show ?thesis
      using esc ih by (simp add: quoted_loop_cons [OF "2.prems"] option.map_comp comp_def split: prod.split)
  next
    case last
    with r1 show ?thesis by (simp add: quoted_loop_cons [OF "2.prems"] quoted_loop_end)
  next
    case char
    have ih: "fst (quoted_loop (sb @ [c]) (next_char p)) = map_option (\<lambda>w. sb @ c # w) (fst (unquote cs))"
      "rest (snd (quoted_loop (sb @ [c]) (next_char p))) = snd (unquote cs)"
      using "2.IH"(2) [OF char r1, of "sb @ [c]"] by (simp_all add: append_snoc_fun)
    show ?thesis
      using char ih by (simp add: quoted_loop_cons [OF "2.prems"] option.map_comp comp_def split: prod.split)
  qed
qed

lemmas quoted_loop_rest [scan_rules] =
  quoted_loop_unquote [OF refl, THEN conjunct1] quoted_loop_unquote [OF refl, THEN conjunct2]


subsection \<open>What scanning operations share\<close>

text \<open>The line and column that belong to a consumed prefix of the input.\<close>

definition line_at :: "string \<Rightarrow> nat" where
  "line_at u = 1 + count_list u LF"

definition col_at :: "string \<Rightarrow> nat" where
  "col_at u = 1 + length (takeWhile (\<lambda>c. c \<noteq> LF) (rev u))"

definition cursor_ok :: "parser \<Rightarrow> bool" where
  "cursor_ok p \<longleftrightarrow> p_pos p \<le> length (p_input p) \<and>
     p_line p = line_at (take (p_pos p) (p_input p)) \<and> p_col p = col_at (take (p_pos p) (p_input p))"

lemma cursor_ok_new [simp]: "cursor_ok (newParser s)"
  by (simp add: cursor_ok_def newParser_def line_at_def col_at_def)

lemma cursor_ok_advance:
  assumes "cursor_ok p" "p_pos p < length (p_input p)"
  shows "cursor_ok (next_char p)"
  using assms
  by (auto simp: cursor_ok_def advance_def Let_def take_Suc_conv_app_nth line_at_def col_at_def)

locale scan_op =
  fixes op :: "parser \<Rightarrow> parser"
  assumes input_kept: "p_input (op p) = p_input p"
    and forward: "p_pos p \<le> p_pos (op p)"
    and cursor_kept: "cursor_ok p \<Longrightarrow> cursor_ok (op p)"
begin

lemma rest_suffix: "\<exists>u. rest p = u @ rest (op p)"
proof -
  have "rest (op p) = drop (p_pos (op p) - p_pos p) (rest p)"
    using forward [of p] by (simp add: rest_def input_kept)
  then show ?thesis by (metis append_take_drop_id)
qed

lemma line_forward:
  assumes "cursor_ok p"
  shows "p_line p \<le> p_line (op p)"
proof -
  have "take (p_pos (op p)) (p_input p) =
      take (p_pos p) (p_input p) @ take (p_pos (op p) - p_pos p) (drop (p_pos p) (p_input p))"
    using forward [of p] by (metis le_add_diff_inverse take_add)
  then have "count_list (take (p_pos p) (p_input p)) LF \<le> count_list (take (p_pos (op p)) (p_input p)) LF"
    by (metis count_list_append le_add1)
  then show ?thesis
    using assms cursor_kept [OF assms] by (simp add: cursor_ok_def input_kept line_at_def)
qed

end

lemma skip_while_cursor_ok: "cursor_ok p \<Longrightarrow> cursor_ok (skip_while ok p)"
proof (induction ok p rule: skip_while.induct)
  case (1 ok p)
  then show ?case by (subst skip_while.simps) (simp add: cursor_ok_advance)
qed

interpretation sw: scan_op "skip_while ok" for ok
  by unfold_locales (simp_all add: skip_while_pos skip_while_cursor_ok)

lemma skipWhitespace_op:
  "p_input (skipWhitespace p) = p_input p \<and> p_pos p \<le> p_pos (skipWhitespace p) \<and>
   (cursor_ok p \<longrightarrow> cursor_ok (skipWhitespace p))"
proof (induction p rule: skipWhitespace.induct)
  case (1 p)
  show ?case
  proof (cases "p_pos p < length (p_input p)")
    case True
    then consider "peek p = CHR ''#''" | "peek p \<noteq> CHR ''#''" "is_blank (peek p)"
      | "peek p \<noteq> CHR ''#''" "\<not> is_blank (peek p)" by blast
    then show ?thesis
    proof cases
      case 1
      with "1.IH"(1) [OF True refl] True skip_while_pos [of p "\<lambda>c. c \<noteq> LF"] skip_while_cursor_ok
      show ?thesis by (subst (1 2 3) skipWhitespace.simps) (auto dest: order_trans)
    next
      case 2
      with "1.IH"(2) [OF True refl] True cursor_ok_advance
      show ?thesis by (subst (1 2 3) skipWhitespace.simps) (auto dest: Suc_leD)
    next
      case 3
      then show ?thesis by (subst (1 2 3) skipWhitespace.simps) simp
    qed
  next
    case False
    then show ?thesis by (subst (1 2 3) skipWhitespace.simps) simp
  qed
qed

interpretation ws: scan_op skipWhitespace
  by unfold_locales (use skipWhitespace_op in auto)

interpretation word: scan_op "\<lambda>p. snd (readWord p)"
proof unfold_locales
  fix p
  show "p_input (snd (readWord p)) = p_input p"
    by (simp add: readWord_def Let_def ws.input_kept)
  show "p_pos p \<le> p_pos (snd (readWord p))"
    using ws.forward [of p] skip_while_pos [of "skipWhitespace p" word_char]
    by (simp add: readWord_def Let_def)
  show "cursor_ok p \<Longrightarrow> cursor_ok (snd (readWord p))"
    by (simp add: readWord_def Let_def ws.cursor_kept skip_while_cursor_ok)
qed

interpretation line: scan_op "\<lambda>p. snd (readUntilNewline p)"
  by unfold_locales (simp_all add: readUntilNewline_def Let_def skip_while_pos skip_while_cursor_ok)

lemma quoted_loop_op:
  "p_input (snd (quoted_loop sb p)) = p_input p \<and> p_pos p \<le> p_pos (snd (quoted_loop sb p)) \<and>
   (cursor_ok p \<longrightarrow> cursor_ok (snd (quoted_loop sb p)))"
proof (induction "length (rest p)" arbitrary: sb p rule: less_induct)
  case less
  show ?case
  proof (cases "rest p")
    case Nil
    then show ?thesis by (simp add: quoted_loop_end)
  next
    case (Cons c cs)
    note r = rest_Cons [OF Cons]
    have esc: ?thesis if e: "c = BSL" "cs \<noteq> []"
    proof -
      obtain d ds where d: "rest (next_char p) = d # ds" using e r(4) by (cases cs) auto
      note r' = rest_Cons [OF d]
      have c2: "cursor_ok p \<Longrightarrow> cursor_ok (next_char (next_char p))"
        using r(1) r'(1) by (intro cursor_ok_advance)
      have "cs = d # ds" using d r(4) by simp
      then have "length (rest (next_char (next_char p))) < length (rest p)" using r'(4) Cons by simp
      from less [OF this, of "sb @ [hd cs]"] e c2 show ?thesis
        by (auto simp: quoted_loop_cons [OF Cons] dest: Suc_leD)
    qed
    have "length (rest (next_char p)) < length (rest p)" using r(4) Cons by simp
    from less [OF this, of "sb @ [c]"] esc show ?thesis
      by (auto simp: quoted_loop_cons [OF Cons] cursor_ok_advance r(1) dest: Suc_leD)
  qed
qed

interpretation quoted: scan_op "\<lambda>p. snd (quoted_loop sb p)" for sb
  by unfold_locales (use quoted_loop_op in auto)

end
