(* ===== verification/Config_Parser.thy ===== *)
theory Config_Parser
  imports Scanner
begin

text \<open>
  The recursive-descent parser of \<open>internal/config/parser.go\<close>.  Every block loop is a
  \<open>partial_function (option)\<close>: \<open>None\<close> is a loop that never returns, \<open>Some (Inl e)\<close> an error,
  \<open>Some (Inr (v, p))\<close> a value and the cursor after it.  \<open>PanicIndex\<close> is Go's index-out-of-range
  panic, which unwinds the parser as an error does.
\<close>

subsection \<open>Errors, and the bracket list\<close>

datatype perr =
    ExpectedGotEOF nat char
  | ExpectedGot nat char char
  | NeedsHostname nat
  | UnexpectedTopLevel nat string
  | EOFInSite
  | InvalidPort nat string
  | UnknownSiteDirective nat string
  | ApiCallNeedsRoute nat
  | McpStdio nat perr
  | UnknownTransport nat string
  | UnknownMcpDirective nat string
  | McpNeedsServer
  | McpAuthList nat string perr
  | UnknownMcpTier nat string
  | ExpectedQuote
  | UnterminatedString
  | InvalidMaxRedirects nat
  | AuthList nat string perr
  | PanicIndex
  | ReadingConfig

type_synonym 'a presult = "(perr + 'a \<times> parser) option"

definition expectByte :: "char \<Rightarrow> parser \<Rightarrow> perr + parser" where
  "expectByte expected p0 =
     (let p = skipWhitespace p0 in
      if length (p_input p) \<le> p_pos p then Inl (ExpectedGotEOF (p_line p) expected)
      else if peek p \<noteq> expected then Inl (ExpectedGot (p_line p) expected (peek p))
      else Inr (next_char p))"

partial_function (option) bracket_loop :: "string list \<Rightarrow> parser \<Rightarrow> (string list \<times> parser) option" where
  "bracket_loop items p0 =
     (let p = skipWhitespace p0 in
      if peek p = CHR '']'' then Some (items, next_char p)
      else
        let start = p_pos p;
            q = skip_while (\<lambda>c. c \<noteq> CHR '','' \<and> c \<noteq> CHR '']'') p;
            item = TrimSpace (slice (p_input q) start (p_pos q))
        in bracket_loop (if item \<noteq> [] then items @ [item] else items)
             (if peek q = CHR '','' then next_char q else q))"

text \<open>On an error the cursor is where it was; the callers put its line into their own error.\<close>

definition readBracketList :: "parser \<Rightarrow> ((perr + string list) \<times> parser) option" where
  "readBracketList p0 =
     (let p = skipWhitespace p0 in
      if peek p \<noteq> CHR ''['' then Some (Inl (ExpectedGot (p_line p) CHR ''['' (peek p)), p)
      else map_option (\<lambda>(items, q). (Inr items, q)) (bracket_loop [] (next_char p)))"

definition readQuotedString :: "parser \<Rightarrow> (perr + string) \<times> parser" where
  "readQuotedString p =
     (if length (p_input p) \<le> p_pos p \<or> peek p \<noteq> DQ then (Inl ExpectedQuote, p)
      else (case quoted_loop [] (next_char p) of
          (None, q) \<Rightarrow> (Inl UnterminatedString, q)
        | (Some s, q) \<Rightarrow> (Inr s, q)))"

definition parseBool :: "string \<Rightarrow> bool" where
  "parseBool s =
     (let w = ToLower (TrimSpace s) in w = ''true'' \<or> w = ''yes'' \<or> w = ''on'' \<or> w = ''1'')"

subsection \<open>Blocks\<close>

partial_function (option) commands_loop :: "CommandConfig list \<Rightarrow> parser \<Rightarrow> CommandConfig list presult" where
  "commands_loop cmds p0 =
     (let p = skipWhitespace p0 in
      if peek p = CHR ''}'' then Some (Inr (cmds, next_char p))
      else
        let cmdType = fst (readWord p); p1 = snd (readWord p);
            line = fst (readUntilNewline p1); p2 = snd (readUntilNewline p1)
        in if cmdType = ''receive-pack'' then
             commands_loop (cmds @ [\<lparr>cc_Type = ''receive-pack'', cc_Method = [], cc_Route = line\<rparr>]) p2
           else if cmdType = ''api-call'' then
             (let parts = Fields line in
              if length parts < 2 then Some (Inl (ApiCallNeedsRoute (p_line p2)))
              else commands_loop (cmds @ [\<lparr>cc_Type = ''api-call'', cc_Method = parts ! 0,
                     cc_Route = parts ! 1\<rparr>]) p2)
           else commands_loop (cmds @ [\<lparr>cc_Type = cmdType, cc_Method = [], cc_Route = line\<rparr>]) p2)"

text \<open>\<open>if err := p.expectByte('{')\<close> in front of a block.\<close>

definition in_block :: "(parser \<Rightarrow> 'a presult) \<Rightarrow> parser \<Rightarrow> 'a presult" where
  "in_block body p = (case expectByte CHR ''{'' p of Inl e \<Rightarrow> Some (Inl e) | Inr q \<Rightarrow> body q)"

definition parseCommands :: "parser \<Rightarrow> CommandConfig list presult" where
  "parseCommands = in_block (commands_loop [])"

fun feed_options :: "FeedConfig \<Rightarrow> string list \<Rightarrow> FeedConfig" where
  "feed_options feed [] = feed"
| "feed_options feed (part # parts) =
     feed_options (if HasPrefix part ''format='' then feed\<lparr>fc_Format := TrimPrefix part ''format=''\<rparr> else feed) parts"

fun allow_items :: "string list \<Rightarrow> string list" where
  "allow_items [] = []"
| "allow_items (raw # items) =
     (let item = Trim (TrimSpace raw) [DQ] in
      if item \<noteq> [] then item # allow_items items else allow_items items)"

fun robots_options :: "RobotsConfig \<Rightarrow> string list \<Rightarrow> RobotsConfig" where
  "robots_options r [] = r"
| "robots_options r (part # parts) =
     (let r1 = (if HasPrefix part ''crawl-delay=''
                then r\<lparr>CrawlDelay := fst (Atoi (TrimPrefix part ''crawl-delay=''))\<rparr> else r);
          r2 = (if HasPrefix part ''allow=''
                then r1\<lparr>AllowedPaths := AllowedPaths r1 @
                  allow_items (Split (Trim (TrimPrefix part ''allow='') ''[]'') CHR '','')\<rparr> else r1)
      in robots_options r2 parts)"

definition meta_directive :: "string \<Rightarrow> string \<Rightarrow> MetaConfig \<Rightarrow> perr + MetaConfig" where
  "meta_directive keyword line meta =
     (let parts = Fields line in
      if keyword = ''rss-feed'' then
        (case parts of
           [] \<Rightarrow> Inl PanicIndex
         | path # opts \<Rightarrow>
             Inr (meta\<lparr>Feeds := Feeds meta @ [feed_options \<lparr>fc_Path = path, fc_Format = []\<rparr> opts]\<rparr>))
      else if keyword = ''sitemap'' then
        (case parts of
           [] \<Rightarrow> Inl PanicIndex
         | path # opts \<Rightarrow>
             Inr (meta\<lparr>Sitemap := (Sitemap meta)\<lparr>sm_Path := path,
               sm_Dynamic := sm_Dynamic (Sitemap meta) \<or> ''dynamic=true'' \<in> set opts\<rparr>\<rparr>))
      else if keyword = ''robots'' then
        Inr (meta\<lparr>Robots := robots_options (Robots meta) parts\<rparr>)
      else Inr meta)"

partial_function (option) meta_loop :: "MetaConfig \<Rightarrow> parser \<Rightarrow> MetaConfig presult" where
  "meta_loop meta p0 =
     (let p = skipWhitespace p0 in
      if peek p = CHR ''}'' then Some (Inr (meta, next_char p))
      else
        let keyword = fst (readWord p); p1 = snd (readWord p);
            line = fst (readUntilNewline p1); p2 = snd (readUntilNewline p1)
        in (case meta_directive keyword line meta of
              Inl e \<Rightarrow> Some (Inl e)
            | Inr meta' \<Rightarrow> meta_loop meta' p2))"

definition parseMeta :: "parser \<Rightarrow> MetaConfig presult" where
  "parseMeta = in_block (meta_loop zero_MetaConfig)"

text \<open>The auth block of an mcp block rejects unknown tiers, the auth block of a site ignores them.\<close>

partial_function (option) mcp_auth_loop :: "MCPAuthConfig \<Rightarrow> parser \<Rightarrow> MCPAuthConfig presult" where
  "mcp_auth_loop auth p0 =
     (let p = skipWhitespace p0 in
      if peek p = CHR ''}'' then Some (Inr (auth, next_char p))
      else
        let tier = fst (readWord p); p1 = skipWhitespace (snd (readWord p)) in
        (case readBracketList p1 of
           None \<Rightarrow> None
         | Some (r, p2) \<Rightarrow>
             (case r of
                Inl e \<Rightarrow> Some (Inl (McpAuthList (p_line p2) tier e))
              | Inr items \<Rightarrow>
                  if tier = ''anonymous'' then mcp_auth_loop (auth\<lparr>ma_Anonymous := items\<rparr>) p2
                  else if tier = ''identified'' then mcp_auth_loop (auth\<lparr>ma_Identified := items\<rparr>) p2
                  else if tier = ''trusted'' then mcp_auth_loop (auth\<lparr>ma_Trusted := items\<rparr>) p2
                  else Some (Inl (UnknownMcpTier (p_line p2) tier)))))"

definition parseMCPAuth :: "parser \<Rightarrow> MCPAuthConfig presult" where
  "parseMCPAuth = in_block (mcp_auth_loop zero_MCPAuthConfig)"

text \<open>The \<open>server\<close> directive of an mcp block.\<close>

definition mcp_server :: "MCPConfig \<Rightarrow> parser \<Rightarrow> perr + MCPConfig \<times> parser" where
  "mcp_server mcp p =
     (let transport = fst (readWord p); p1 = snd (readWord p) in
      if transport = ''stdio'' then
        (let (r, p2) = readQuotedString (skipWhitespace p1) in
         case r of
           Inl e \<Rightarrow> Inl (McpStdio (p_line p2) e)
         | Inr cmd \<Rightarrow> Inr (mcp\<lparr>mc_Transport := ''stdio'', mc_Command := cmd\<rparr>, p2))
      else if transport = ''http'' then
        Inr (mcp\<lparr>mc_Transport := ''http'', mc_URL := fst (readWord p1)\<rparr>, snd (readWord p1))
      else Inl (UnknownTransport (p_line p1) transport))"

partial_function (option) mcp_loop :: "MCPConfig \<Rightarrow> parser \<Rightarrow> MCPConfig presult" where
  "mcp_loop mcp p0 =
     (let p = skipWhitespace p0 in
      if peek p = CHR ''}'' then
        (if mc_Transport mcp = [] then Some (Inl McpNeedsServer) else Some (Inr (mcp, next_char p)))
      else
        let keyword = fst (readWord p); p1 = snd (readWord p) in
        if keyword = ''server'' then
          (case mcp_server mcp p1 of
             Inl e \<Rightarrow> Some (Inl e)
           | Inr r \<Rightarrow> mcp_loop (fst r) (snd r))
        else if keyword = ''auth'' then
          (case parseMCPAuth p1 of
             None \<Rightarrow> None
           | Some (Inl e) \<Rightarrow> Some (Inl e)
           | Some (Inr r) \<Rightarrow> mcp_loop (mcp\<lparr>mc_Auth := fst r\<rparr>) (snd r))
        else Some (Inl (UnknownMcpDirective (p_line p1) keyword)))"

definition parseMCP :: "parser \<Rightarrow> MCPConfig presult" where
  "parseMCP = in_block (mcp_loop zero_MCPConfig)"


text \<open>One directive of a proxy-cache block, with the cursor behind its keyword.\<close>

definition proxy_directive :: "string \<Rightarrow> ProxyCacheConfig \<Rightarrow> parser \<Rightarrow> perr + ProxyCacheConfig \<times> parser" where
  "proxy_directive keyword pc p =
     (let val = fst (readWord p); q = snd (readWord p) in
      if keyword = ''allow'' then Inr (pc\<lparr>AllowedOrigins := AllowedOrigins pc @ [val]\<rparr>, q)
      else if keyword = ''deny'' then Inr (if val = ''*'' then pc\<lparr>DenyAll := True\<rparr> else pc, q)
      else if keyword = ''ttl'' then Inr (pc\<lparr>TTL := val\<rparr>, q)
      else if keyword = ''max-size'' then Inr (pc\<lparr>MaxSize := val\<rparr>, q)
      else if keyword = ''storage'' then Inr (pc\<lparr>StoragePath := val\<rparr>, q)
      else if keyword = ''max-redirects'' then
        (case Atoi val of (n, ok) \<Rightarrow>
           if \<not> ok then Inl (InvalidMaxRedirects (p_line q)) else Inr (pc\<lparr>MaxRedirects := n\<rparr>, q))
      else if keyword = ''allow-private-ips'' then Inr (pc\<lparr>AllowPrivateIPs := parseBool val\<rparr>, q)
      else if keyword = ''allow-redirects'' then Inr (pc\<lparr>AllowRedirects := Some (parseBool val)\<rparr>, q)
      else Inr (pc, snd (readUntilNewline p)))"

partial_function (option) proxy_loop :: "ProxyCacheConfig \<Rightarrow> parser \<Rightarrow> ProxyCacheConfig presult" where
  "proxy_loop pc p0 =
     (let p = skipWhitespace p0 in
      if peek p = CHR ''}'' then Some (Inr (pc, next_char p))
      else (case proxy_directive (fst (readWord p)) pc (snd (readWord p)) of
              Inl e \<Rightarrow> Some (Inl e)
            | Inr r \<Rightarrow> proxy_loop (fst r) (snd r)))"

definition parseProxyCache :: "parser \<Rightarrow> ProxyCacheConfig presult" where
  "parseProxyCache = in_block (proxy_loop zero_ProxyCacheConfig)"

partial_function (option) auth_loop :: "AuthConfig \<Rightarrow> parser \<Rightarrow> AuthConfig presult" where
  "auth_loop auth p0 =
     (let p = skipWhitespace p0 in
      if peek p = CHR ''}'' then Some (Inr (auth, next_char p))
      else
        let tier = fst (readWord p); p1 = skipWhitespace (snd (readWord p)) in
        (case readBracketList p1 of
           None \<Rightarrow> None
         | Some (r, p2) \<Rightarrow>
             (case r of
                Inl e \<Rightarrow> Some (Inl (AuthList (p_line p2) tier e))
              | Inr items \<Rightarrow>
                  if tier = ''anonymous'' then auth_loop (auth\<lparr>ac_Anonymous := items\<rparr>) p2
                  else if tier = ''identified'' then auth_loop (auth\<lparr>ac_Identified := items\<rparr>) p2
                  else if tier = ''trusted'' then auth_loop (auth\<lparr>ac_Trusted := items\<rparr>) p2
                  else auth_loop auth p2)))"

definition parseAuth :: "parser \<Rightarrow> AuthConfig presult" where
  "parseAuth = in_block (auth_loop zero_AuthConfig)"

partial_function (option) limits_loop :: "LimitsConfig \<Rightarrow> parser \<Rightarrow> LimitsConfig presult" where
  "limits_loop limits p0 =
     (let p = skipWhitespace p0 in
      if peek p = CHR ''}'' then Some (Inr (limits, next_char p))
      else
        let tier = fst (readWord p); p1 = snd (readWord p);
            val = fst (readWord p1); p2 = snd (readWord p1)
        in if tier = ''anonymous'' then limits_loop (limits\<lparr>lc_Anonymous := val\<rparr>) p2
           else if tier = ''identified'' then limits_loop (limits\<lparr>lc_Identified := val\<rparr>) p2
           else if tier = ''trusted'' then limits_loop (limits\<lparr>lc_Trusted := val\<rparr>) p2
           else limits_loop limits p2)"

definition parseLimits :: "parser \<Rightarrow> LimitsConfig presult" where
  "parseLimits = in_block (limits_loop zero_LimitsConfig)"

subsection \<open>Sites and the whole file\<close>

text \<open>Storing the result of a nested block, or passing its error on.\<close>

definition store_in :: "('a \<Rightarrow> SiteConfig) \<Rightarrow> 'a presult \<Rightarrow> SiteConfig presult" where
  "store_in f r = map_option (map_sum id (map_prod f id)) r"

definition site_directive :: "string \<Rightarrow> SiteConfig \<Rightarrow> parser \<Rightarrow> SiteConfig presult" where
  "site_directive keyword site p =
     (let val = fst (readWord p); q = snd (readWord p) in
      if keyword = ''port'' then
        (case Atoi val of (port, ok) \<Rightarrow>
           if \<not> ok then Some (Inl (InvalidPort (p_line q) val)) else Some (Inr (site\<lparr>Port := port\<rparr>, q)))
      else if keyword = ''host-key'' then Some (Inr (site\<lparr>HostKey := val\<rparr>, q))
      else if keyword = ''root'' then Some (Inr (site\<lparr>Root := val\<rparr>, q))
      else if keyword = ''backend'' then Some (Inr (site\<lparr>Backend := val\<rparr>, q))
      else if keyword = ''authorized-keys'' then Some (Inr (site\<lparr>AuthorizedKeysPath := val\<rparr>, q))
      else if keyword = ''commands'' then store_in (\<lambda>c. site\<lparr>Commands := c\<rparr>) (parseCommands p)
      else if keyword = ''meta'' then store_in (\<lambda>m. site\<lparr>Meta := m\<rparr>) (parseMeta p)
      else if keyword = ''mcp'' then store_in (\<lambda>m. site\<lparr>MCP := Some m\<rparr>) (parseMCP p)
      else if keyword = ''proxy-cache'' then store_in (\<lambda>c. site\<lparr>ProxyCache := c\<rparr>) (parseProxyCache p)
      else if keyword = ''auth'' then store_in (\<lambda>a. site\<lparr>Auth := a\<rparr>) (parseAuth p)
      else if keyword = ''limits'' then store_in (\<lambda>l. site\<lparr>Limits := l\<rparr>) (parseLimits p)
      else Some (Inl (UnknownSiteDirective (p_line p) keyword)))"

partial_function (option) site_loop :: "SiteConfig \<Rightarrow> parser \<Rightarrow> SiteConfig presult" where
  "site_loop site p0 =
     (let p = skipWhitespace p0 in
      if length (p_input p) \<le> p_pos p then Some (Inl EOFInSite)
      else if peek p = CHR ''}'' then Some (Inr (site, next_char p))
      else (case site_directive (fst (readWord p)) site (snd (readWord p)) of
              None \<Rightarrow> None
            | Some (Inl e) \<Rightarrow> Some (Inl e)
            | Some (Inr r) \<Rightarrow> site_loop (fst r) (snd r)))"

definition parseSite :: "parser \<Rightarrow> SiteConfig presult" where
  "parseSite p =
     (let host = fst (readWord p); q = snd (readWord p) in
      if host = [] then Some (Inl (NeedsHostname (p_line q)))
      else in_block (site_loop (zero_SiteConfig\<lparr>Host := host, Port := 22443\<rparr>)) q)"

partial_function (option) config_loop :: "SiteConfig list \<Rightarrow> parser \<Rightarrow> (perr + Config) option" where
  "config_loop sites p0 =
     (let p = skipWhitespace p0 in
      if length (p_input p) \<le> p_pos p then Some (Inr \<lparr>Sites = sites\<rparr>)
      else
        let keyword = fst (readWord p); q = snd (readWord p) in
        if keyword = ''site'' then
          (case parseSite q of
             None \<Rightarrow> None
           | Some (Inl e) \<Rightarrow> Some (Inl e)
           | Some (Inr r) \<Rightarrow> config_loop (sites @ [fst r]) (snd r))
        else Some (Inl (UnexpectedTopLevel (p_line q) keyword)))"

definition parseConfig :: "string \<Rightarrow> (perr + Config) option" where
  "parseConfig input = config_loop [] (newParser input)"

text \<open>\<open>Load\<close>: the file's bytes, or \<open>None\<close> when it cannot be read.\<close>

definition Load :: "(string \<Rightarrow> string option) \<Rightarrow> string \<Rightarrow> (perr + Config) option" where
  "Load read_file path =
     (case read_file path of None \<Rightarrow> Some (Inl ReadingConfig) | Some data \<Rightarrow> parseConfig data)"

end
