(* ===== verification/Config_Syntax.thy ===== *)
theory Config_Syntax
  imports Config_Parser
begin

text \<open>
  The configuration language as the parser reads it: a syntax tree of directives, its concrete
  text, and the configuration it denotes (\<open>eval_site\<close>), against which the parser is proved.
  The locale \<open>block_loop\<close> is the contract of all block loops: a directive's text is consumed and
  its effect applied, and a closing brace ends the block.
\<close>

subsection \<open>Reading what was printed\<close>

definition pword :: "string \<Rightarrow> bool" where
  "pword w \<longleftrightarrow> w \<noteq> [] \<and> list_all word_char w"

definition stops :: "string \<Rightarrow> bool" where
  "stops t \<longleftrightarrow> t = [] \<or> \<not> word_char (hd t)"

definition pline :: "string \<Rightarrow> bool" where
  "pline s \<longleftrightarrow> trimmed s \<and> LF \<notin> set s \<and> CHR ''#'' \<notin> set s"

definition pitem :: "string \<Rightarrow> bool" where
  "pitem x \<longleftrightarrow> x \<noteq> [] \<and> trimmed x \<and> CHR '','' \<notin> set x \<and> CHR '']'' \<notin> set x \<and> hd x \<noteq> CHR ''#''"

lemma stops_simps [simp]: "stops []" "stops (SPC # t)" "stops (LF # t)" "stops (CHR ''{'' # t)"
  by (simp_all add: stops_def word_char_def is_blank_def)

lemma ws_skip_id: "s = [] \<or> hd s \<noteq> CHR ''#'' \<and> \<not> is_blank (hd s) \<Longrightarrow> ws_skip s = s"
  by (cases s) auto

lemma is_blank_blanks [simp]: "is_blank SPC" "is_blank LF"
  by (simp_all add: is_blank_def)

lemma ws_skip_pword: "pword w \<Longrightarrow> ws_skip (w @ t) = w @ t"
  by (rule ws_skip_id) (cases w; auto simp: pword_def word_char_def)

lemma read_word:
  assumes "ws_skip (rest p) = w @ t" "pword w" "stops t"
  shows "fst (readWord p) = w" and "rest (snd (readWord p)) = t"
proof -
  have "takeWhile word_char t = []" "dropWhile word_char t = t"
    using assms(3) by (cases t; simp add: stops_def)+
  then show "fst (readWord p) = w" "rest (snd (readWord p)) = t"
    using assms(1,2) by (simp_all add: scan_rules pword_def list_all_iff takeWhile_all dropWhile_all)
qed

lemma read_line:
  assumes "rest p = SPC # r @ LF # s" "pline r"
  shows "fst (readUntilNewline p) = r" and "rest (snd (readUntilNewline p)) = LF # s"
proof -
  let ?P = "\<lambda>c. c \<noteq> LF \<and> c \<noteq> CHR ''#''"
  have P: "c \<in> set (SPC # r) \<Longrightarrow> ?P c" for c
    using assms(2) by (auto simp: pline_def)
  have "takeWhile ?P ((SPC # r) @ LF # s) = SPC # r" "dropWhile ?P ((SPC # r) @ LF # s) = LF # s"
    using takeWhile_all [of "SPC # r" ?P "LF # s"] dropWhile_all [of "SPC # r" ?P "LF # s"] P by auto
  then show "fst (readUntilNewline p) = r" "rest (snd (readUntilNewline p)) = LF # s"
    using assms by (simp_all add: scan_rules TrimSpace_space TrimSpace_trimmed pline_def)
qed

lemma peek_skip: "ws_skip (rest p) = c # s \<Longrightarrow> peek (skipWhitespace p) = c"
  by (simp add: peek_rest scan_rules)

lemma next_skip: "ws_skip (rest p) = c # s \<Longrightarrow> rest (next_char (skipWhitespace p)) = s"
  by (rule rest_Cons(4)) (simp add: scan_rules)

lemma inside: "ws_skip (rest p) = c # s \<Longrightarrow>
    \<not> length (p_input (skipWhitespace p)) \<le> p_pos (skipWhitespace p)"
  by (metis list.distinct(1) rest_Nil rest_skipWhitespace)

lemma in_block_open:
  assumes "ws_skip (rest p) = CHR ''{'' # s"
  obtains q where "in_block body p = body q" "rest q = s"
  using assms peek_skip [OF assms] next_skip [OF assms] inside [OF assms] that
  by (simp add: in_block_def expectByte_def Let_def)

lemma ws_skip_hd: "ws_skip s = c # t \<Longrightarrow> c \<noteq> CHR ''#'' \<and> \<not> is_blank c"
proof (induction s rule: ws_skip.induct)
  case (2 d ds)
  then show ?case by (auto split: if_splits)
qed simp

lemma skipWhitespace_idem [simp]: "skipWhitespace (skipWhitespace p) = skipWhitespace p"
proof (cases "ws_skip (rest p)")
  case Nil
  then show ?thesis by (simp add: skipWhitespace_step [of "skipWhitespace p"] scan_rules)
next
  case (Cons c t)
  with ws_skip_hd [OF this] show ?thesis
    by (simp add: skipWhitespace_step [of "skipWhitespace p"] scan_rules)
qed

lemma readWord_skip [simp]: "readWord (skipWhitespace p) = readWord p"
  by (simp add: readWord_def)


subsection \<open>The contract of block loops\<close>

definition lines_text :: "('d \<Rightarrow> string) \<Rightarrow> 'd list \<Rightarrow> string" where
  "lines_text text_of ds = concat (map (\<lambda>d. text_of d @ [LF]) ds)"

definition block_text :: "('d \<Rightarrow> string) \<Rightarrow> 'd list \<Rightarrow> string" where
  "block_text text_of ds = ''{'' @ [LF] @ lines_text text_of ds @ ''}''"

locale block_loop =
  fixes loop :: "'c \<Rightarrow> parser \<Rightarrow> 'c presult"
    and text_of :: "'d \<Rightarrow> string"
    and effect :: "'d \<Rightarrow> 'c \<Rightarrow> 'c"
    and valid :: "'d \<Rightarrow> bool"
    and closable :: "'c \<Rightarrow> bool"
  assumes close: "closable c \<Longrightarrow> ws_skip (rest p) = CHR ''}'' # s \<Longrightarrow>
      \<exists>q. loop c p = Some (Inr (c, q)) \<and> rest q = s"
    and step: "valid d \<Longrightarrow> ws_skip (rest p) = ws_skip (text_of d @ LF # s) \<Longrightarrow>
      \<exists>q. loop c p = loop (effect d c) q \<and> ws_skip (rest q) = ws_skip s"
begin

text \<open>A sequence of directives is consumed whatever follows it.\<close>

lemma directives:
  assumes "list_all valid ds" "ws_skip (rest p) = ws_skip (lines_text text_of ds @ s)"
  shows "\<exists>q. loop c p = loop (fold effect ds c) q \<and> ws_skip (rest q) = ws_skip s"
  using assms
proof (induction ds arbitrary: c p)
  case Nil
  then show ?case by (auto simp: lines_text_def)
next
  case (Cons d ds)
  then obtain q where "loop c p = loop (effect d c) q" "ws_skip (rest q) = ws_skip (lines_text text_of ds @ s)"
    using step [of d p "lines_text text_of ds @ s" c] by (auto simp: lines_text_def)
  with Cons.IH [of q "effect d c"] Cons.prems show ?case by simp
qed

lemma run:
  assumes "list_all valid ds" "closable (fold effect ds c)"
    and "ws_skip (rest p) = ws_skip (lines_text text_of ds @ CHR ''}'' # s)"
  shows "\<exists>q. loop c p = Some (Inr (fold effect ds c, q)) \<and> rest q = s"
proof -
  obtain q where "loop c p = loop (fold effect ds c) q" "ws_skip (rest q) = CHR ''}'' # s"
    using directives [OF assms(1,3)] by auto
  with close [OF assms(2), of q s] show ?thesis by simp
qed

lemma block:
  assumes "list_all valid ds" "closable (fold effect ds c)"
    and "ws_skip (rest p) = block_text text_of ds @ s"
  shows "\<exists>q. in_block (loop c) p = Some (Inr (fold effect ds c, q)) \<and> rest q = s"
proof -
  have "ws_skip (rest p) = CHR ''{'' # LF # lines_text text_of ds @ CHR ''}'' # s"
    using assms(3) by (simp add: block_text_def)
  then obtain q where "in_block (loop c) p = loop c q" "rest q = LF # lines_text text_of ds @ CHR ''}'' # s"
    by (rule in_block_open)
  with run [OF assms(1,2), of q s] show ?thesis by simp
qed

end

subsection \<open>Limits\<close>

datatype limit_dir = LimitDir (ld_tier: string) (ld_val: string)

fun limit_text :: "limit_dir \<Rightarrow> string" where
  "limit_text (LimitDir t v) = t @ SPC # v"

fun limit_effect :: "limit_dir \<Rightarrow> LimitsConfig \<Rightarrow> LimitsConfig" where
  "limit_effect (LimitDir t v) l =
     (if t = ''anonymous'' then l\<lparr>lc_Anonymous := v\<rparr>
      else if t = ''identified'' then l\<lparr>lc_Identified := v\<rparr>
      else if t = ''trusted'' then l\<lparr>lc_Trusted := v\<rparr> else l)"

fun limit_valid :: "limit_dir \<Rightarrow> bool" where
  "limit_valid (LimitDir t v) = (pword t \<and> pword v)"

lemma peek_word:
  assumes "ws_skip (rest p) = w @ t" "pword w"
  shows "peek (skipWhitespace p) \<noteq> CHR ''}''"
proof -
  obtain c v where "w = c # v" "word_char c" using assms(2) by (cases w) (auto simp: pword_def)
  with assms(1) show ?thesis by (auto simp: peek_skip word_char_def)
qed

interpretation limits: block_loop limits_loop limit_text limit_effect limit_valid "\<lambda>_. True"
proof unfold_locales
  fix c p s
  assume "ws_skip (rest p) = CHR ''}'' # s"
  then show "\<exists>q. limits_loop c p = Some (Inr (c, q)) \<and> rest q = s"
    by (subst limits_loop.simps) (simp add: Let_def peek_skip next_skip)
next
  fix d p s and c :: LimitsConfig
  assume "limit_valid d" and p: "ws_skip (rest p) = ws_skip (limit_text d @ LF # s)"
  then obtain t v where d: "d = LimitDir t v" and w: "pword t" "pword v" by (cases d) auto
  have r: "ws_skip (rest p) = t @ SPC # v @ LF # s" using p w by (simp add: d ws_skip_pword)
  note k = read_word [OF r w(1) stops_simps(2)]
  have r2: "ws_skip (rest (snd (readWord p))) = v @ LF # s" using k(2) w by (simp add: ws_skip_pword)
  note k2 = read_word [OF r2 w(2) stops_simps(3)]
  let ?q = "snd (readWord (snd (readWord p)))"
  have "limits_loop c p = limits_loop (limit_effect d c) ?q"
    using peek_word [OF r w(1)] k(1) k2(1)
    by (subst limits_loop.simps) (simp add: Let_def d)
  then show "\<exists>q. limits_loop c p = limits_loop (limit_effect d c) q \<and> ws_skip (rest q) = ws_skip s"
    using k2(2) by (intro exI [of _ ?q]) simp
qed


subsection \<open>Commands\<close>

datatype command_dir = ApiCall string string | Command string string

fun command_text :: "command_dir \<Rightarrow> string" where
  "command_text (ApiCall m r) = ''api-call'' @ SPC # m @ SPC # r"
| "command_text (Command t r) = t @ SPC # r"

fun command_of :: "command_dir \<Rightarrow> CommandConfig" where
  "command_of (ApiCall m r) = \<lparr>cc_Type = ''api-call'', cc_Method = m, cc_Route = r\<rparr>"
| "command_of (Command t r) = \<lparr>cc_Type = t, cc_Method = [], cc_Route = r\<rparr>"

definition command_effect :: "command_dir \<Rightarrow> CommandConfig list \<Rightarrow> CommandConfig list" where
  "command_effect d cs = cs @ [command_of d]"

fun command_valid :: "command_dir \<Rightarrow> bool" where
  "command_valid (ApiCall m r) = (is_word m \<and> is_word r \<and> CHR ''#'' \<notin> set m \<and> CHR ''#'' \<notin> set r)"
| "command_valid (Command t r) = (pword t \<and> t \<noteq> ''api-call'' \<and> pline r)"

lemma is_word_no_LF: "is_word w \<Longrightarrow> LF \<notin> set w"
  using no_space_member [of w LF] by (auto simp: is_word_def is_space_def)

text \<open>Words joined by single blanks make a line that splits into the same words.\<close>

lemma Join_set: "c \<in> set (Join ws '' '') \<Longrightarrow> c = SPC \<or> (\<exists>w \<in> set ws. c \<in> set w)"
  by (induction ws "'' ''" rule: Join.induct) auto

lemma Join_trimmed:
  "list_all is_word ws \<Longrightarrow> ws \<noteq> [] \<Longrightarrow> Join ws '' '' \<noteq> [] \<and> trimmed (Join ws '' '')"
proof (induction ws "'' ''" rule: Join.induct)
  case (3 w v ws)
  then have "Join (v # ws) '' '' \<noteq> []" "trimmed (Join (v # ws) '' '')" "trimmed w" "w \<noteq> []"
    by (simp_all add: is_word_trimmed) (simp add: is_word_def)
  then show ?case using trimmed_append [of w "Join (v # ws) '' ''" SPC] by simp
qed (auto simp: is_word_trimmed is_word_def)

lemma pline_Join:
  assumes "list_all is_word ws" "\<And>w. w \<in> set ws \<Longrightarrow> CHR ''#'' \<notin> set w"
  shows "pline (Join ws '' '')"
proof (cases "ws = []")
  case False
  have "trimmed (Join ws '' '')" using Join_trimmed [OF assms(1) False] by simp
  moreover have "LF \<notin> set (Join ws '' '')" "CHR ''#'' \<notin> set (Join ws '' '')"
    using assms Join_set is_word_no_LF by (fastforce simp: list_all_iff)+
  ultimately show ?thesis by (simp add: pline_def)
qed (simp add: pline_def)

lemma pword_lit: "pword ''api-call''"
  by (simp add: pword_def word_char_def is_blank_def)

text \<open>A keyword followed by the rest of its line.\<close>

lemma read_word_line:
  assumes "ws_skip (rest p) = ws_skip ((w @ SPC # r) @ LF # s)" "pword w" "pline r"
  shows "fst (readWord p) = w" "fst (readUntilNewline (snd (readWord p))) = r"
    "rest (snd (readUntilNewline (snd (readWord p)))) = LF # s" "peek (skipWhitespace p) \<noteq> CHR ''}''"
proof -
  have r: "ws_skip (rest p) = w @ SPC # r @ LF # s" using assms by (simp add: ws_skip_pword)
  note k = read_word [OF r assms(2) stops_simps(2)]
  show "fst (readWord p) = w" by (rule k)
  show "peek (skipWhitespace p) \<noteq> CHR ''}''" by (rule peek_word [OF r assms(2)])
  show "fst (readUntilNewline (snd (readWord p))) = r"
    "rest (snd (readUntilNewline (snd (readWord p)))) = LF # s"
    using read_line [OF k(2) assms(3)] by simp_all
qed

interpretation commands: block_loop commands_loop command_text command_effect command_valid "\<lambda>_. True"
proof unfold_locales
  fix c p s
  assume "ws_skip (rest p) = CHR ''}'' # s"
  then show "\<exists>q. commands_loop c p = Some (Inr (c, q)) \<and> rest q = s"
    by (subst commands_loop.simps) (simp add: Let_def peek_skip next_skip)
next
  fix d p s c
  assume v: "command_valid d" and p: "ws_skip (rest p) = ws_skip (command_text d @ LF # s)"
  let ?q = "snd (readUntilNewline (snd (readWord p)))"
  have "commands_loop c p = commands_loop (command_effect d c) ?q \<and> rest ?q = LF # s"
  proof (cases d)
    case (ApiCall m r)
    have l: "pline (m @ SPC # r)" and f: "Fields (m @ SPC # r) = [m, r]"
      using pline_Join [of "[m, r]"] Fields_Join [of "[m, r]"] v ApiCall by auto
    have "ws_skip (rest p) = ws_skip ((''api-call'' @ SPC # m @ SPC # r) @ LF # s)"
      using p by (simp add: ApiCall)
    note k = read_word_line [OF this pword_lit l]
    show ?thesis
      using k f by (subst commands_loop.simps) (simp add: Let_def ApiCall command_effect_def)
  next
    case (Command t r)
    with v p have "ws_skip (rest p) = ws_skip ((t @ SPC # r) @ LF # s)" "pword t" "pline r" by simp_all
    note k = read_word_line [OF this]
    show ?thesis
      using k v by (subst commands_loop.simps) (simp add: Let_def Command command_effect_def)
  qed
  then show "\<exists>q. commands_loop c p = commands_loop (command_effect d c) q \<and> ws_skip (rest q) = ws_skip s"
    by (intro exI [of _ ?q]) simp
qed

subsection \<open>Discovery metadata\<close>

datatype meta_dir = Feed string "string list" | SitemapAt string "string list" | RobotsOpts "string list"

fun meta_text :: "meta_dir \<Rightarrow> string" where
  "meta_text (Feed path opts) = ''rss-feed'' @ SPC # Join (path # opts) '' ''"
| "meta_text (SitemapAt path opts) = ''sitemap'' @ SPC # Join (path # opts) '' ''"
| "meta_text (RobotsOpts opts) = ''robots'' @ SPC # Join opts '' ''"

fun meta_effect :: "meta_dir \<Rightarrow> MetaConfig \<Rightarrow> MetaConfig" where
  "meta_effect (Feed path opts) m =
     m\<lparr>Feeds := Feeds m @ [feed_options \<lparr>fc_Path = path, fc_Format = []\<rparr> opts]\<rparr>"
| "meta_effect (SitemapAt path opts) m =
     m\<lparr>Sitemap := (Sitemap m)\<lparr>sm_Path := path,
       sm_Dynamic := sm_Dynamic (Sitemap m) \<or> ''dynamic=true'' \<in> set opts\<rparr>\<rparr>"
| "meta_effect (RobotsOpts opts) m = m\<lparr>Robots := robots_options (Robots m) opts\<rparr>"

definition option_words :: "string list \<Rightarrow> bool" where
  "option_words ws \<longleftrightarrow> list_all (\<lambda>w. is_word w \<and> CHR ''#'' \<notin> set w) ws"

fun meta_valid :: "meta_dir \<Rightarrow> bool" where
  "meta_valid (Feed path opts) = option_words (path # opts)"
| "meta_valid (SitemapAt path opts) = option_words (path # opts)"
| "meta_valid (RobotsOpts opts) = option_words opts"

lemma option_words_line:
  assumes "option_words ws"
  shows "pline (Join ws '' '')" and "Fields (Join ws '' '') = ws"
proof -
  have w: "list_all is_word ws" "\<And>w. w \<in> set ws \<Longrightarrow> CHR ''#'' \<notin> set w"
    using assms by (auto simp: option_words_def list_all_iff)
  show "pline (Join ws '' '')" by (rule pline_Join [OF w])
  show "Fields (Join ws '' '') = ws" by (rule Fields_Join [OF w(1)])
qed

lemma meta_keywords: "pword ''rss-feed''" "pword ''sitemap''" "pword ''robots''"
  by (simp_all add: pword_def word_char_def is_blank_def)

interpretation meta: block_loop meta_loop meta_text meta_effect meta_valid "\<lambda>_. True"
proof unfold_locales
  fix c p s
  assume "ws_skip (rest p) = CHR ''}'' # s"
  then show "\<exists>q. meta_loop c p = Some (Inr (c, q)) \<and> rest q = s"
    by (subst meta_loop.simps) (simp add: Let_def peek_skip next_skip)
next
  fix d p s c
  assume v: "meta_valid d" and p: "ws_skip (rest p) = ws_skip (meta_text d @ LF # s)"
  obtain kw ws where d: "meta_text d = kw @ SPC # Join ws '' ''" "pword kw" "option_words ws"
    and e: "meta_directive kw (Join ws '' '') c = Inr (meta_effect d c)"
  proof (cases d)
    case (Feed path opts)
    with v that [of "''rss-feed''" "path # opts"] show ?thesis
      by (simp add: meta_keywords meta_directive_def option_words_line Let_def)
  next
    case (SitemapAt path opts)
    with v that [of "''sitemap''" "path # opts"] show ?thesis
      by (simp add: meta_keywords meta_directive_def option_words_line Let_def)
  next
    case (RobotsOpts opts)
    with v that [of "''robots''" opts] show ?thesis
      by (simp add: meta_keywords meta_directive_def option_words_line Let_def)
  qed
  note k = read_word_line [OF p [unfolded d(1)] d(2) option_words_line(1) [OF d(3)]]
  let ?q = "snd (readUntilNewline (snd (readWord p)))"
  have "meta_loop c p = meta_loop (meta_effect d c) ?q"
    using k e by (subst meta_loop.simps) (simp add: Let_def)
  then show "\<exists>q. meta_loop c p = meta_loop (meta_effect d c) q \<and> ws_skip (rest q) = ws_skip s"
    using k(3) by (intro exI [of _ ?q]) simp
qed


subsection \<open>The proxy cache\<close>

datatype proxy_dir = AllowOrigin string | Deny string | Ttl string | Max_Size string | Storage string
  | Max_Redirects int | Allow_Private string | Allow_Redirects string

fun proxy_words :: "proxy_dir \<Rightarrow> string \<times> string" where
  "proxy_words (AllowOrigin w) = (''allow'', w)"
| "proxy_words (Deny w) = (''deny'', w)"
| "proxy_words (Ttl w) = (''ttl'', w)"
| "proxy_words (Max_Size w) = (''max-size'', w)"
| "proxy_words (Storage w) = (''storage'', w)"
| "proxy_words (Max_Redirects n) = (''max-redirects'', show_int n)"
| "proxy_words (Allow_Private w) = (''allow-private-ips'', w)"
| "proxy_words (Allow_Redirects w) = (''allow-redirects'', w)"

definition proxy_text :: "proxy_dir \<Rightarrow> string" where
  "proxy_text d = fst (proxy_words d) @ SPC # snd (proxy_words d)"

fun proxy_effect :: "proxy_dir \<Rightarrow> ProxyCacheConfig \<Rightarrow> ProxyCacheConfig" where
  "proxy_effect (AllowOrigin w) c = c\<lparr>AllowedOrigins := AllowedOrigins c @ [w]\<rparr>"
| "proxy_effect (Deny w) c = (if w = ''*'' then c\<lparr>DenyAll := True\<rparr> else c)"
| "proxy_effect (Ttl w) c = c\<lparr>TTL := w\<rparr>"
| "proxy_effect (Max_Size w) c = c\<lparr>MaxSize := w\<rparr>"
| "proxy_effect (Storage w) c = c\<lparr>StoragePath := w\<rparr>"
| "proxy_effect (Max_Redirects n) c = c\<lparr>MaxRedirects := n\<rparr>"
| "proxy_effect (Allow_Private w) c = c\<lparr>AllowPrivateIPs := parseBool w\<rparr>"
| "proxy_effect (Allow_Redirects w) c = c\<lparr>AllowRedirects := Some (parseBool w)\<rparr>"

fun proxy_valid :: "proxy_dir \<Rightarrow> bool" where
  "proxy_valid (Max_Redirects n) = (min_int64 \<le> n \<and> n \<le> max_int64)"
| "proxy_valid d = pword (snd (proxy_words d))"

lemma digit_word_char: "is_digit c \<Longrightarrow> word_char c"
  by (auto simp: is_digit_def word_char_def is_blank_def)

lemma pword_show_int: "pword (show_int n)"
proof -
  have "word_char CHR ''-''" by (simp add: word_char_def is_blank_def)
  moreover have "list_all word_char (show_nat m)" for m
    using show_nat_digits [of m] digit_word_char by (auto simp: list_all_iff)
  ultimately show ?thesis by (simp add: pword_def show_int_def)
qed

text \<open>A keyword followed by one word.\<close>

lemma read_two_words:
  assumes "ws_skip (rest p) = ws_skip ((w @ SPC # v) @ LF # s)" "pword w" "pword v"
  shows "fst (readWord p) = w" "fst (readWord (snd (readWord p))) = v"
    "rest (snd (readWord (snd (readWord p)))) = LF # s" "peek (skipWhitespace p) \<noteq> CHR ''}''"
proof -
  have r: "ws_skip (rest p) = w @ SPC # v @ LF # s" using assms by (simp add: ws_skip_pword)
  note k = read_word [OF r assms(2) stops_simps(2)]
  have r2: "ws_skip (rest (snd (readWord p))) = v @ LF # s" using k(2) assms(3) by (simp add: ws_skip_pword)
  show "fst (readWord p) = w" by (rule k)
  show "peek (skipWhitespace p) \<noteq> CHR ''}''" by (rule peek_word [OF r assms(2)])
  show "fst (readWord (snd (readWord p))) = v" "rest (snd (readWord (snd (readWord p)))) = LF # s"
    using read_word [OF r2 assms(3) stops_simps(3)] by simp_all
qed

lemma proxy_keyword: "pword (fst (proxy_words d))"
  by (cases d) (simp_all add: pword_def word_char_def is_blank_def)

lemma proxy_value: "proxy_valid d \<Longrightarrow> pword (snd (proxy_words d))"
  by (cases d) (simp_all add: pword_show_int)

lemma proxy_directive_effect:
  assumes "proxy_valid d" "fst (readWord p) = snd (proxy_words d)"
  shows "proxy_directive (fst (proxy_words d)) c p = Inr (proxy_effect d c, snd (readWord p))"
  using assms by (cases d) (simp_all add: proxy_directive_def Let_def Atoi_show_int)

interpretation proxy: block_loop proxy_loop proxy_text proxy_effect proxy_valid "\<lambda>_. True"
proof unfold_locales
  fix c p s
  assume "ws_skip (rest p) = CHR ''}'' # s"
  then show "\<exists>q. proxy_loop c p = Some (Inr (c, q)) \<and> rest q = s"
    by (subst proxy_loop.simps) (simp add: Let_def peek_skip next_skip)
next
  fix d p s c
  assume v: "proxy_valid d" and p: "ws_skip (rest p) = ws_skip (proxy_text d @ LF # s)"
  note k = read_two_words [OF p [unfolded proxy_text_def] proxy_keyword proxy_value [OF v]]
  let ?q = "snd (readWord (snd (readWord p)))"
  have "proxy_loop c p = proxy_loop (proxy_effect d c) ?q"
    using k proxy_directive_effect [OF v k(2), of c] by (subst proxy_loop.simps) (simp add: Let_def)
  then show "\<exists>q. proxy_loop c p = proxy_loop (proxy_effect d c) q \<and> ws_skip (rest q) = ws_skip s"
    using k(3) by (intro exI [of _ ?q]) simp
qed

subsection \<open>Bracket lists and the auth blocks\<close>

definition list_text :: "string list \<Rightarrow> string" where
  "list_text items = ''['' @ Join items '', '' @ '']''"

lemma bracket_close:
  "ws_skip (rest p) = CHR '']'' # s \<Longrightarrow> \<exists>q. bracket_loop items p = Some (items, q) \<and> rest q = s"
  by (subst bracket_loop.simps) (simp add: Let_def peek_skip next_skip)

lemma bracket_item:
  assumes "ws_skip (rest p) = x @ c # s" "pitem x" "c = CHR '','' \<or> c = CHR '']''"
  shows "\<exists>q. bracket_loop items p = bracket_loop (items @ [x]) q \<and>
    rest q = (if c = CHR '','' then s else c # s)"
proof -
  let ?P = "\<lambda>c. c \<noteq> CHR '','' \<and> c \<noteq> CHR '']''" and ?p = "skipWhitespace p"
  let ?q = "skip_while ?P ?p"
  have P: "d \<in> set x \<Longrightarrow> ?P d" for d using assms(2) by (auto simp: pitem_def)
  have tw: "takeWhile ?P (x @ c # s) = x" "dropWhile ?P (x @ c # s) = c # s"
    using takeWhile_all [of x ?P "c # s"] dropWhile_all [of x ?P "c # s"] P assms(3) by auto
  have q: "rest ?q = c # s" using tw by (simp add: rest_skip_while scan_rules assms(1))
  have sl: "slice (p_input ?p) (p_pos ?p) (p_pos ?q) = x"
    using slice_skip_while [of ?p ?P] tw by (simp add: scan_rules assms(1))
  obtain d y where x: "x = d # y" "d \<noteq> CHR '']''" using assms(2) by (cases x) (auto simp: pitem_def)
  then have pk: "peek ?p \<noteq> CHR '']''" using peek_skip [of p d "y @ c # s"] assms(1) by simp
  have "TrimSpace x = x" using assms(2) by (simp add: pitem_def TrimSpace_trimmed)
  then have "bracket_loop items p = bracket_loop (items @ [x]) (if c = CHR '','' then next_char ?q else ?q)"
    using pk sl x rest_Cons(2) [OF q] by (subst bracket_loop.simps) (simp add: Let_def)
  moreover have "rest (if c = CHR '','' then next_char ?q else ?q) = (if c = CHR '','' then s else c # s)"
    using q rest_Cons(4) [OF q] by simp
  ultimately show ?thesis by blast
qed

lemma ws_skip_pitem: "pitem x \<Longrightarrow> ws_skip (x @ s) = x @ s"
  by (rule ws_skip_id) (cases x; auto simp: pitem_def trimmed_def is_blank_def is_space_def)

lemma bracket_items:
  "list_all pitem xs \<Longrightarrow> ws_skip (rest p) = ws_skip (Join xs '', '' @ CHR '']'' # s) \<Longrightarrow>
     \<exists>q. bracket_loop items p = Some (items @ xs, q) \<and> rest q = s"
proof (induction xs "'', ''" arbitrary: p items rule: Join.induct)
  case 1
  then show ?case using bracket_close [of p s items] by simp
next
  case (2 x)
  then obtain q where "bracket_loop items p = bracket_loop (items @ [x]) q" "rest q = CHR '']'' # s"
    using bracket_item [of p x "CHR '']''" s items] by (auto simp: ws_skip_pitem)
  with bracket_close [of q s "items @ [x]"] show ?case by simp
next
  case (3 x y ys)
  then obtain q where q: "bracket_loop items p = bracket_loop (items @ [x]) q"
    "rest q = SPC # Join (y # ys) '', '' @ CHR '']'' # s"
    using bracket_item [of p x "CHR '',''" "SPC # Join (y # ys) '', '' @ CHR '']'' # s" items]
    by (auto simp: ws_skip_pitem)
  with 3(1) [of q "items @ [x]"] 3(2) show ?case by simp
qed

lemma read_list:
  assumes "ws_skip (rest p) = list_text xs @ s" "list_all pitem xs"
  obtains q where "readBracketList p = Some (Inr xs, q)" "rest q = s"
proof -
  have r: "ws_skip (rest p) = CHR ''['' # Join xs '', '' @ CHR '']'' # s"
    using assms(1) by (simp add: list_text_def)
  obtain q where "bracket_loop [] (next_char (skipWhitespace p)) = Some (xs, q)" "rest q = s"
    using bracket_items [OF assms(2), of "next_char (skipWhitespace p)" s "[]"] next_skip [OF r] by auto
  with that peek_skip [OF r] show ?thesis by (simp add: readBracketList_def Let_def)
qed

datatype auth_dir = AuthDir (ad_tier: string) (ad_items: "string list")

fun auth_text :: "auth_dir \<Rightarrow> string" where
  "auth_text (AuthDir t xs) = t @ SPC # list_text xs"

fun auth_effect :: "auth_dir \<Rightarrow> AuthConfig \<Rightarrow> AuthConfig" where
  "auth_effect (AuthDir t xs) a =
     (if t = ''anonymous'' then a\<lparr>ac_Anonymous := xs\<rparr>
      else if t = ''identified'' then a\<lparr>ac_Identified := xs\<rparr>
      else if t = ''trusted'' then a\<lparr>ac_Trusted := xs\<rparr> else a)"

fun auth_valid :: "auth_dir \<Rightarrow> bool" where
  "auth_valid (AuthDir t xs) = (pword t \<and> list_all pitem xs)"

fun mcp_auth_effect :: "auth_dir \<Rightarrow> MCPAuthConfig \<Rightarrow> MCPAuthConfig" where
  "mcp_auth_effect (AuthDir t xs) a =
     (if t = ''anonymous'' then a\<lparr>ma_Anonymous := xs\<rparr>
      else if t = ''identified'' then a\<lparr>ma_Identified := xs\<rparr>
      else a\<lparr>ma_Trusted := xs\<rparr>)"

definition mcp_auth_valid :: "auth_dir \<Rightarrow> bool" where
  "mcp_auth_valid d \<longleftrightarrow> auth_valid d \<and> ad_tier d \<in> {''anonymous'', ''identified'', ''trusted''}"

text \<open>A tier and its list: what both auth loops read.\<close>

lemma read_tier_list:
  assumes "ws_skip (rest p) = ws_skip ((t @ SPC # list_text xs) @ LF # s)" "pword t" "list_all pitem xs"
  obtains q where "fst (readWord p) = t" "peek (skipWhitespace p) \<noteq> CHR ''}''"
    "readBracketList (skipWhitespace (snd (readWord p))) = Some (Inr xs, q)" "rest q = LF # s"
proof -
  have r: "ws_skip (rest p) = t @ SPC # list_text xs @ LF # s" using assms by (simp add: ws_skip_pword)
  note k = read_word [OF r assms(2) stops_simps(2)]
  have r2: "ws_skip (rest (skipWhitespace (snd (readWord p)))) = list_text xs @ LF # s"
    using k(2) by (simp add: scan_rules list_text_def)
  obtain q where "readBracketList (skipWhitespace (snd (readWord p))) = Some (Inr xs, q)" "rest q = LF # s"
    by (rule read_list [OF r2 assms(3)])
  with k(1) peek_word [OF r assms(2)] that show ?thesis by blast
qed

interpretation site_auth: block_loop auth_loop auth_text auth_effect auth_valid "\<lambda>_. True"
proof unfold_locales
  fix c p s
  assume "ws_skip (rest p) = CHR ''}'' # s"
  then show "\<exists>q. auth_loop c p = Some (Inr (c, q)) \<and> rest q = s"
    by (subst auth_loop.simps) (simp add: Let_def peek_skip next_skip)
next
  fix d p s c
  assume v: "auth_valid d" and p: "ws_skip (rest p) = ws_skip (auth_text d @ LF # s)"
  obtain t xs where d: "d = AuthDir t xs" "pword t" "list_all pitem xs" using v by (cases d) auto
  obtain q where q: "fst (readWord p) = t" "peek (skipWhitespace p) \<noteq> CHR ''}''"
    "readBracketList (skipWhitespace (snd (readWord p))) = Some (Inr xs, q)" "rest q = LF # s"
    by (rule read_tier_list [OF p [unfolded d(1) auth_text.simps] d(2,3)])
  have "auth_loop c p = auth_loop (auth_effect d c) q"
    using q d(1) by (subst auth_loop.simps) (simp add: Let_def)
  then show "\<exists>q. auth_loop c p = auth_loop (auth_effect d c) q \<and> ws_skip (rest q) = ws_skip s"
    using q(4) by (intro exI [of _ q]) simp
qed

interpretation mcp_auth: block_loop mcp_auth_loop auth_text mcp_auth_effect mcp_auth_valid "\<lambda>_. True"
proof unfold_locales
  fix c p s
  assume "ws_skip (rest p) = CHR ''}'' # s"
  then show "\<exists>q. mcp_auth_loop c p = Some (Inr (c, q)) \<and> rest q = s"
    by (subst mcp_auth_loop.simps) (simp add: Let_def peek_skip next_skip)
next
  fix d p s c
  assume v: "mcp_auth_valid d" and p: "ws_skip (rest p) = ws_skip (auth_text d @ LF # s)"
  obtain t xs where d: "d = AuthDir t xs" "pword t" "list_all pitem xs"
    "t \<in> {''anonymous'', ''identified'', ''trusted''}" using v by (cases d) (auto simp: mcp_auth_valid_def)
  obtain q where q: "fst (readWord p) = t" "peek (skipWhitespace p) \<noteq> CHR ''}''"
    "readBracketList (skipWhitespace (snd (readWord p))) = Some (Inr xs, q)" "rest q = LF # s"
    by (rule read_tier_list [OF p [unfolded d(1) auth_text.simps] d(2,3)])
  have "mcp_auth_loop c p = mcp_auth_loop (mcp_auth_effect d c) q"
    using q d(1,4) by (subst mcp_auth_loop.simps) (auto simp: Let_def)
  then show "\<exists>q. mcp_auth_loop c p = mcp_auth_loop (mcp_auth_effect d c) q \<and> ws_skip (rest q) = ws_skip s"
    using q(4) by (intro exI [of _ q]) simp
qed

end
