(* ===== verification/Config_Roundtrip.thy ===== *)
theory Config_Roundtrip
  imports Config_Syntax
begin

text \<open>
  The upper layers of the configuration language: the \<open>mcp\<close> block with its quoted command, the
  site block with the blocks nested in it, and the file.  \<open>config_text\<close> prints a syntax tree,
  \<open>config_value\<close> is the configuration it stands for, and \<open>parseConfig\<close> is proved to take the one
  to the other.
\<close>

subsection \<open>Quoted strings\<close>

definition escape :: "string \<Rightarrow> string" where
  "escape s = concat (map (\<lambda>c. if c = DQ \<or> c = BSL then [BSL, c] else [c]) s)"

definition quoted_text :: "string \<Rightarrow> string" where
  "quoted_text s = DQ # escape s @ [DQ]"

lemma unquote_escape: "unquote (escape s @ DQ # t) = (Some s, t)"
  by (induction s) (auto simp: escape_def)

lemma read_quoted:
  assumes "ws_skip (rest p) = quoted_text s @ t"
  obtains q where "readQuotedString (skipWhitespace p) = (Inr s, q)" "rest q = t"
proof -
  have r: "ws_skip (rest p) = DQ # escape s @ DQ # t" using assms by (simp add: quoted_text_def)
  let ?q = "next_char (skipWhitespace p)"
  have u: "unquote (rest ?q) = (Some s, t)" using next_skip [OF r] unquote_escape by simp
  have "fst (quoted_loop [] ?q) = Some s" "rest (snd (quoted_loop [] ?q)) = t"
    using quoted_loop_unquote [OF refl, of "[]" ?q] u by simp_all
  with that [of "snd (quoted_loop [] ?q)"] inside [OF r] peek_skip [OF r] show ?thesis
    by (cases "quoted_loop [] ?q") (simp add: readQuotedString_def)
qed

subsection \<open>The mcp block\<close>

datatype mcp_dir = ServerStdio string | ServerHttp string | McpAuth "auth_dir list"

fun mcp_text :: "mcp_dir \<Rightarrow> string" where
  "mcp_text (ServerStdio cmd) = ''server'' @ SPC # ''stdio'' @ SPC # quoted_text cmd"
| "mcp_text (ServerHttp url) = ''server'' @ SPC # ''http'' @ SPC # url"
| "mcp_text (McpAuth ds) = ''auth'' @ SPC # block_text auth_text ds"

fun mcp_effect :: "mcp_dir \<Rightarrow> MCPConfig \<Rightarrow> MCPConfig" where
  "mcp_effect (ServerStdio cmd) m = m\<lparr>mc_Transport := ''stdio'', mc_Command := cmd\<rparr>"
| "mcp_effect (ServerHttp url) m = m\<lparr>mc_Transport := ''http'', mc_URL := url\<rparr>"
| "mcp_effect (McpAuth ds) m = m\<lparr>mc_Auth := fold mcp_auth_effect ds zero_MCPAuthConfig\<rparr>"

fun mcp_valid :: "mcp_dir \<Rightarrow> bool" where
  "mcp_valid (ServerStdio cmd) = True"
| "mcp_valid (ServerHttp url) = pword url"
| "mcp_valid (McpAuth ds) = list_all mcp_auth_valid ds"

lemma mcp_keywords:
  "pword ''server''" "pword ''auth''" "pword ''stdio''" "pword ''http''"
  by (simp_all add: pword_def word_char_def is_blank_def)

text \<open>A keyword and a blank, whatever follows.\<close>

lemma read_keyword:
  assumes "ws_skip (rest p) = ws_skip ((w @ SPC # r) @ s)" "pword w"
  shows "fst (readWord p) = w" "rest (snd (readWord p)) = SPC # r @ s"
    "peek (skipWhitespace p) \<noteq> CHR ''}''" "\<not> length (p_input (skipWhitespace p)) \<le> p_pos (skipWhitespace p)"
proof -
  have r: "ws_skip (rest p) = w @ SPC # r @ s" using assms by (simp add: ws_skip_pword)
  note k = read_word [OF r assms(2) stops_simps(2)]
  show "fst (readWord p) = w" "rest (snd (readWord p)) = SPC # r @ s" by (simp_all add: k)
  show "peek (skipWhitespace p) \<noteq> CHR ''}''" by (rule peek_word [OF r assms(2)])
  obtain c v where "w = c # v" using assms(2) by (cases w) (auto simp: pword_def)
  then show "\<not> length (p_input (skipWhitespace p)) \<le> p_pos (skipWhitespace p)"
    using r inside [of p c "v @ SPC # r @ s"] by simp
qed

lemma rest_keyword:
  assumes "rest p = SPC # (w @ SPC # r) @ s" "pword w"
  shows "ws_skip (rest p) = ws_skip ((w @ SPC # r) @ s)"
  using assms by simp

lemma ws_skip_block [simp]: "ws_skip (block_text f ds @ s) = block_text f ds @ s"
  by (simp add: block_text_def)

lemma ws_skip_quoted [simp]: "ws_skip (quoted_text s @ t) = quoted_text s @ t"
  by (simp add: quoted_text_def)

interpretation mcp: block_loop mcp_loop mcp_text mcp_effect mcp_valid "\<lambda>m. mc_Transport m \<noteq> []"
proof unfold_locales
  fix c :: MCPConfig and p s
  assume "mc_Transport c \<noteq> []" "ws_skip (rest p) = CHR ''}'' # s"
  then show "\<exists>q. mcp_loop c p = Some (Inr (c, q)) \<and> rest q = s"
    by (subst mcp_loop.simps) (simp add: Let_def peek_skip next_skip)
next
  fix d p s and c :: MCPConfig
  assume v: "mcp_valid d" and p: "ws_skip (rest p) = ws_skip (mcp_text d @ LF # s)"
  show "\<exists>q. mcp_loop c p = mcp_loop (mcp_effect d c) q \<and> ws_skip (rest q) = ws_skip s"
  proof (cases d)
    case (ServerStdio cmd)
    note k = read_keyword [OF p [unfolded ServerStdio mcp_text.simps] mcp_keywords(1)]
    note k2 = read_keyword [OF rest_keyword [OF k(2) mcp_keywords(3)] mcp_keywords(3)]
    have "ws_skip (rest (snd (readWord (snd (readWord p))))) = quoted_text cmd @ LF # s"
      using k2(2) by simp
    then obtain q where "readQuotedString (skipWhitespace (snd (readWord (snd (readWord p))))) = (Inr cmd, q)"
      "rest q = LF # s" by (rule read_quoted)
    with k k2 ServerStdio show ?thesis
      by (subst mcp_loop.simps) (auto simp: Let_def mcp_server_def)
  next
    case (ServerHttp url)
    with v have u: "pword url" by simp
    note k = read_keyword [OF p [unfolded ServerHttp mcp_text.simps] mcp_keywords(1)]
    note k2 = read_two_words [OF rest_keyword [OF k(2) mcp_keywords(4)] mcp_keywords(4) u]
    with k ServerHttp show ?thesis
      by (subst mcp_loop.simps)
        (auto simp: Let_def mcp_server_def intro!: exI [of _ "snd (readWord (snd (readWord (snd (readWord p)))))"])
  next
    case (McpAuth ds)
    with v have ds: "list_all mcp_auth_valid ds" by simp
    note k = read_keyword [OF p [unfolded McpAuth mcp_text.simps] mcp_keywords(2)]
    have "ws_skip (rest (snd (readWord p))) = block_text auth_text ds @ LF # s" using k(2) by simp
    from mcp_auth.block [OF ds TrueI this, of zero_MCPAuthConfig]
    obtain q where "parseMCPAuth (snd (readWord p)) = Some (Inr (fold mcp_auth_effect ds zero_MCPAuthConfig, q))"
      "rest q = LF # s" by (auto simp: parseMCPAuth_def)
    with k McpAuth show ?thesis
      by (subst mcp_loop.simps) (auto simp: Let_def intro!: exI [of _ q])
  qed
qed

subsection \<open>The site block\<close>

datatype site_dir = SPort int | SHostKey string | SRoot string | SBackend string | SAuthKeys string
  | SCommands "command_dir list" | SMeta "meta_dir list" | SMcp "mcp_dir list"
  | SProxy "proxy_dir list" | SAuth "auth_dir list" | SLimits "limit_dir list"

text \<open>Keyword and argument of a directive.\<close>

fun site_parts :: "site_dir \<Rightarrow> string \<times> string" where
  "site_parts (SPort n) = (''port'', show_int n)"
| "site_parts (SHostKey w) = (''host-key'', w)"
| "site_parts (SRoot w) = (''root'', w)"
| "site_parts (SBackend w) = (''backend'', w)"
| "site_parts (SAuthKeys w) = (''authorized-keys'', w)"
| "site_parts (SCommands ds) = (''commands'', block_text command_text ds)"
| "site_parts (SMeta ds) = (''meta'', block_text meta_text ds)"
| "site_parts (SMcp ds) = (''mcp'', block_text mcp_text ds)"
| "site_parts (SProxy ds) = (''proxy-cache'', block_text proxy_text ds)"
| "site_parts (SAuth ds) = (''auth'', block_text auth_text ds)"
| "site_parts (SLimits ds) = (''limits'', block_text limit_text ds)"

definition site_text :: "site_dir \<Rightarrow> string" where
  "site_text d = fst (site_parts d) @ SPC # snd (site_parts d)"

fun site_effect :: "site_dir \<Rightarrow> SiteConfig \<Rightarrow> SiteConfig" where
  "site_effect (SPort n) s = s\<lparr>Port := n\<rparr>"
| "site_effect (SHostKey w) s = s\<lparr>HostKey := w\<rparr>"
| "site_effect (SRoot w) s = s\<lparr>Root := w\<rparr>"
| "site_effect (SBackend w) s = s\<lparr>Backend := w\<rparr>"
| "site_effect (SAuthKeys w) s = s\<lparr>AuthorizedKeysPath := w\<rparr>"
| "site_effect (SCommands ds) s = s\<lparr>Commands := map command_of ds\<rparr>"
| "site_effect (SMeta ds) s = s\<lparr>Meta := fold meta_effect ds zero_MetaConfig\<rparr>"
| "site_effect (SMcp ds) s = s\<lparr>MCP := Some (fold mcp_effect ds zero_MCPConfig)\<rparr>"
| "site_effect (SProxy ds) s = s\<lparr>ProxyCache := fold proxy_effect ds zero_ProxyCacheConfig\<rparr>"
| "site_effect (SAuth ds) s = s\<lparr>Auth := fold auth_effect ds zero_AuthConfig\<rparr>"
| "site_effect (SLimits ds) s = s\<lparr>Limits := fold limit_effect ds zero_LimitsConfig\<rparr>"

fun site_valid :: "site_dir \<Rightarrow> bool" where
  "site_valid (SPort n) = (min_int64 \<le> n \<and> n \<le> max_int64)"
| "site_valid (SCommands ds) = list_all command_valid ds"
| "site_valid (SMeta ds) = list_all meta_valid ds"
| "site_valid (SMcp ds) = (list_all mcp_valid ds \<and> mc_Transport (fold mcp_effect ds zero_MCPConfig) \<noteq> [])"
| "site_valid (SProxy ds) = list_all proxy_valid ds"
| "site_valid (SAuth ds) = list_all auth_valid ds"
| "site_valid (SLimits ds) = list_all limit_valid ds"
| "site_valid d = pword (snd (site_parts d))"

lemma site_keyword: "pword (fst (site_parts d))"
  by (cases d) (simp_all add: pword_def word_char_def is_blank_def)

lemma fold_commands: "fold command_effect ds cs = cs @ map command_of ds"
  by (induction ds arbitrary: cs) (simp_all add: command_effect_def)

lemma site_word:
  assumes "rest p = SPC # w @ LF # s" "pword w"
  shows "fst (readWord p) = w" "rest (snd (readWord p)) = LF # s"
  using read_word [of p w "LF # s"] assms by (simp_all add: ws_skip_pword)

text \<open>One directive, with the cursor behind its keyword.\<close>

lemma site_directive_effect:
  assumes v: "site_valid d" and p: "rest p = SPC # snd (site_parts d) @ LF # s"
  shows "\<exists>q. site_directive (fst (site_parts d)) c p = Some (Inr (site_effect d c, q)) \<and> rest q = LF # s"
proof -
  have b: "ws_skip (rest p) = block_text f ds @ LF # s" if "snd (site_parts d) = block_text f ds"
    for f :: "'z \<Rightarrow> string" and ds
    using p that by simp
  note k = site_word [OF p]
  show ?thesis
  proof (cases d)
    case (SCommands ds)
    with v commands.block [OF _ TrueI b [of command_text ds], of "[]"] show ?thesis
      by (auto simp: site_directive_def Let_def store_in_def parseCommands_def fold_commands)
  next
    case (SMeta ds)
    with v meta.block [OF _ TrueI b [of meta_text ds], of zero_MetaConfig] show ?thesis
      by (auto simp: site_directive_def Let_def store_in_def parseMeta_def)
  next
    case (SMcp ds)
    with v mcp.block [OF _ _ b [of mcp_text ds], of zero_MCPConfig] show ?thesis
      by (auto simp: site_directive_def Let_def store_in_def parseMCP_def)
  next
    case (SProxy ds)
    with v proxy.block [OF _ TrueI b [of proxy_text ds], of zero_ProxyCacheConfig] show ?thesis
      by (auto simp: site_directive_def Let_def store_in_def parseProxyCache_def)
  next
    case (SAuth ds)
    with v site_auth.block [OF _ TrueI b [of auth_text ds], of zero_AuthConfig] show ?thesis
      by (auto simp: site_directive_def Let_def store_in_def parseAuth_def)
  next
    case (SLimits ds)
    with v limits.block [OF _ TrueI b [of limit_text ds], of zero_LimitsConfig] show ?thesis
      by (auto simp: site_directive_def Let_def store_in_def parseLimits_def)
  qed (use v k in \<open>simp_all add: site_directive_def Let_def pword_show_int Atoi_show_int\<close>)
qed

interpretation site: block_loop site_loop site_text site_effect site_valid "\<lambda>_. True"
proof unfold_locales
  fix c p s
  assume r: "ws_skip (rest p) = CHR ''}'' # s"
  then show "\<exists>q. site_loop c p = Some (Inr (c, q)) \<and> rest q = s"
    using inside [OF r] by (subst site_loop.simps) (simp add: Let_def peek_skip next_skip)
next
  fix d p s c
  assume v: "site_valid d" and p: "ws_skip (rest p) = ws_skip (site_text d @ LF # s)"
  note k = read_keyword [OF p [unfolded site_text_def] site_keyword]
  obtain q where "site_directive (fst (site_parts d)) c (snd (readWord p)) = Some (Inr (site_effect d c, q))"
    "rest q = LF # s" using site_directive_effect [OF v k(2), of c] by blast
  then show "\<exists>q. site_loop c p = site_loop (site_effect d c) q \<and> ws_skip (rest q) = ws_skip s"
    using k by (intro exI [of _ q], subst site_loop.simps) (simp add: Let_def)
qed

subsection \<open>The file\<close>

datatype site_decl = SiteDecl (decl_host: string) (decl_dirs: "site_dir list")

fun decl_text :: "site_decl \<Rightarrow> string" where
  "decl_text (SiteDecl h ds) = ''site'' @ SPC # h @ SPC # block_text site_text ds"

fun decl_value :: "site_decl \<Rightarrow> SiteConfig" where
  "decl_value (SiteDecl h ds) = fold site_effect ds (zero_SiteConfig\<lparr>Host := h, Port := 22443\<rparr>)"

fun decl_valid :: "site_decl \<Rightarrow> bool" where
  "decl_valid (SiteDecl h ds) = (pword h \<and> list_all site_valid ds)"

definition config_text :: "site_decl list \<Rightarrow> string" where
  "config_text ds = lines_text decl_text ds"

definition config_value :: "site_decl list \<Rightarrow> Config" where
  "config_value ds = \<lparr>Sites = map decl_value ds\<rparr>"

lemma parseSite_decl:
  assumes "rest p = SPC # h @ SPC # block_text site_text ds @ LF # s" "pword h" "list_all site_valid ds"
  shows "\<exists>q. parseSite p = Some (Inr (decl_value (SiteDecl h ds), q)) \<and> rest q = LF # s"
proof -
  have "ws_skip (rest p) = ws_skip ((h @ SPC # block_text site_text ds) @ LF # s)" using assms by simp
  note k = read_keyword [OF this assms(2)]
  have "ws_skip (rest (snd (readWord p))) = block_text site_text ds @ LF # s" using k(2) by simp
  from site.block [OF assms(3) TrueI this] k(1) assms(2) show ?thesis
    by (auto simp: parseSite_def Let_def pword_def)
qed

lemma config_loop_decls:
  assumes "list_all decl_valid ds" "ws_skip (rest p) = ws_skip (config_text ds)"
  shows "config_loop sites p = Some (Inr \<lparr>Sites = sites @ map decl_value ds\<rparr>)"
  using assms
proof (induction ds arbitrary: sites p)
  case Nil
  then have "length (p_input (skipWhitespace p)) \<le> p_pos (skipWhitespace p)"
    by (simp add: rest_Nil [symmetric] scan_rules config_text_def lines_text_def)
  then show ?case by (subst config_loop.simps) (simp add: Let_def)
next
  case (Cons d ds)
  obtain h bs where d: "d = SiteDecl h bs" "pword h" "list_all site_valid bs" using Cons.prems by (cases d) auto
  have "ws_skip (rest p) = ws_skip ((''site'' @ SPC # h @ SPC # block_text site_text bs) @ LF # config_text ds)"
    using Cons.prems(2) d by (simp add: config_text_def lines_text_def)
  moreover have "pword ''site''" by (simp add: pword_def word_char_def is_blank_def)
  ultimately have k: "fst (readWord p) = ''site''"
    "rest (snd (readWord p)) = SPC # (h @ SPC # block_text site_text bs) @ LF # config_text ds"
    "\<not> length (p_input (skipWhitespace p)) \<le> p_pos (skipWhitespace p)" by (rule read_keyword)+
  obtain q where q: "parseSite (snd (readWord p)) = Some (Inr (decl_value d, q))" "rest q = LF # config_text ds"
    using parseSite_decl [of "snd (readWord p)" h bs "config_text ds"] k(2) d by auto
  have "config_loop sites p = config_loop (sites @ [decl_value d]) q"
    using k q by (subst config_loop.simps) (simp add: Let_def)
  then show ?case using Cons.IH [of q "sites @ [decl_value d]"] Cons.prems(1) q(2) by simp
qed

lemma parse_printed: "list_all decl_valid ds \<Longrightarrow> parseConfig (config_text ds) = Some (Inr (config_value ds))"
  using config_loop_decls [of ds "newParser (config_text ds)" "[]"]
  by (simp add: parseConfig_def config_value_def)


definition demo_decls :: "site_decl list" where
  "demo_decls =
     [SiteDecl ''demo''
        [SRoot ''./site'',
         SCommands [Command ''text-only'' ''./pages'', ApiCall ''GET'' ''/api/posts''],
         SMcp [ServerStdio ([DQ] @ ''a b'' @ [BSL]), McpAuth [AuthDir ''trusted'' [''*'', ''x y'']]],
         SLimits [LimitDir ''anonymous'' ''10/min'']],
      SiteDecl ''other'' []]"


end
