(* ===== verification/Config_Faults.thy ===== *)
theory Config_Faults
  imports Config_Roundtrip
begin

text \<open>
  What the parser does on inputs it does not expect.  Only the site loop looks for the end of the
  input; the loops of the nested blocks and of bracket lists look for their closing character
  alone, so a truncated file makes them run forever (\<open>None\<close>), and two \<open>meta\<close> directives index an
  empty slice.
\<close>

lemma peek_end [simp]: "rest p = [] \<Longrightarrow> peek (skipWhitespace p) = NUL"
  by (simp add: peek_rest scan_rules)

lemma word_end [simp]: "rest p = [] \<Longrightarrow> fst (readWord p) = []" "rest p = [] \<Longrightarrow> rest (snd (readWord p)) = []"
  by (simp_all add: scan_rules)

lemma line_end [simp]: "rest p = [] \<Longrightarrow> rest (snd (readUntilNewline p)) = []"
  by (simp add: scan_rules)

text \<open>A loop that returns has not been started at the end of the input.\<close>

lemma commands_loop_end: "commands_loop cs p = Some y \<Longrightarrow> rest p \<noteq> []"
proof (induction rule: commands_loop.raw_induct [rotated, consumes 1, case_names 1])
  case (1 f cs p y)
  from 1(2) show ?case
    by (cases "rest p = []") (auto simp: Let_def dest!: 1(1))
qed

lemma meta_loop_end: "meta_loop m p = Some y \<Longrightarrow> rest p \<noteq> []"
proof (induction rule: meta_loop.raw_induct [rotated, consumes 1, case_names 1])
  case (1 f m p y)
  from 1(2) show ?case
    by (cases "rest p = []") (auto simp: Let_def meta_directive_def dest!: 1(1))
qed

lemma proxy_loop_end: "proxy_loop c p = Some y \<Longrightarrow> rest p \<noteq> []"
proof (induction rule: proxy_loop.raw_induct [rotated, consumes 1, case_names 1])
  case (1 f c p y)
  from 1(2) show ?case
    by (cases "rest p = []") (auto simp: Let_def proxy_directive_def dest!: 1(1))
qed

lemma limits_loop_end: "limits_loop l p = Some y \<Longrightarrow> rest p \<noteq> []"
proof (induction rule: limits_loop.raw_induct [rotated, consumes 1, case_names 1])
  case (1 f l p y)
  from 1(2) show ?case
    by (cases "rest p = []") (auto simp: Let_def dest!: 1(1) split: if_splits)
qed

lemma set_ws_skip: "set (ws_skip s) \<subseteq> set s"
  using ws_skip_suffix [of s] by (metis set_append sup_ge2)

lemma bracket_loop_open: "bracket_loop items p = Some y \<Longrightarrow> CHR '']'' \<in> set (rest p)"
proof (induction rule: bracket_loop.raw_induct [rotated, consumes 1, case_names 1])
  case (1 f items p y)
  let ?p = "skipWhitespace p"
  let ?q = "skip_while (\<lambda>c. c \<noteq> CHR '','' \<and> c \<noteq> CHR '']'') ?p"
  have sub: "set (rest ?q) \<subseteq> set (rest p)" "set (rest ?p) \<subseteq> set (rest p)"
    using set_ws_skip [of "rest p"] by (auto simp: rest_skip_while scan_rules dest: set_dropWhileD)
  show ?case
  proof (cases "peek ?p = CHR '']''")
    case True
    then have "CHR '']'' \<in> set (rest ?p)" by (auto simp: peek_rest split: list.splits)
    with sub show ?thesis by blast
  next
    case False
    let ?r = "if peek ?q = CHR '','' then next_char ?q else ?q"
    have "CHR '']'' \<in> set (rest ?r)"
      using 1(2) False by (auto simp: Let_def dest: 1(1) split: if_splits)
    moreover have "set (rest ?r) \<subseteq> set (rest ?q)"
    proof (cases "rest ?q")
      case Nil
      then show ?thesis by (simp add: peek_rest)
    next
      case (Cons c cs)
      then show ?thesis using rest_Cons(4) [OF Cons] by auto
    qed
    ultimately show ?thesis using sub by blast
  qed
qed

lemmas loop_ends = commands_loop_end meta_loop_end proxy_loop_end limits_loop_end

lemma loops_at_end:
  assumes "rest p = []"
  shows "commands_loop cs p = None" "meta_loop m p = None" "proxy_loop c p = None" "limits_loop l p = None"
  using assms loop_ends by (metis not_Some_eq)+

lemma loops_after_space:
  assumes "ws_skip (rest p) = []"
  shows "commands_loop cs p = None" "meta_loop m p = None" "proxy_loop c p = None" "limits_loop l p = None"
proof -
  have e: "rest (skipWhitespace p) = []" using assms by (simp add: scan_rules)
  show "commands_loop cs p = None"
    using loops_at_end(1) [OF e] by (subst (asm) commands_loop.simps, subst commands_loop.simps) simp
  show "meta_loop m p = None"
    using loops_at_end(2) [OF e] by (subst (asm) meta_loop.simps, subst meta_loop.simps) simp
  show "proxy_loop c p = None"
    using loops_at_end(3) [OF e] by (subst (asm) proxy_loop.simps, subst proxy_loop.simps) simp
  show "limits_loop l p = None"
    using loops_at_end(4) [OF e] by (subst (asm) limits_loop.simps, subst limits_loop.simps) simp
qed

definition open_blocks :: "string list" where
  "open_blocks = [''commands'', ''meta'', ''proxy-cache'', ''limits'']"

lemma site_directive_open:
  assumes "kw \<in> set open_blocks" "rest p = SPC # CHR ''{'' # tail" "ws_skip tail = []"
  shows "site_directive kw c p = None"
proof -
  have r: "ws_skip (rest p) = CHR ''{'' # tail" using assms(2) by simp
  have none: "in_block body p = None" if "\<And>q. ws_skip (rest q) = [] \<Longrightarrow> body q = None" for body :: "parser \<Rightarrow> 'a presult"
    by (rule in_block_open [OF r, of body]) (simp add: that assms(3))
  show ?thesis
    using assms(1) by (auto simp: open_blocks_def site_directive_def Let_def store_in_def parseCommands_def
      parseMeta_def parseProxyCache_def parseLimits_def none loops_after_space)
qed



text \<open>In a \<open>meta\<close> block an \<open>rss-feed\<close> or \<open>sitemap\<close> directive with nothing but blanks behind it
  indexes an empty slice: the parser panics instead of reporting the line.  With at least one word
  the directive is accepted, and no other keyword of the block can fail.\<close>

theorem meta_directive_panics:
  "(meta_directive kw line m = Inl PanicIndex \<longleftrightarrow>
      kw \<in> {''rss-feed'', ''sitemap''} \<and> blank line) \<and>
   (is_ok (meta_directive kw line m) \<longleftrightarrow>
      \<not> (kw \<in> {''rss-feed'', ''sitemap''} \<and> blank line))"
  by (auto simp: meta_directive_def Let_def Fields_empty [symmetric] split: list.split)

end
