(* ===== verification/Go_Path.thy ===== *)
theory Go_Path
  imports Go_Strings "HOL-Library.Sublist"
begin

text \<open>
  Slash-separated paths as \<open>path/filepath\<close> treats them on Unix: \<open>Clean\<close>, \<open>Join\<close>, \<open>Abs\<close>,
  \<open>Base\<close> and \<open>Rel\<close>, by components.  A clean absolute path is determined by the list of its
  components (\<open>abs_path\<close>), which is what the containment properties are stated on.
\<close>

subsection \<open>The operations\<close>

definition is_abs :: "string \<Rightarrow> bool" where
  "is_abs p \<longleftrightarrow> HasPrefix p ''/''"

text \<open>The components of a path on a stack, newest first.  \<open>rooted\<close> paths cannot go above the root.\<close>

fun clean_step :: "bool \<Rightarrow> string list \<Rightarrow> string \<Rightarrow> string list" where
  "clean_step rooted st c =
     (if c = [] \<or> c = ''.'' then st
      else if c = ''..'' then
        (case st of
           [] \<Rightarrow> if rooted then [] else [''..'']
         | t # ts \<Rightarrow> if t = ''..'' then ''..'' # st else ts)
      else c # st)"

definition clean_parts :: "string \<Rightarrow> string list" where
  "clean_parts p = rev (foldl (clean_step (is_abs p)) [] (Split p CHR ''/''))"

definition abs_path :: "string list \<Rightarrow> string" where
  "abs_path cs = CHR ''/'' # Join cs ''/''"

definition Clean :: "string \<Rightarrow> string" where
  "Clean p =
     (if is_abs p then abs_path (clean_parts p)
      else if clean_parts p = [] then ''.'' else Join (clean_parts p) ''/'')"

text \<open>\<open>filepath.Join(a, b)\<close>\<close>

definition path_Join :: "string \<Rightarrow> string \<Rightarrow> string" where
  "path_Join a b =
     (if a \<noteq> [] then Clean (a @ ''/'' @ b) else if b \<noteq> [] then Clean b else [])"

text \<open>\<open>filepath.Abs\<close> in the working directory \<open>wd\<close>.\<close>

definition Abs :: "string \<Rightarrow> string \<Rightarrow> string" where
  "Abs wd p = (if is_abs p then Clean p else path_Join wd p)"

definition Base :: "string \<Rightarrow> string" where
  "Base p =
     (if p = [] then ''.''
      else
        let q = trim_right (\<lambda>c. c = CHR ''/'') p
        in if q = [] then ''/'' else last (Split q CHR ''/''))"

text \<open>\<open>filepath.Rel\<close>: \<open>None\<close> when the target cannot be made relative.\<close>

fun rel_parts :: "string list \<Rightarrow> string list \<Rightarrow> string list option" where
  "rel_parts (b # bs) (t # ts) =
     (if b = t then rel_parts bs ts
      else if b = ''..'' then None else Some (map (\<lambda>_. ''..'') (b # bs) @ t # ts))"
| "rel_parts (b # bs) [] = (if b = ''..'' then None else Some (map (\<lambda>_. ''..'') (b # bs)))"
| "rel_parts [] ts = Some ts"

definition Rel :: "string \<Rightarrow> string \<Rightarrow> string option" where
  "Rel base targ =
     (if is_abs base \<noteq> is_abs targ then None
      else map_option (\<lambda>cs. if cs = [] then ''.'' else Join cs ''/'') (rel_parts (clean_parts base) (clean_parts targ)))"

subsection \<open>Clean absolute paths\<close>

text \<open>A component: a name, not empty, without a slash, and not one of the two special ones.\<close>

definition name_ok :: "string \<Rightarrow> bool" where
  "name_ok c \<longleftrightarrow> c \<noteq> [] \<and> CHR ''/'' \<notin> set c \<and> c \<noteq> ''.'' \<and> c \<noteq> ''..''"

definition part_free :: "string list \<Rightarrow> bool" where
  "part_free cs \<longleftrightarrow> (\<forall>c\<in>set cs. CHR ''/'' \<notin> set c)"

lemma is_abs_abs_path [simp]: "is_abs (abs_path cs)"
  by (simp add: is_abs_def abs_path_def HasPrefix_def)

lemma is_abs_Cons [simp]: "is_abs (c # s) \<longleftrightarrow> c = CHR ''/''" "\<not> is_abs []"
  by (simp_all add: is_abs_def HasPrefix_def)

lemma is_abs_append: "p \<noteq> [] \<Longrightarrow> is_abs (p @ q) = is_abs p"
  by (cases p) simp_all

lemma rooted_stack_ok:
  assumes "list_all name_ok st" "list_all (\<lambda>c. CHR ''/'' \<notin> set c) cs"
  shows "list_all name_ok (foldl (clean_step True) st cs)"
  using assms
proof (induction cs arbitrary: st)
  case (Cons c cs)
  have "list_all name_ok (clean_step True st c)"
    using Cons.prems by (cases st) (auto simp: name_ok_def list_all_iff)
  with Cons show ?case by simp
qed simp

lemma Split_free_parts: "list_all (\<lambda>c. CHR ''/'' \<notin> set c) (Split p CHR ''/'')"
  by (auto simp: list_all_iff dest: Split_parts)

lemma clean_parts_ok: "is_abs p \<Longrightarrow> list_all name_ok (clean_parts p)"
  using rooted_stack_ok [OF _ Split_free_parts, of "[]" p] by (simp add: clean_parts_def)

lemma clean_names:
  "list_all name_ok cs \<Longrightarrow> foldl (clean_step r) st cs = rev cs @ st"
  by (induction cs arbitrary: st) (auto simp: name_ok_def)

lemma Split_append_slash: "Split (p @ CHR ''/'' # q) CHR ''/'' = Split p CHR ''/'' @ Split q CHR ''/''"
  by (induction p) (auto split: list.split)

lemma Split_Join_names: "list_all name_ok cs \<Longrightarrow> cs \<noteq> [] \<Longrightarrow> Split (Join cs ''/'') CHR ''/'' = cs"
  by (rule Split_Join) (auto simp: name_ok_def list_all_iff)

lemma clean_parts_abs_path: "list_all name_ok cs \<Longrightarrow> clean_parts (abs_path cs) = cs"
  using clean_names [of cs True "[]"] Split_Join_names [of cs]
  by (cases "cs = []") (simp_all add: clean_parts_def abs_path_def)

lemma Clean_abs_path: "list_all name_ok cs \<Longrightarrow> Clean (abs_path cs) = abs_path cs"
  by (simp add: Clean_def clean_parts_abs_path)

lemma abs_path_inject: "list_all name_ok cs \<Longrightarrow> list_all name_ok ds \<Longrightarrow> abs_path cs = abs_path ds \<longleftrightarrow> cs = ds"
  using clean_parts_abs_path by metis

lemma Clean_abs: "is_abs p \<Longrightarrow> \<exists>cs. list_all name_ok cs \<and> Clean p = abs_path cs"
  using clean_parts_ok by (auto simp: Clean_def)

lemma Clean_idem_abs: "is_abs p \<Longrightarrow> Clean (Clean p) = Clean p"
  using Clean_abs Clean_abs_path by metis

lemma Abs_path:
  assumes "is_abs wd"
  shows "\<exists>cs. list_all name_ok cs \<and> Abs wd p = abs_path cs"
proof (cases "is_abs p")
  case True
  then show ?thesis using Clean_abs by (simp add: Abs_def)
next
  case False
  have "wd \<noteq> []" using assms by auto
  then have "is_abs (wd @ ''/'' @ p)" using assms by (simp add: is_abs_append)
  with \<open>wd \<noteq> []\<close> False show ?thesis using Clean_abs by (simp add: Abs_def path_Join_def)
qed

text \<open>Joining a clean absolute path with an absolute one stays below it.\<close>

lemma clean_abs_path_parts:
  assumes "list_all name_ok cs"
  shows "foldl (clean_step True) st (Split (abs_path cs) CHR ''/'') = rev cs @ st"
  using Split_Join_names [OF assms] clean_names [OF assms, of True st]
  by (cases "cs = []") (simp_all add: abs_path_def)

lemma Join_abs_below:
  assumes "list_all name_ok rs" "list_all name_ok cs"
  shows "path_Join (abs_path rs) (abs_path cs) = abs_path (rs @ cs)"
proof -
  have ne: "abs_path rs \<noteq> []" by (simp add: abs_path_def)
  then have a: "is_abs (abs_path rs @ ''/'' @ abs_path cs)" by (simp add: is_abs_append)
  have "Split (abs_path rs @ ''/'' @ abs_path cs) CHR ''/'' =
      Split (abs_path rs) CHR ''/'' @ Split (abs_path cs) CHR ''/''"
    using Split_append_slash by simp
  then have "clean_parts (abs_path rs @ ''/'' @ abs_path cs) = rs @ cs"
    using a clean_abs_path_parts [OF assms(1), of "[]"] clean_abs_path_parts [OF assms(2), of "rev rs"]
    by (simp add: clean_parts_def)
  then show ?thesis unfolding path_Join_def Clean_def using a ne by simp
qed

subsection \<open>Relative paths\<close>

text \<open>Cleaning a relative path first does not change where it leads.\<close>

definition stack_ok :: "string list \<Rightarrow> bool" where
  "stack_ok st \<longleftrightarrow> (\<forall>c\<in>set st. name_ok c \<or> c = ''..'')"

lemma clean_step_replay:
  assumes "stack_ok st"
  shows "foldl (clean_step True) S (rev (clean_step False st c)) = clean_step True (foldl (clean_step True) S (rev st)) c"
  using assms by (cases st) (auto simp: stack_ok_def name_ok_def)

lemma stack_ok_step: "stack_ok st \<Longrightarrow> CHR ''/'' \<notin> set c \<Longrightarrow> stack_ok (clean_step False st c)"
  by (cases st) (auto simp: stack_ok_def name_ok_def)

lemma clean_replay:
  assumes "stack_ok st" "list_all (\<lambda>c. CHR ''/'' \<notin> set c) cs"
  shows "foldl (clean_step True) S (rev (foldl (clean_step False) st cs)) =
    foldl (clean_step True) (foldl (clean_step True) S (rev st)) cs \<and> stack_ok (foldl (clean_step False) st cs)"
  using assms
proof (induction cs arbitrary: st)
  case (Cons c cs)
  have "stack_ok (clean_step False st c)" using Cons.prems by (auto intro: stack_ok_step simp del: clean_step.simps)
  with Cons clean_step_replay [of st S c] show ?case by (simp del: clean_step.simps)
qed simp

lemma clean_rel_parts:
  assumes "\<not> is_abs p"
  shows "foldl (clean_step True) S (clean_parts p) = foldl (clean_step True) S (Split p CHR ''/'')"
    and "stack_ok (clean_parts p)"
  using clean_replay [OF _ Split_free_parts, of "[]" S p] assms
  by (simp_all add: clean_parts_def stack_ok_def)

lemma Split_Clean_rel:
  assumes "\<not> is_abs p"
  shows "foldl (clean_step True) S (Split (Clean p) CHR ''/'') = foldl (clean_step True) S (Split p CHR ''/'')"
proof (cases "clean_parts p = []")
  case True
  with clean_rel_parts(1) [OF assms, of S] assms show ?thesis by (simp add: Clean_def)
next
  case False
  have "CHR ''/'' \<notin> set c" if "c \<in> set (clean_parts p)" for c
  proof -
    have "name_ok c \<or> c = ''..''" using clean_rel_parts(2) [OF assms] that by (simp add: stack_ok_def)
    then show ?thesis by (auto simp: name_ok_def)
  qed
  then have "Split (Clean p) CHR ''/'' = clean_parts p"
    using False assms by (simp add: Clean_def Split_Join)
  then show ?thesis using clean_rel_parts(1) [OF assms] by simp
qed

text \<open>The components a path leads to from the working directory.\<close>

definition leads_to :: "string \<Rightarrow> string \<Rightarrow> string list" where
  "leads_to wd p =
     (if is_abs p then clean_parts p
      else rev (foldl (clean_step True) (rev (clean_parts wd)) (Split p CHR ''/'')))"

lemma clean_parts_append:
  assumes "is_abs a"
  shows "clean_parts (a @ CHR ''/'' # b) = rev (foldl (clean_step True) (rev (clean_parts a)) (Split b CHR ''/''))"
proof -
  have "a \<noteq> []" using assms by auto
  then have "is_abs (a @ CHR ''/'' # b)" using assms by (simp add: is_abs_append)
  with assms show ?thesis by (simp add: clean_parts_def Split_append_slash)
qed

lemma Abs_leads_to:
  assumes "is_abs wd"
  shows "Abs wd p = abs_path (leads_to wd p)"
proof (cases "is_abs p")
  case False
  have "wd \<noteq> []" using assms by auto
  moreover from this have "is_abs (wd @ CHR ''/'' # p)" using assms by (simp add: is_abs_append)
  ultimately show ?thesis
    using False clean_parts_append [OF assms, of p] by (simp add: Abs_def path_Join_def Clean_def leads_to_def)
qed (simp add: Abs_def Clean_def leads_to_def)

lemma leads_to_ok: "is_abs wd \<Longrightarrow> list_all name_ok (leads_to wd p)"
  using clean_parts_ok rooted_stack_ok [OF _ Split_free_parts, of "rev (clean_parts wd)" p]
  by (simp add: leads_to_def)

lemma clean_parts_Clean: "is_abs p \<Longrightarrow> clean_parts (Clean p) = clean_parts p"
  by (simp add: Clean_def clean_parts_abs_path clean_parts_ok)

lemma is_abs_Clean [simp]: "is_abs (Clean p) = is_abs p"
proof (cases "is_abs p")
  case False
  then have "\<not> is_abs (Join (clean_parts p) ''/'')" if "clean_parts p \<noteq> []"
  proof -
    obtain c cs where c: "clean_parts p = c # cs" using \<open>clean_parts p \<noteq> []\<close> by (cases "clean_parts p") auto
    have "name_ok c \<or> c = ''..''" using clean_rel_parts(2) [OF False] c by (simp add: stack_ok_def)
    then have "c \<noteq> [] \<and> hd c \<noteq> CHR ''/''" by (cases c) (auto simp: name_ok_def)
    then show ?thesis using c by (cases c; cases cs) auto
  qed
  with False show ?thesis by (simp add: Clean_def)
qed (simp add: Clean_def)

text \<open>Joining and then making absolute: the second path is followed from where the first one leads.\<close>

lemma leads_to_Join:
  assumes "is_abs wd" "a \<noteq> []"
  shows "leads_to wd (path_Join a b) =
    rev (foldl (clean_step True) (rev (leads_to wd a)) (Split b CHR ''/''))"
proof (cases "is_abs a")
  case True
  have "is_abs (a @ CHR ''/'' # b)" using True assms(2) by (simp add: is_abs_append)
  with True assms(2) clean_parts_append [OF True, of b] show ?thesis
    by (simp add: leads_to_def path_Join_def clean_parts_Clean)
next
  case False
  have "\<not> is_abs (a @ CHR ''/'' # b)" using False assms(2) by (simp add: is_abs_append)
  from Split_Clean_rel [OF this] this False assms(2) show ?thesis
    by (simp add: leads_to_def path_Join_def Split_append_slash)
qed

end
