(* ===== verification/Go_IO.thy ===== *)
theory Go_IO
  imports Prelude
begin

text \<open>
  \<open>io.Writer\<close>: \<open>Write(b)\<close> returns the number of bytes it took and whether it succeeded, and
  changes the state of the writer.  \<open>write_chunks\<close> is a run of writes with the early return
  \<open>if err != nil { return err }\<close> after each.  \<open>bytes.Buffer\<close> is the writer that takes everything.
\<close>

type_synonym 'w io_write = "'w \<Rightarrow> bytes \<Rightarrow> (nat \<times> bool) \<times> 'w"

definition buffer_write :: "bytes io_write" where
  "buffer_write s b = ((length b, True), s @ b)"

lemma buffer_write_app: "buffer_write s b = ((length b, True), s @ b)"
  by (simp add: buffer_write_def)

fun write_chunks :: "'w io_write \<Rightarrow> bytes list \<Rightarrow> 'w \<Rightarrow> bool \<times> 'w" where
  "write_chunks write [] s = (True, s)"
| "write_chunks write (b # bs) s =
     (case write s b of ((n, ok), s') \<Rightarrow> if ok then write_chunks write bs s' else (False, s'))"

lemma write_chunks_buffer [simp]: "write_chunks buffer_write bs s = (True, s @ concat bs)"
proof (induction bs arbitrary: s)
  case (Cons b bs)
  then show ?case by (simp add: buffer_write_app [of _ b])
qed simp

text \<open>A writer that records what it took: no failed write is followed by another one.\<close>

lemma write_chunks_append:
  "write_chunks write (bs @ cs) s =
     (case write_chunks write bs s of (ok, s') \<Rightarrow> if ok then write_chunks write cs s' else (False, s'))"
  by (induction bs arbitrary: s) (auto split: prod.split)

end
