(* ===== verification/Sha1.thy ===== *)
theory Sha1
  imports Prelude "HOL-Library.Word"
begin

unbundle bit_operations_syntax

text \<open>
  SHA-1 (FIPS 180-4) on byte strings: what \<open>crypto/sha1\<close> of Go's standard library computes.  The
  packfile writer uses it for object names and for the trailing checksum.
\<close>

text \<open>Bytes and machine words.\<close>

definition byte_of :: "char \<Rightarrow> 'a::len word" where
  "byte_of c = word_of_int (of_char c)"

definition char_of_word :: "'a::len word \<Rightarrow> char" where
  "char_of_word w = char_of (uint w)"

definition be32 :: "32 word \<Rightarrow> bytes" where
  "be32 w = map char_of_word [drop_bit 24 w, drop_bit 16 w, drop_bit 8 w, w]"

fun word_be32 :: "bytes \<Rightarrow> 32 word" where
  "word_be32 (a # b # c # d # _) =
     push_bit 24 (byte_of a) OR push_bit 16 (byte_of b) OR push_bit 8 (byte_of c) OR byte_of d"
| "word_be32 _ = 0"

text \<open>Padding: a one bit, zeros, and the length in bits as a 64-bit number.\<close>

definition sha1_pad :: "bytes \<Rightarrow> bytes" where
  "sha1_pad m =
     m @ CHR 0x80 # replicate ((119 - length m mod 64) mod 64) NUL @
     be32 (word_of_int (8 * int (length m) div 2 ^ 32)) @ be32 (word_of_int (8 * int (length m)))"

fun words_be :: "bytes \<Rightarrow> 32 word list" where
  "words_be (a # b # c # d # s) = word_be32 [a, b, c, d] # words_be s"
| "words_be _ = []"

text \<open>The message schedule, newest word first.\<close>

primrec schedule :: "nat \<Rightarrow> 32 word list \<Rightarrow> 32 word list" where
  "schedule 0 ws = ws"
| "schedule (Suc n) ws =
     schedule n (word_rotl 1 (ws ! 2 XOR ws ! 7 XOR ws ! 13 XOR ws ! 15) # ws)"

type_synonym sha1_state = "32 word \<times> 32 word \<times> 32 word \<times> 32 word \<times> 32 word"

definition sha1_f :: "nat \<Rightarrow> 32 word \<Rightarrow> 32 word \<Rightarrow> 32 word \<Rightarrow> 32 word" where
  "sha1_f t b c d =
     (if t < 20 then (b AND c) OR (NOT b AND d)
      else if t < 40 then b XOR c XOR d
      else if t < 60 then (b AND c) OR (b AND d) OR (c AND d)
      else b XOR c XOR d)"

definition sha1_k :: "nat \<Rightarrow> 32 word" where
  "sha1_k t = (if t < 20 then 0x5A827999 else if t < 40 then 0x6ED9EBA1
               else if t < 60 then 0x8F1BBCDC else 0xCA62C1D6)"

fun sha1_rounds :: "nat \<Rightarrow> 32 word list \<Rightarrow> sha1_state \<Rightarrow> sha1_state" where
  "sha1_rounds t [] s = s"
| "sha1_rounds t (w # ws) (a, b, c, d, e) =
     sha1_rounds (Suc t) ws
       (word_rotl 5 a + sha1_f t b c d + e + sha1_k t + w, a, word_rotl 30 b, c, d)"

fun add_state :: "sha1_state \<Rightarrow> sha1_state \<Rightarrow> sha1_state" where
  "add_state (a, b, c, d, e) (a', b', c', d', e') = (a + a', b + b', c + c', d + d', e + e')"

definition sha1_block :: "sha1_state \<Rightarrow> bytes \<Rightarrow> sha1_state" where
  "sha1_block s m = add_state s (sha1_rounds 0 (rev (schedule 64 (rev (words_be m)))) s)"

fun blocks :: "nat \<Rightarrow> bytes \<Rightarrow> bytes list" where
  "blocks 0 m = []"
| "blocks (Suc n) m = take 64 m # blocks n (drop 64 m)"

definition sha1_init :: sha1_state where
  "sha1_init = (0x67452301, 0xEFCDAB89, 0x98BADCFE, 0x10325476, 0xC3D2E1F0)"

fun state_bytes :: "sha1_state \<Rightarrow> bytes" where
  "state_bytes (a, b, c, d, e) = be32 a @ be32 b @ be32 c @ be32 d @ be32 e"

definition sha1 :: "bytes \<Rightarrow> bytes" where
  "sha1 m = (let p = sha1_pad m in
     state_bytes (foldl sha1_block sha1_init (blocks (length p div 64) p)))"

definition hex_char :: "nat \<Rightarrow> char" where
  "hex_char n = ''0123456789abcdef'' ! n"

text \<open>\<open>fmt.Sprintf("%x", b)\<close>\<close>

definition hex :: "bytes \<Rightarrow> string" where
  "hex b = concat (map (\<lambda>c. [hex_char (of_char c div 16), hex_char (of_char c mod 16)]) b)"

lemma length_be32 [simp]: "length (be32 w) = 4"
  by (simp add: be32_def)

lemma length_sha1 [simp]: "length (sha1 m) = 20"
proof -
  have "length (state_bytes s) = 20" for s by (cases s) simp
  then show ?thesis by (simp add: sha1_def Let_def)
qed

lemma length_hex [simp]: "length (hex b) = 2 * length b"
  by (induction b) (simp_all add: hex_def)

text \<open>Bytes of words, read back.\<close>

lemma of_char_word: "of_char (char_of_word (w :: 8 word)) = unat w"
proof -
  have "(of_char (char_of_word w) :: int) = uint w"
    using uint_lt2p [of w] by (simp add: char_of_word_def of_char_of)
  then show ?thesis by (metis of_nat_of_char nat_int unat_eq_nat_uint)
qed

lemma byte_char_word: "byte_of (char_of_word (w :: 32 word)) = (take_bit 8 w :: 32 word)"
proof -
  have "uint w mod 256 = take_bit 8 (uint w)" by (simp add: take_bit_eq_mod)
  then have "uint (byte_of (char_of_word w) :: 32 word) = take_bit 32 (take_bit 8 (uint w))"
    by (simp add: byte_of_def char_of_word_def of_char_of uint_word_of_int)
  also have "\<dots> = uint (take_bit 8 w)" by (simp add: unsigned_take_bit_eq)
  finally show ?thesis by (simp add: word_uint_eq_iff)
qed
lemma word_be32_be32 [simp]: "word_be32 (be32 w) = w"
proof -
  have "push_bit 24 (take_bit 8 (drop_bit 24 w)) OR push_bit 16 (take_bit 8 (drop_bit 16 w)) OR
    push_bit 8 (take_bit 8 (drop_bit 8 w)) OR take_bit 8 w = w"
  proof (rule bit_word_eqI)
    fix n assume n: "n < LENGTH(32)"
    then consider "n < 8" | "8 \<le> n" "n < 16" | "16 \<le> n" "n < 24" | "24 \<le> n" "n < 32" by fastforce
    then show "bit (push_bit 24 (take_bit 8 (drop_bit 24 w)) OR push_bit 16 (take_bit 8 (drop_bit 16 w)) OR
      push_bit 8 (take_bit 8 (drop_bit 8 w)) OR take_bit 8 w) n = bit w n"
      by cases (auto simp: bit_simps)
  qed
  then show ?thesis by (simp add: be32_def byte_char_word)
qed

lemma take_be32 [simp]: "take 4 (be32 w) = be32 w"
  by simp

end
