(* ===== verification/Packfile.thy ===== *)
theory Packfile
  imports Go_Strings Go_IO Sha1 "HOL-Library.Sublist"
begin

text \<open>
  The git packfile writer of \<open>internal/packfile/packfile.go\<close>.  \<open>compress/zlib\<close> is the parameter
  \<open>deflate\<close> (\<open>None\<close> when the compressor reports an error) and the \<open>io.Writer\<close> of \<open>WriteTo\<close> a
  parameter \<open>write\<close>.  The specification is a reader of the format: \<open>read_pack\<close> takes a stream
  apart again, given an \<open>inflate\<close> that undoes \<open>deflate\<close> and finds the end of its own stream.
\<close>

subsection \<open>The code\<close>

type_synonym ObjectType = "8 word"

definition ObjectBlob :: ObjectType where "ObjectBlob = 3"
definition ObjectTree :: ObjectType where "ObjectTree = 2"
definition ObjectOFSDelta :: ObjectType where "ObjectOFSDelta = 6"
definition ObjectRefDelta :: ObjectType where "ObjectRefDelta = 7"

record Object =
  obj_Type :: ObjectType
  obj_Data :: bytes
  obj_SHA :: bytes

record FileRef =
  fr_Name :: string
  fr_SHA :: string
  fr_Size :: int

record Writer =
  w_objects :: "Object list"
  w_files :: "FileRef list"

definition NewWriter :: Writer where
  "NewWriter = \<lparr>w_objects = [], w_files = []\<rparr>"

text \<open>\<open>fmt.Sprintf("blob %d\x00", len(data))\<close> and its tree counterpart.\<close>

definition object_header :: "string \<Rightarrow> bytes \<Rightarrow> bytes" where
  "object_header kind data = kind @ '' '' @ show_nat (length data) @ [NUL]"

definition AddBlob :: "bytes \<Rightarrow> Writer \<Rightarrow> bytes \<times> Writer" where
  "AddBlob data w =
     (let sha = sha1 (object_header ''blob'' data @ data) in
      (sha, w\<lparr>w_objects := w_objects w @ [\<lparr>obj_Type = ObjectBlob, obj_Data = data, obj_SHA = sha\<rparr>]\<rparr>))"

record TreeEntry =
  te_Mode :: string
  te_Name :: string
  te_SHA :: bytes

fun tree_data :: "TreeEntry list \<Rightarrow> bytes" where
  "tree_data [] = []"
| "tree_data (e # es) = te_Mode e @ '' '' @ te_Name e @ [NUL] @ te_SHA e @ tree_data es"

definition AddTree :: "TreeEntry list \<Rightarrow> Writer \<Rightarrow> bytes \<times> Writer" where
  "AddTree entries w =
     (let data = tree_data entries; sha = sha1 (object_header ''tree'' data @ data) in
      (sha, w\<lparr>w_objects := w_objects w @ [\<lparr>obj_Type = ObjectTree, obj_Data = data, obj_SHA = sha\<rparr>]\<rparr>))"

definition AddFile :: "string \<Rightarrow> bytes \<Rightarrow> Writer \<Rightarrow> Writer" where
  "AddFile name data w =
     (let sha = sha1 (object_header ''blob'' data @ data) in
      w\<lparr>w_files := w_files w @ [\<lparr>fr_Name = name, fr_SHA = hex sha, fr_Size = int (length data)\<rparr>]\<rparr>)"

definition ObjectCount :: "Writer \<Rightarrow> int" where
  "ObjectCount w = int (length (w_objects w))"

definition Files :: "Writer \<Rightarrow> FileRef list" where
  "Files w = w_files w"

text \<open>The object header: type and size in variable-length encoding.\<close>

function size_bytes :: "nat \<Rightarrow> 8 word list" where
  "size_bytes sz =
     (if sz > 0 then
        (let b = word_of_nat (sz mod 128); sz' = sz div 128 in
         (if sz' > 0 then b OR 0x80 else b) # size_bytes sz')
      else [])"
  by pat_completeness auto
termination by (relation "measure id") auto

declare size_bytes.simps [simp del]

definition header_bytes :: "ObjectType \<Rightarrow> nat \<Rightarrow> 8 word list" where
  "header_bytes t sz =
     (let first = push_bit 4 t OR word_of_nat (sz mod 16); sz' = sz div 16 in
      (if sz' > 0 then first OR 0x80 else first) # size_bytes sz')"

definition encodeObject :: "(bytes \<Rightarrow> bytes option) \<Rightarrow> Object \<Rightarrow> bytes option" where
  "encodeObject deflate obj =
     map_option (\<lambda>z. map char_of_word (header_bytes (obj_Type obj) (length (obj_Data obj))) @ z)
       (deflate (obj_Data obj))"

datatype pack_error = WriteFailed | EncodingObject

fun write_objects :: "(bytes \<Rightarrow> bytes option) \<Rightarrow> 'w io_write \<Rightarrow> Object list \<Rightarrow> nat \<Rightarrow> bytes \<Rightarrow> 'w \<Rightarrow>
    (nat \<times> (pack_error + bytes)) \<times> 'w" where
  "write_objects deflate write [] tot h s = ((tot, Inr h), s)"
| "write_objects deflate write (obj # objs) tot h s =
     (case encodeObject deflate obj of
        None \<Rightarrow> ((tot, Inl EncodingObject), s)
      | Some objBytes \<Rightarrow>
          (case write s objBytes of ((n, ok), s') \<Rightarrow>
             if \<not> ok then ((tot + n, Inl WriteFailed), s')
             else write_objects deflate write objs (tot + n) (h @ objBytes) s'))"

definition pack_header :: "Writer \<Rightarrow> bytes" where
  "pack_header pw = ''PACK'' @ be32 2 @ be32 (word_of_int (ObjectCount pw))"

text \<open>The hash state \<open>h\<close> is the string of bytes written to it.\<close>

definition WriteTo :: "(bytes \<Rightarrow> bytes option) \<Rightarrow> 'w io_write \<Rightarrow> Writer \<Rightarrow> 'w \<Rightarrow>
    (nat \<times> (pack_error + unit)) \<times> 'w" where
  "WriteTo deflate write pw s0 =
     (case write s0 (pack_header pw) of ((n, ok), s1) \<Rightarrow>
        if \<not> ok then ((n, Inl WriteFailed), s1)
        else (case write_objects deflate write (w_objects pw) n (pack_header pw) s1 of
            ((tot, Inl e), s2) \<Rightarrow> ((tot, Inl e), s2)
          | ((tot, Inr h), s2) \<Rightarrow>
              (case write s2 (sha1 h) of ((n, ok), s3) \<Rightarrow>
                 ((tot + n, if ok then Inr () else Inl WriteFailed), s3))))"

definition Delta :: "bytes list \<Rightarrow> Object list \<Rightarrow> Object list" where
  "Delta have_shas current = filter (\<lambda>obj. obj_SHA obj \<notin> set have_shas) current"

subsection \<open>A reader of the format\<close>

fun read_size :: "bytes \<Rightarrow> (nat \<times> bytes) option" where
  "read_size [] = None"
| "read_size (c # s) =
     (let b = of_char c :: nat in
      if b < 128 then Some (b, s)
      else map_option (\<lambda>(n, s'). (b - 128 + 128 * n, s')) (read_size s))"

text \<open>Type, size and what follows the header.\<close>

definition read_header :: "bytes \<Rightarrow> (nat \<times> nat \<times> bytes) option" where
  "read_header s =
     (case s of [] \<Rightarrow> None
      | c # s' \<Rightarrow>
          let b = of_char c :: nat; t = b div 16 mod 8; low = b mod 16 in
          if b < 128 then Some (t, low, s')
          else map_option (\<lambda>(n, s''). (t, low + 16 * n, s'')) (read_size s'))"

definition read_object :: "(bytes \<Rightarrow> (bytes \<times> bytes) option) \<Rightarrow> bytes \<Rightarrow> ((nat \<times> bytes) \<times> bytes) option" where
  "read_object inflate s =
     (case read_header s of None \<Rightarrow> None
      | Some (t, n, s') \<Rightarrow>
          (case inflate s' of None \<Rightarrow> None
           | Some (data, s'') \<Rightarrow> if length data = n then Some ((t, data), s'') else None))"

fun read_objects :: "(bytes \<Rightarrow> (bytes \<times> bytes) option) \<Rightarrow> nat \<Rightarrow> bytes \<Rightarrow> ((nat \<times> bytes) list \<times> bytes) option" where
  "read_objects inflate 0 s = Some ([], s)"
| "read_objects inflate (Suc n) s =
     (case read_object inflate s of None \<Rightarrow> None
      | Some (obj, s') \<Rightarrow> map_option (\<lambda>(objs, s''). (obj # objs, s'')) (read_objects inflate n s'))"

definition read_pack :: "(bytes \<Rightarrow> (bytes \<times> bytes) option) \<Rightarrow> bytes \<Rightarrow> (nat \<times> bytes) list option" where
  "read_pack inflate s =
     (if take 4 s = ''PACK'' \<and> take 4 (drop 4 s) = be32 2 then
        (case read_objects inflate (unat (word_be32 (take 4 (drop 8 s)))) (drop 12 s) of
           None \<Rightarrow> None
         | Some (objs, trailer) \<Rightarrow>
             if trailer = sha1 (take (length s - 20) s) then Some objs else None)
      else None)"

subsection \<open>Reading what was written\<close>

lemma size_byte: "m < 128 \<Longrightarrow> unat (word_of_nat m OR 0x80 :: 8 word) = 128 + m"
proof -
  have "\<forall>m\<in>set [0..<128]. unat (word_of_nat m OR 0x80 :: 8 word) = 128 + m" by code_simp
  then show "m < 128 \<Longrightarrow> unat (word_of_nat m OR 0x80 :: 8 word) = 128 + m" by simp
qed

lemma unat_small: "m < 256 \<Longrightarrow> unat (word_of_nat m :: 8 word) = m"
  by (simp add: unat_of_nat)

lemma first_byte:
  assumes "unat t < 8" "m < 16"
  shows "unat (push_bit 4 t OR word_of_nat m :: 8 word) = 16 * unat t + m"
proof -
  have all: "\<forall>k\<in>set [0..<8]. \<forall>m\<in>set [0..<16].
      unat (push_bit 4 (word_of_nat k :: 8 word) OR word_of_nat m) = 16 * k + m" by code_simp
  have "t = word_of_nat (unat t)" by simp
  then show ?thesis using all assms by (metis atLeast0LessThan lessThan_iff set_upt)
qed

lemma first_byte_more:
  assumes "unat t < 8" "m < 16"
  shows "unat ((push_bit 4 t OR word_of_nat m) OR 0x80 :: 8 word) = 128 + 16 * unat t + m"
proof -
  have "word_of_nat (16 * unat t + m) = (push_bit 4 t OR word_of_nat m :: 8 word)"
    by (subst first_byte [OF assms, symmetric]) simp
  moreover have "unat (word_of_nat (16 * unat t + m) OR 0x80 :: 8 word) = 128 + (16 * unat t + m)"
    by (rule size_byte) (use assms in linarith)
  ultimately show ?thesis by simp
qed

lemma read_size_bytes: "n > 0 \<Longrightarrow> read_size (map char_of_word (size_bytes n) @ s) = Some (n, s)"
proof (induction n rule: size_bytes.induct)
  case (1 n)
  have m: "n mod 128 < 128" by simp
  show ?case
  proof (cases "n div 128 > 0")
    case True
    then have "n \<ge> 128" by (simp add: div_greater_zero_iff)
    with 1 True show ?thesis
      by (subst size_bytes.simps) (simp add: Let_def of_char_word size_byte)
  next
    case False
    then have "n < 128" by (simp add: div_greater_zero_iff)
    with 1(2) show ?thesis
      by (subst size_bytes.simps) (simp add: Let_def of_char_word unat_small size_bytes.simps [of 0])
  qed
qed

lemma header_arith:
  assumes "t < (8::nat)" "m < 16"
  shows "(16 * t + m) div 16 mod 8 = t" "(16 * t + m) mod 16 = m" "16 * t + m < 128"
    "(128 + 16 * t + m) div 16 mod 8 = t" "(128 + 16 * t + m) mod 16 = m"
proof -
  have e: "16 * t + m = m + 16 * t" "128 + 16 * t + m = m + 16 * (8 + t)" by simp_all
  show "(16 * t + m) div 16 mod 8 = t" "(16 * t + m) mod 16 = m" "16 * t + m < 128"
    "(128 + 16 * t + m) div 16 mod 8 = t" "(128 + 16 * t + m) mod 16 = m"
    unfolding e using assms by (simp_all only: div_mult_self2 mod_mult_self2 div_less mod_less, simp_all)
qed

lemma read_header_bytes:
  assumes "unat t < 8"
  shows "read_header (map char_of_word (header_bytes t n) @ s) = Some (unat t, n, s)"
proof (cases "n div 16 > 0")
  case True
  have m: "n mod 16 < 16" by simp
  have "unat ((push_bit 4 t OR word_of_nat (n mod 16)) OR 0x80 :: 8 word) = 128 + 16 * unat t + n mod 16"
    by (rule first_byte_more [OF assms m])
  then show ?thesis
    using True read_size_bytes [OF True, of s] header_arith [OF assms m]
    by (simp add: header_bytes_def read_header_def Let_def of_char_word)
next
  case False
  then have n: "n < 16" by (simp add: div_greater_zero_iff)
  have "unat (push_bit 4 t OR word_of_nat n :: 8 word) = 16 * unat t + n" by (rule first_byte [OF assms n])
  then show ?thesis
    using n header_arith [OF assms n] by (simp add: header_bytes_def read_header_def Let_def of_char_word size_bytes.simps [of 0])
qed

text \<open>What the writer relies on from \<open>compress/zlib\<close>: into a buffer it does not fail, and a
  decompressor recovers the data and stops at the end of the compressed stream.\<close>

definition zlib_ok :: "(bytes \<Rightarrow> bytes option) \<Rightarrow> (bytes \<Rightarrow> (bytes \<times> bytes) option) \<Rightarrow> bool" where
  "zlib_ok deflate inflate \<longleftrightarrow>
     (\<forall>d. deflate d \<noteq> None) \<and> (\<forall>d z s. deflate d = Some z \<longrightarrow> inflate (z @ s) = Some (d, s))"

abbreviation decoded :: "Object \<Rightarrow> nat \<times> bytes" where
  "decoded obj \<equiv> (unat (obj_Type obj), obj_Data obj)"

lemma read_object_encoded:
  assumes "zlib_ok deflate inflate" "unat (obj_Type obj) < 8" "encodeObject deflate obj = Some b"
  shows "read_object inflate (b @ s) = Some (decoded obj, s)"
  using assms by (auto simp: encodeObject_def read_object_def read_header_bytes zlib_ok_def)

text \<open>Writing objects into a buffer appends an encoding of them to the buffer and to the hash.\<close>

lemma write_objects_buffer:
  assumes "zlib_ok deflate inflate" "list_all (\<lambda>obj. unat (obj_Type obj) < 8) objs"
  shows "\<exists>enc. (\<forall>tot h s. write_objects deflate buffer_write objs tot h s =
                  ((tot + length enc, Inr (h @ enc)), s @ enc)) \<and>
               (\<forall>t. read_objects inflate (length objs) (enc @ t) = Some (map decoded objs, t))"
  using assms(2)
proof (induction objs)
  case (Cons obj objs)
  then have "list_all (\<lambda>obj. unat (obj_Type obj) < 8) objs" by simp
  from Cons.IH [OF this] obtain enc where
    w: "\<And>tot h s. write_objects deflate buffer_write objs tot h s = ((tot + length enc, Inr (h @ enc)), s @ enc)"
    and r: "\<And>t. read_objects inflate (length objs) (enc @ t) = Some (map decoded objs, t)" by blast
  obtain b where b: "encodeObject deflate obj = Some b"
    using assms(1) by (fastforce simp: zlib_ok_def encodeObject_def)
  have "unat (obj_Type obj) < 8" using Cons.prems by simp
  note ro = read_object_encoded [OF assms(1) this b]
  show ?case
    by (rule exI [of _ "b @ enc"]) (simp add: b w ro r buffer_write_app [of _ b])
qed simp

lemma WriteTo_read:
  assumes "zlib_ok deflate inflate" "list_all (\<lambda>obj. unat (obj_Type obj) < 8) (w_objects pw)"
    and "length (w_objects pw) < 2 ^ 32"
  shows "case WriteTo deflate buffer_write pw [] of ((tot, r), s) \<Rightarrow>
    r = Inr () \<and> tot = length s \<and> read_pack inflate s = Some (map decoded (w_objects pw))"
proof -
  obtain enc where
    w: "\<And>tot h s. write_objects deflate buffer_write (w_objects pw) tot h s =
          ((tot + length enc, Inr (h @ enc)), s @ enc)"
    and r: "\<And>t. read_objects inflate (length (w_objects pw)) (enc @ t) = Some (map decoded (w_objects pw), t)"
    using write_objects_buffer [OF assms(1,2)] by blast
  let ?n = "word_of_int (ObjectCount pw) :: 32 word"
  let ?s = "pack_header pw @ enc"
  have hd: "take 4 (pack_header pw @ x) = ''PACK''" "take 4 (drop 4 (pack_header pw @ x)) = be32 2"
    "take 4 (drop 8 (pack_header pw @ x)) = be32 ?n" "drop 12 (pack_header pw @ x) = x" for x
    by (simp_all add: pack_header_def)
  have n: "unat (word_be32 (be32 ?n)) = length (w_objects pw)"
    using assms(3) by (simp add: ObjectCount_def unat_of_nat)
  have "WriteTo deflate buffer_write pw [] = ((length (?s @ sha1 ?s), Inr ()), ?s @ sha1 ?s)"
    by (simp add: WriteTo_def w buffer_write_app [of _ "pack_header pw"] buffer_write_app [of _ "sha1 ?s"])
  moreover have "read_pack inflate (?s @ sha1 ?s) = Some (map decoded (w_objects pw))"
    unfolding read_pack_def append_assoc hd n r by simp
  ultimately show ?thesis by simp
qed

text \<open>C6: Whatever objects a packfile writer holds, \<open>WriteTo\<close> into a buffer succeeds, reports the
  number of bytes it wrote, and what it wrote is a packfile of those objects: a reader of the
  format, checking magic, version, count, every variable-length size and the SHA-1 trailer, gets
  back the type and the data of each object in order.\<close>

theorem pack_roundtrip:
  assumes "zlib_ok deflate inflate" "list_all (\<lambda>obj. unat (obj_Type obj) < 8) (w_objects pw)"
    and "length (w_objects pw) < 2 ^ 32"
  shows "case WriteTo deflate buffer_write pw [] of ((tot, r), s) \<Rightarrow>
    r = Inr () \<and> tot = length s \<and> read_pack inflate s = Some (map decoded (w_objects pw))"
  by (rule WriteTo_read [OF assms])

text \<open>A compressor with the documented behaviour, for the examples: every byte is marked.\<close>

fun mark :: "bytes \<Rightarrow> bytes" where
  "mark [] = [NUL]"
| "mark (c # s) = CHR 0x01 # c # mark s"

fun unmark :: "bytes \<Rightarrow> (bytes \<times> bytes) option" where
  "unmark (m # s) =
     (if m = NUL then Some ([], s)
      else (case s of [] \<Rightarrow> None | c # s' \<Rightarrow> map_option (\<lambda>(d, t). (c # d, t)) (unmark s')))"
| "unmark [] = None"

lemma unmark_mark: "unmark (mark d @ s) = Some (d, s)"
  by (induction d) auto

lemma mark_ok: "zlib_ok (\<lambda>d. Some (mark d)) unmark"
  by (simp add: zlib_ok_def unmark_mark)

definition demo_pack :: Writer where
  "demo_pack = snd (AddTree [\<lparr>te_Mode = ''100644'', te_Name = ''a'', te_SHA = sha1 ''x''\<rparr>]
     (snd (AddBlob ''hello world, hello world'' (snd (AddBlob [] NewWriter)))))"

theorem pack_roundtrip_witness:
  "(case WriteTo (\<lambda>d. Some (mark d)) buffer_write demo_pack [] of ((tot, r), s) \<Rightarrow>
     r = Inr () \<and> tot = length s \<and> read_pack unmark s = Some (map decoded (w_objects demo_pack))) \<and>
   length (w_objects demo_pack) = 3"
proof -
  have "list_all (\<lambda>obj. unat (obj_Type obj) < 8) (w_objects demo_pack)" "length (w_objects demo_pack) = 3"
    by (simp_all add: demo_pack_def AddTree_def AddBlob_def NewWriter_def ObjectBlob_def ObjectTree_def Let_def)
  with pack_roundtrip [OF mark_ok, of demo_pack] show ?thesis by simp
qed

subsection \<open>Objects, trees and deltas\<close>

text \<open>Git's format of a tree: mode, name, and 20 bytes of object name, entry after entry.\<close>

function read_tree :: "bytes \<Rightarrow> TreeEntry list option" where
  "read_tree s =
     (if s = [] then Some []
      else
        let mode = takeWhile (\<lambda>c. c \<noteq> SPC) s; s1 = drop (Suc (length mode)) s;
            name = takeWhile (\<lambda>c. c \<noteq> NUL) s1; s2 = drop (Suc (length name)) s1
        in map_option (\<lambda>es. \<lparr>te_Mode = mode, te_Name = name, te_SHA = take 20 s2\<rparr> # es)
             (read_tree (drop 20 s2)))"
  by pat_completeness auto
termination by (relation "measure length") auto

declare read_tree.simps [simp del]

definition entry_ok :: "TreeEntry \<Rightarrow> bool" where
  "entry_ok e \<longleftrightarrow> SPC \<notin> set (te_Mode e) \<and> NUL \<notin> set (te_Name e) \<and> length (te_SHA e) = 20"

lemma read_tree_data: "list_all entry_ok es \<Longrightarrow> read_tree (tree_data es) = Some es"
proof (induction es)
  case (Cons e es)
  let ?s = "tree_data (e # es)"
  have s: "?s = te_Mode e @ SPC # te_Name e @ NUL # te_SHA e @ tree_data es" by simp
  have m: "takeWhile (\<lambda>c. c \<noteq> SPC) ?s = te_Mode e"
    and n: "takeWhile (\<lambda>c. c \<noteq> NUL) (te_Name e @ NUL # te_SHA e @ tree_data es) = te_Name e"
    and sha: "length (te_SHA e) = 20"
    using Cons.prems unfolding s by (simp_all add: entry_ok_def takeWhile_upto)
  have d: "drop (Suc (length (te_Mode e))) ?s = te_Name e @ NUL # te_SHA e @ tree_data es"
    "drop (Suc (length (te_Name e))) (te_Name e @ NUL # te_SHA e @ tree_data es) = te_SHA e @ tree_data es"
    "take 20 (te_SHA e @ tree_data es) = te_SHA e" "drop 20 (te_SHA e @ tree_data es) = tree_data es"
    using sha by simp_all
  have "?s \<noteq> []" by simp
  then have "read_tree ?s = map_option (\<lambda>es. e # es) (read_tree (tree_data es))"
    by (subst read_tree.simps) (simp only: Let_def m n d if_False, cases e, simp)
  with Cons show ?case by simp
qed (simp add: read_tree.simps)

text \<open>A tree object determines its entries: as long as modes have no blank, names no NUL byte and
  object names 20 bytes, the data \<open>AddTree\<close> stores can be taken apart into exactly the entries it
  was given, and it is named by the SHA-1 of git's header followed by that data.\<close>

theorem tree_object_roundtrip:
  assumes "list_all entry_ok es"
  shows "case AddTree es w of (sha, w') \<Rightarrow> \<exists>obj. w_objects w' = w_objects w @ [obj] \<and>
    read_tree (obj_Data obj) = Some es \<and> obj_Type obj = ObjectTree \<and> obj_SHA obj = sha \<and>
    sha = sha1 (''tree '' @ show_nat (length (obj_Data obj)) @ [NUL] @ obj_Data obj)"
  using read_tree_data [OF assms] by (simp add: AddTree_def Let_def object_header_def)

theorem tree_object_roundtrip_witness:
  "case AddTree [\<lparr>te_Mode = ''100644'', te_Name = ''a b'', te_SHA = replicate 20 SPC\<rparr>] NewWriter of
     (sha, w') \<Rightarrow> \<exists>obj. w_objects w' = w_objects NewWriter @ [obj] \<and>
       read_tree (obj_Data obj) = Some [\<lparr>te_Mode = ''100644'', te_Name = ''a b'', te_SHA = replicate 20 SPC\<rparr>] \<and>
       obj_Type obj = ObjectTree \<and> obj_SHA obj = sha \<and>
       sha = sha1 (''tree '' @ show_nat (length (obj_Data obj)) @ [NUL] @ obj_Data obj)"
  by (rule tree_object_roundtrip) (simp add: entry_ok_def)

text \<open>\<open>Delta\<close> sends what is missing and nothing else: no object the receiver has, in the order of
  the current set, and afterwards the receiver has every object of it.\<close>

theorem delta_completes:
  "set (map obj_SHA (Delta hs objs)) \<inter> set hs = {} \<and>
   set (map obj_SHA objs) \<subseteq> set hs \<union> set (map obj_SHA (Delta hs objs)) \<and>
   subseq (Delta hs objs) objs \<and> Delta (hs @ map obj_SHA (Delta hs objs)) objs = []"
  by (auto simp: Delta_def filter_empty_conv)

end
