(* ===== verification/Content.thy ===== *)
theory Content
  imports Go_Path Packfile Config_Data
begin

text \<open>
  \<open>receive-pack\<close> from the content root (\<open>buildPackfile\<close> and \<open>receivePack\<close> of
  \<open>internal/commands/handler.go\<close>).  The file system is a tree: a file carries its contents
  (\<open>None\<close> when it cannot be read), a directory its entries in the order \<open>filepath.Walk\<close> visits
  them, which is lexical.  Symbolic links and changes during a request are not modelled.
\<close>

subsection \<open>The file system\<close>

datatype node = File "bytes option" | Dir "(string \<times> node) list"

record fs =
  fs_wd :: string
  fs_root :: node

fun get_node :: "node \<Rightarrow> string list \<Rightarrow> node option" where
  "get_node n [] = Some n"
| "get_node (Dir ch) (c # cs) = (case map_of ch c of None \<Rightarrow> None | Some n \<Rightarrow> get_node n cs)"
| "get_node (File b) (c # cs) = None"

text \<open>\<open>os.Stat\<close> and \<open>os.ReadFile\<close> on a path.\<close>

definition stat_path :: "fs \<Rightarrow> string \<Rightarrow> node option" where
  "stat_path fs p = get_node (fs_root fs) (clean_parts (Abs (fs_wd fs) p))"

text \<open>\<open>filepath.Walk\<close> from a node: every node below it, each directory before its entries.\<close>

fun walk_node :: "string \<Rightarrow> node \<Rightarrow> (string \<times> node) list" where
  "walk_node p (File b) = [(p, File b)]"
| "walk_node p (Dir ch) = (p, Dir ch) # concat (map (\<lambda>e. walk_node (path_Join p (fst e)) (snd e)) ch)"

subsection \<open>Building the packfile\<close>

datatype content_error =
    NoContentRoot
  | OutsideRoot
  | ContentNotFound string
  | ReadingContent
  | ReadingFile
  | WritingPackfile pack_error

text \<open>The callback of the walk; it stops at the first file that cannot be read.\<close>

fun pack_files :: "string \<Rightarrow> (string \<times> node) list \<Rightarrow> Writer \<Rightarrow> content_error + Writer" where
  "pack_files absContent [] pw = Inr pw"
| "pack_files absContent ((path, Dir ch) # xs) pw = pack_files absContent xs pw"
| "pack_files absContent ((path, File None) # xs) pw = Inl ReadingContent"
| "pack_files absContent ((path, File (Some data)) # xs) pw =
     (let relPath = (case Rel absContent path of None \<Rightarrow> [] | Some r \<Rightarrow> r) in
      pack_files absContent xs (AddFile relPath data (snd (AddBlob data pw))))"

definition content_path :: "string \<Rightarrow> string \<Rightarrow> string" where
  "content_path root route = (if route \<noteq> ''/'' then path_Join root (Clean route) else root)"

definition buildPackfile :: "fs \<Rightarrow> SiteConfig \<Rightarrow> string list \<Rightarrow> content_error + Writer" where
  "buildPackfile fs site args =
     (let route = (case args of [] \<Rightarrow> ''/'' | a # _ \<Rightarrow> a); root = Root site in
      if root = [] then Inl NoContentRoot
      else
        let absRoot = Abs (fs_wd fs) root;
            absContent = Abs (fs_wd fs) (content_path root route)
        in if \<not> HasPrefix absContent absRoot then Inl OutsideRoot
           else (case stat_path fs absContent of
                   None \<Rightarrow> Inl (ContentNotFound route)
                 | Some (Dir ch) \<Rightarrow> pack_files absContent (walk_node absContent (Dir ch)) NewWriter
                 | Some (File None) \<Rightarrow> Inl ReadingFile
                 | Some (File (Some data)) \<Rightarrow>
                     Inr (AddFile (Base absContent) data (snd (AddBlob data NewWriter)))))"

text \<open>The text form: a summary of the packfile.\<close>

definition file_line :: "FileRef \<Rightarrow> string" where
  "file_line f = ''  blob '' @ take 7 (fr_SHA f) @ ''  '' @ fr_Name f @ '' ('' @ show_int (fr_Size f) @ '' bytes)'' @ [LF]"

definition pack_summary :: "Writer \<Rightarrow> bytes \<Rightarrow> string" where
  "pack_summary pw buf =
     ''PACK v2 ('' @ show_int (ObjectCount pw) @ '' objects, '' @ show_int (int (length buf)) @ '' bytes)'' @ [LF] @
     ''checksum: '' @ hex (drop (length buf - 20) buf) @ [LF] @
     [LF] @ ''Objects:'' @ [LF] @ concat (map file_line (Files pw))"

definition receivePack :: "(bytes \<Rightarrow> bytes option) \<Rightarrow> fs \<Rightarrow> SiteConfig \<Rightarrow> string list \<Rightarrow> content_error + string" where
  "receivePack deflate fs site args =
     (case buildPackfile fs site args of
        Inl e \<Rightarrow> Inl e
      | Inr pw \<Rightarrow>
          (case WriteTo deflate buffer_write pw [] of
             ((n, Inl e), buf) \<Rightarrow> Inl (WritingPackfile e)
           | ((n, Inr _), buf) \<Rightarrow> Inr (pack_summary pw buf)))"

subsection \<open>Containment\<close>

lemma get_node_append: "get_node n (xs @ ys) = (case get_node n xs of None \<Rightarrow> None | Some m \<Rightarrow> get_node m ys)"
  by (induction n xs rule: get_node.induct) (auto split: option.splits)

lemma stat_abs_path: "list_all name_ok cs \<Longrightarrow> stat_path fs (abs_path cs) = get_node (fs_root fs) cs"
  by (simp add: stat_path_def Abs_def Clean_abs_path clean_parts_abs_path)

text \<open>Where a route leads: from the root, by the components of the route.\<close>

definition route_leads :: "fs \<Rightarrow> string \<Rightarrow> string \<Rightarrow> string list" where
  "route_leads fs root route =
     rev (foldl (clean_step True) (rev (leads_to (fs_wd fs) root)) (if route = ''/'' then [] else Split (Clean route) CHR ''/''))"

lemma content_path_leads:
  assumes "is_abs (fs_wd fs)" "root \<noteq> []"
  shows "Abs (fs_wd fs) (content_path root route) = abs_path (route_leads fs root route)"
  using assms by (simp add: content_path_def route_leads_def Abs_leads_to leads_to_Join)

lemma route_leads_ok: "is_abs (fs_wd fs) \<Longrightarrow> list_all name_ok (route_leads fs root route)"
  unfolding route_leads_def
  using rooted_stack_ok [OF _ Split_free_parts, of "rev (leads_to (fs_wd fs) root)"] leads_to_ok [of "fs_wd fs" root]
  by auto

lemma abs_route_leads:
  assumes "is_abs route"
  shows "route_leads fs root route = leads_to (fs_wd fs) root @ clean_parts route"
proof -
  have c: "Clean route = abs_path (clean_parts route)" using assms by (simp add: Clean_def)
  have "clean_parts ''/'' = []" by code_simp
  then show ?thesis
    using clean_abs_path_parts [OF clean_parts_ok [OF assms]] by (auto simp: route_leads_def c)
qed

text \<open>The packfile as a function of the node it is built from.\<close>

definition pack_node :: "string \<Rightarrow> node option \<Rightarrow> string \<Rightarrow> content_error + Writer" where
  "pack_node absContent n route =
     (case n of
        None \<Rightarrow> Inl (ContentNotFound route)
      | Some (Dir ch) \<Rightarrow> pack_files absContent (walk_node absContent (Dir ch)) NewWriter
      | Some (File None) \<Rightarrow> Inl ReadingFile
      | Some (File (Some data)) \<Rightarrow> Inr (AddFile (Base absContent) data (snd (AddBlob data NewWriter))))"

lemma buildPackfile_node:
  assumes "is_abs (fs_wd fs)" "Root site \<noteq> []"
  shows "buildPackfile fs site [route] =
    (let p = route_leads fs (Root site) route in
     if HasPrefix (abs_path p) (abs_path (leads_to (fs_wd fs) (Root site)))
     then pack_node (abs_path p) (get_node (fs_root fs) p) route else Inl OutsideRoot)"
  using assms content_path_leads [OF assms] stat_abs_path [OF route_leads_ok [OF assms(1)]]
  by (simp add: buildPackfile_def Let_def pack_node_def Abs_leads_to)

lemma buildPackfile_no_args: "buildPackfile fs site [] = buildPackfile fs site [''/'']"
  by (simp add: buildPackfile_def)

lemma abs_path_prefix: "HasPrefix (abs_path (rs @ cs)) (abs_path rs)"
proof (cases "rs = [] \<or> cs = []")
  case True
  then show ?thesis by (auto simp: abs_path_def HasPrefix_def)
next
  case False
  have "Join (xs @ ys) s = Join xs s @ s @ Join ys s" if "xs \<noteq> []" "ys \<noteq> []" for xs ys :: "string list" and s
    using that by (induction xs s rule: Join.induct) (auto simp: Join_Cons)
  with False show ?thesis by (auto simp: abs_path_def HasPrefix_iff)
qed

text \<open>C8: What \<open>receive-pack\<close> delivers for a route that begins with a slash depends on nothing outside
  the content root: on two file systems that agree below the root, and differ in any way elsewhere,
  it gives the same packfile or the same error, however many \<open>..\<close> the route has.\<close>

theorem absolute_routes_contained:
  assumes "is_abs (fs_wd fs)" "fs_wd fs' = fs_wd fs" "args = [] \<or> is_abs (hd args)"
    and "get_node (fs_root fs) (leads_to (fs_wd fs) (Root site)) = get_node (fs_root fs') (leads_to (fs_wd fs) (Root site))"
  shows "buildPackfile fs site args = buildPackfile fs' site args"
proof (cases "Root site = []")
  case False
  obtain route where route: "is_abs route" "\<And>f. buildPackfile f site args = buildPackfile f site [route]"
  proof (cases args)
    case Nil
    then show ?thesis using that [of "''/''"] by (simp add: buildPackfile_no_args)
  next
    case (Cons a as)
    then show ?thesis using that [of a] assms(3) by (simp add: buildPackfile_def)
  qed
  have l: "route_leads f (Root site) route = leads_to (fs_wd f) (Root site) @ clean_parts route" for f
    by (rule abs_route_leads [OF route(1)])
  have "get_node (fs_root fs) (leads_to (fs_wd fs) (Root site) @ clean_parts route) =
      get_node (fs_root fs') (leads_to (fs_wd fs) (Root site) @ clean_parts route)"
    using assms(4) by (simp add: get_node_append)
  then show ?thesis
    unfolding route(2) using assms(1,2) False
    by (simp add: buildPackfile_node l abs_path_prefix)
qed (simp add: buildPackfile_def Let_def)

text \<open>The prefix test does not stop at a path separator: for every directory next to the content
  root whose name extends the root's own name (\<open>www-secret\<close> beside \<open>www\<close>), a route that begins with
  \<open>..\<close> leads into it, and everything in it is delivered.\<close>

theorem sibling_directory_escapes:
  assumes wd: "is_abs (fs_wd fs)" and root: "Root site \<noteq> []" "leads_to (fs_wd fs) (Root site) = rs @ [w]"
    and sib: "name_ok (w @ suf)" "list_all name_ok cs"
  shows "buildPackfile fs site [''../'' @ Join ((w @ suf) # cs) ''/''] =
    pack_node (abs_path (rs @ (w @ suf) # cs)) (get_node (fs_root fs) (rs @ (w @ suf) # cs))
      (''../'' @ Join ((w @ suf) # cs) ''/'')"
proof -
  let ?route = "''../'' @ Join ((w @ suf) # cs) ''/''"
  have ok: "name_ok w" "list_all name_ok rs" using leads_to_ok [OF wd, of "Root site"] root(2) by simp_all
  have sp: "Split ?route CHR ''/'' = ''..'' # (w @ suf) # cs"
    using Split_append [of "CHR ''/''" "''..''" "Join ((w @ suf) # cs) ''/''"] Split_Join_names [of "(w @ suf) # cs"] sib
    by simp
  have f: "foldl (clean_step True) (w # rev rs) (''..'' # (w @ suf) # cs) = rev cs @ (w @ suf) # rev rs"
    using ok clean_names [OF sib(2), of True] sib(1) by (simp add: name_ok_def)
  have l: "route_leads fs (Root site) ?route = rs @ (w @ suf) # cs"
  proof -
    have rel: "\<not> is_abs ?route" and "?route \<noteq> ''/''" by simp_all
    moreover have "rev (leads_to (fs_wd fs) (Root site)) = w # rev rs" by (simp add: root(2))
    ultimately have "route_leads fs (Root site) ?route = rev (foldl (clean_step True) (w # rev rs) (Split ?route CHR ''/''))"
      unfolding route_leads_def by (simp only: if_False Split_Clean_rel [OF rel])
    also have "\<dots> = rev (rev cs @ (w @ suf) # rev rs)" unfolding sp using f by (rule arg_cong)
    finally show ?thesis by simp
  qed
  have "Join (rs @ (w @ suf) # cs) ''/'' = Join (rs @ [w]) ''/'' @ suf @ (if cs = [] then [] else ''/'' @ Join cs ''/'')"
    by (induction rs "''/''" rule: Join.induct) (cases cs; simp add: Join_Cons)+
  then have "HasPrefix (abs_path (rs @ (w @ suf) # cs)) (abs_path (rs @ [w]))"
    by (simp add: abs_path_def HasPrefix_iff)
  then show ?thesis
    using buildPackfile_node [OF wd root(1), of ?route] by (simp only: l root(2) Let_def if_True)
qed

definition demo_fs :: fs where
  "demo_fs = \<lparr>fs_wd = ''/'', fs_root = Dir [(''srv'', Dir
     [(''www'', Dir [(''a'', Dir [(''b.html'', File (Some ''bb''))]), (''index.html'', File (Some ''hi''))]),
      (''www-secret'', Dir [(''key'', File (Some ''s3cret''))])])]\<rparr>"

definition demo_site :: SiteConfig where
  "demo_site = zero_SiteConfig\<lparr>Root := ''/srv/www''\<rparr>"

lemma demo_root: "leads_to (fs_wd demo_fs) (Root demo_site) = [''srv'', ''www'']" "is_abs (fs_wd demo_fs)"
  "Root demo_site \<noteq> []"
  by (simp_all add: demo_site_def demo_fs_def zero_SiteConfig_def leads_to_def clean_parts_def)

theorem sibling_directory_escapes_witness:
  "\<exists>pw. buildPackfile demo_fs demo_site [''../www-secret/key''] = Inr pw \<and> map obj_Data (w_objects pw) = [''s3cret'']"
proof -
  have "leads_to (fs_wd demo_fs) (Root demo_site) = [''srv''] @ [''www'']" by (simp add: demo_root)
  moreover have "name_ok (''www'' @ ''-secret'')" "list_all name_ok [''key'']" by (simp_all add: name_ok_def)
  ultimately have "buildPackfile demo_fs demo_site [''../'' @ Join ((''www'' @ ''-secret'') # [''key'']) ''/''] =
      pack_node (abs_path ([''srv''] @ (''www'' @ ''-secret'') # [''key'']))
        (get_node (fs_root demo_fs) ([''srv''] @ (''www'' @ ''-secret'') # [''key'']))
        (''../'' @ Join ((''www'' @ ''-secret'') # [''key'']) ''/'')"
    by (rule sibling_directory_escapes [OF demo_root(2,3)])
  then show ?thesis
    by (simp add: pack_node_def demo_fs_def AddFile_def AddBlob_def NewWriter_def Let_def)
qed

theorem absolute_routes_contained_witness:
  "buildPackfile demo_fs demo_site [''/../www-secret/key''] =
   buildPackfile (demo_fs\<lparr>fs_root := Dir [(''srv'', Dir [(''www'', Dir
     [(''a'', Dir [(''b.html'', File (Some ''bb''))]), (''index.html'', File (Some ''hi''))])])]\<rparr>)
     demo_site [''/../www-secret/key'']"
  by (rule absolute_routes_contained) (simp_all add: demo_root, simp add: demo_fs_def)

subsection \<open>What is delivered\<close>

fun nodes_below :: "node \<Rightarrow> (string list \<times> node) list" where
  "nodes_below (File b) = [([], File b)]"
| "nodes_below (Dir ch) = ([], Dir ch) # concat (map (\<lambda>e. map (\<lambda>(cs, n). (fst e # cs, n)) (nodes_below (snd e))) ch)"

text \<open>The names of a tree are component names.\<close>

fun names_ok :: "node \<Rightarrow> bool" where
  "names_ok (File b) = True"
| "names_ok (Dir ch) = list_all (\<lambda>e. name_ok (fst e) \<and> names_ok (snd e)) ch"

lemma Join_name:
  assumes "list_all name_ok p" "name_ok c"
  shows "path_Join (abs_path p) c = abs_path (p @ [c])"
proof -
  have c: "CHR ''/'' \<notin> set c" "\<not> is_abs c" using assms(2) by (cases c; auto simp: name_ok_def)+
  have a: "is_abs (abs_path p @ CHR ''/'' # c)" by (simp add: is_abs_append abs_path_def)
  have "clean_parts (abs_path p @ CHR ''/'' # c) = p @ [c]"
    using clean_parts_append [of "abs_path p" c] clean_parts_abs_path [OF assms(1)] Split_free [OF c(1)] assms(2)
    by (simp add: name_ok_def)
  then show ?thesis using a by (simp add: path_Join_def Clean_def abs_path_def)
qed

lemma walk_node_below:
  "names_ok n \<Longrightarrow> list_all name_ok p \<Longrightarrow>
   walk_node (abs_path p) n = map (\<lambda>(cs, m). (abs_path (p @ cs), m)) (nodes_below n)"
proof (induction n arbitrary: p)
  case (Dir ch)
  have "walk_node (path_Join (abs_path p) (fst e)) (snd e) =
      map (\<lambda>(cs, m). (abs_path (p @ fst e # cs), m)) (nodes_below (snd e))" if "e \<in> set ch" for e
    using Dir.IH [of e "snd e" "p @ [fst e]"] Dir.prems that Join_name [OF Dir.prems(2), of "fst e"]
    by (cases e) (auto simp: list_all_iff)
  then show ?case
    by (simp add: map_concat comp_def case_prod_unfold cong: map_cong)
qed simp

lemma rel_parts_below: "rel_parts p (p @ cs) = Some cs"
  by (induction p) auto

lemma Rel_below:
  assumes "list_all name_ok p" "list_all name_ok cs" "cs \<noteq> []"
  shows "Rel (abs_path p) (abs_path (p @ cs)) = Some (Join cs ''/'')"
  using assms by (simp add: Rel_def clean_parts_abs_path rel_parts_below)

definition blob_of :: "bytes \<Rightarrow> Object" where
  "blob_of d = \<lparr>obj_Type = ObjectBlob, obj_Data = d, obj_SHA = sha1 (object_header ''blob'' d @ d)\<rparr>"

definition file_ref :: "string \<Rightarrow> bytes \<Rightarrow> FileRef" where
  "file_ref name d = \<lparr>fr_Name = name, fr_SHA = hex (sha1 (object_header ''blob'' d @ d)), fr_Size = int (length d)\<rparr>"

fun readable_files :: "(string list \<times> node) list \<Rightarrow> (string list \<times> bytes) list" where
  "readable_files [] = []"
| "readable_files ((cs, File (Some d)) # xs) = (cs, d) # readable_files xs"
| "readable_files ((cs, File None) # xs) = readable_files xs"
| "readable_files ((cs, Dir ch) # xs) = readable_files xs"

lemma pack_files_below:
  assumes "list_all name_ok p" "\<And>cs m. (cs, m) \<in> set xs \<Longrightarrow> list_all name_ok cs \<and> (cs = [] \<longrightarrow> (\<exists>ch. m = Dir ch))"
    and "pack_files (abs_path p) (map (\<lambda>(cs, m). (abs_path (p @ cs), m)) xs) w = Inr w'"
  shows "w_objects w' = w_objects w @ map (blob_of \<circ> snd) (readable_files xs) \<and>
    w_files w' = w_files w @ map (\<lambda>(cs, d). file_ref (Join cs ''/'') d) (readable_files xs) \<and>
    (\<forall>cs m. (cs, m) \<in> set xs \<longrightarrow> m \<noteq> File None)"
  using assms(2,3)
proof (induction xs arbitrary: w rule: readable_files.induct)
  case (2 cs d xs)
  have r: "Rel (abs_path p) (abs_path (p @ cs)) = Some (Join cs ''/'')"
    using "2.prems"(1) [of cs "File (Some d)"] by (intro Rel_below [OF assms(1)]) auto
  note below = "2.prems"(1) [OF list.set_intros(2)]
  have "pack_files (abs_path p) (map (\<lambda>(cs, m). (abs_path (p @ cs), m)) xs)
      (AddFile (Join cs ''/'') d (snd (AddBlob d w))) = Inr w'"
    using "2.prems"(2) r by (simp add: Let_def del: Join.simps)
  note ih = "2.IH" [OF below this]
  have "w_objects (AddFile (Join cs ''/'') d (snd (AddBlob d w))) = w_objects w @ [blob_of d]"
    "w_files (AddFile (Join cs ''/'') d (snd (AddBlob d w))) = w_files w @ [file_ref (Join cs ''/'') d]"
    by (simp_all add: AddFile_def AddBlob_def Let_def blob_of_def file_ref_def)
  with ih show ?case by auto
next
  case (3 cs xs)
  from "3.prems"(2) show ?case by simp
next
  case (4 cs ch xs)
  note below = "4.prems"(1) [OF list.set_intros(2)]
  from "4.IH" [OF below] "4.prems"(2) show ?case by simp
qed simp

lemma nodes_below_names:
  "names_ok n \<Longrightarrow> (cs, m) \<in> set (nodes_below n) \<Longrightarrow> list_all name_ok cs \<and> (cs = [] \<longrightarrow> m = n)"
proof (induction n arbitrary: cs)
  case (Dir ch)
  show ?case
  proof (cases cs)
    case (Cons c ds)
    then obtain e where "e \<in> set ch" "c = fst e" "(ds, m) \<in> set (nodes_below (snd e))" using Dir.prems(2) by auto
    with Dir.IH [of e "snd e" ds] Dir.prems(1) Cons show ?thesis by (cases e) (auto simp: list_all_iff)
  qed (use Dir.prems in auto)
qed auto

lemma get_node_names: "names_ok n \<Longrightarrow> get_node n cs = Some m \<Longrightarrow> names_ok m"
proof (induction n cs rule: get_node.induct)
  case (2 ch c cs)
  then obtain k where k: "map_of ch c = Some k" "get_node k cs = Some m" by (auto split: option.splits)
  then have "(c, k) \<in> set ch" by (simp add: map_of_SomeD)
  then have "names_ok k" using "2.prems"(1) by (force simp: list_all_iff)
  with 2 k show ?case by simp
qed auto

lemma directory_packfile:
  assumes wd: "is_abs (fs_wd fs)" and names: "names_ok (fs_root fs)"
    and dir: "get_node (fs_root fs) (route_leads fs (Root site) route) = Some (Dir ch)"
    and pw: "buildPackfile fs site [route] = Inr pw"
  defines "files \<equiv> readable_files (nodes_below (Dir ch))"
  shows "w_objects pw = map (blob_of \<circ> snd) files \<and> w_files pw = map (\<lambda>(cs, d). file_ref (Join cs ''/'') d) files"
proof -
  let ?p = "route_leads fs (Root site) route"
  have n: "names_ok (Dir ch)" by (rule get_node_names [OF names dir])
  have p: "list_all name_ok ?p" by (rule route_leads_ok [OF wd])
  have "Root site \<noteq> []" using pw by (auto simp: buildPackfile_def Let_def)
  from buildPackfile_node [OF wd this, of route] pw dir
  have "pack_files (abs_path ?p) (walk_node (abs_path ?p) (Dir ch)) NewWriter = Inr pw"
    by (auto simp: Let_def pack_node_def split: if_splits)
  then have "pack_files (abs_path ?p) (map (\<lambda>(cs, m). (abs_path (?p @ cs), m)) (nodes_below (Dir ch))) NewWriter = Inr pw"
    by (simp only: walk_node_below [OF n p])
  moreover have "list_all name_ok cs \<and> (cs = [] \<longrightarrow> (\<exists>ch. m = Dir ch))" if "(cs, m) \<in> set (nodes_below (Dir ch))" for cs m
    using nodes_below_names [OF n that] by blast
  ultimately have "w_objects pw = w_objects NewWriter @ map (blob_of \<circ> snd) files \<and>
      w_files pw = w_files NewWriter @ map (\<lambda>(cs, d). file_ref (Join cs ''/'') d) files"
    using pack_files_below [OF p] unfolding files_def by blast
  then show ?thesis by (simp add: NewWriter_def)
qed

text \<open>A route that leads to a directory delivers that directory: when \<open>receive-pack\<close> succeeds, the
  packfile it sends, read back by a reader of the format, holds exactly the contents of the files
  below the directory, in the order of the walk, and the summary lists them by their paths relative
  to it.\<close>

theorem directory_delivered:
  assumes "is_abs (fs_wd fs)" "names_ok (fs_root fs)"
    and "get_node (fs_root fs) (route_leads fs (Root site) route) = Some (Dir ch)"
    and "buildPackfile fs site [route] = Inr pw" "zlib_ok deflate inflate" "length (w_objects pw) < 2 ^ 32"
  shows "(case WriteTo deflate buffer_write pw [] of ((tot, r), s) \<Rightarrow> r = Inr () \<and>
      read_pack inflate s = Some (map (\<lambda>(cs, d). (3, d)) (readable_files (nodes_below (Dir ch))))) \<and>
    map fr_Name (Files pw) = map (\<lambda>(cs, d). Join cs ''/'') (readable_files (nodes_below (Dir ch)))"
proof -
  note d = directory_packfile [OF assms(1-4)]
  have t: "list_all (\<lambda>obj. unat (obj_Type obj) < 8) (w_objects pw)"
    using d by (simp add: list_all_iff blob_of_def ObjectBlob_def)
  have "map decoded (w_objects pw) = map (\<lambda>(cs, d). (3, d)) (readable_files (nodes_below (Dir ch)))"
    using d by (simp add: blob_of_def ObjectBlob_def comp_def case_prod_unfold)
  then show ?thesis
    using WriteTo_read [OF assms(5) t assms(6)] d
    by (auto simp: Files_def file_ref_def comp_def case_prod_unfold)
qed

theorem directory_delivered_witness:
  "\<exists>pw. buildPackfile demo_fs demo_site [''/''] = Inr pw \<and> map fr_Name (Files pw) = [''a/b.html'', ''index.html''] \<and>
     (case WriteTo (\<lambda>d. Some (mark d)) buffer_write pw [] of ((tot, r), s) \<Rightarrow> r = Inr () \<and>
        read_pack unmark s = Some [(3, ''bb''), (3, ''hi'')])"
proof -
  let ?dir = "Dir [(''a'', Dir [(''b.html'', File (Some ''bb''))]), (''index.html'', File (Some ''hi''))]"
  have n: "names_ok (fs_root demo_fs)" by (simp add: demo_fs_def name_ok_def)
  have l: "route_leads demo_fs (Root demo_site) ''/'' = [''srv'', ''www'']"
    by (simp add: route_leads_def demo_root)
  have g: "get_node (fs_root demo_fs) (route_leads demo_fs (Root demo_site) ''/'') = Some ?dir"
    unfolding l by (simp add: demo_fs_def)
  have w: "walk_node (abs_path [''srv'', ''www'']) ?dir =
      map (\<lambda>(cs, m). (abs_path ([''srv'', ''www''] @ cs), m)) (nodes_below ?dir)"
    by (rule walk_node_below) (simp_all add: name_ok_def)
  have r: "Rel (abs_path [''srv'', ''www'']) (abs_path ([''srv'', ''www''] @ cs)) = Some (Join cs ''/'')"
    if "cs \<in> {[''a'', ''b.html''], [''index.html'']}" for cs
    using that by (intro Rel_below) (auto simp: name_ok_def)
  note r2 = r [of "[''a'', ''b.html'']", simplified] r [of "[''index.html'']", simplified]
  obtain pw where pw: "buildPackfile demo_fs demo_site [''/''] = Inr pw" "length (w_objects pw) = 2"
    using buildPackfile_node [OF demo_root(2,3), of "''/''"] g r2
    by (simp add: l demo_root(1) Let_def pack_node_def w del: walk_node.simps)
      (simp add: AddFile_def AddBlob_def NewWriter_def Let_def)
  have "length (w_objects pw) < 2 ^ 32" using pw(2) by simp
  from directory_delivered [OF demo_root(2) n g pw(1) mark_ok this] pw(1) show ?thesis by auto
qed

end
