(* ===== verification/Routes.thy ===== *)
theory Routes
  imports Config_Data
begin

text \<open>
  Which api-call routes a site declares: \<open>routeMatches\<close> and \<open>routeAllowed\<close> of
  \<open>internal/commands/handler.go\<close>, and what a route pattern means.
\<close>

subsection \<open>The code\<close>

definition is_catch_all :: "string \<Rightarrow> bool" where
  "is_catch_all pp \<longleftrightarrow> HasPrefix pp ''{'' \<and> HasSuffix pp ''*}''"

definition is_placeholder :: "string \<Rightarrow> bool" where
  "is_placeholder pp \<longleftrightarrow> HasPrefix pp ''{'' \<and> HasSuffix pp ''}''"

text \<open>The loop over the parts of the pattern, at index \<open>i\<close>.\<close>

fun route_loop :: "string list \<Rightarrow> string list \<Rightarrow> nat \<Rightarrow> string list \<Rightarrow> bool" where
  "route_loop patternParts pathParts i [] = (length patternParts = length pathParts)"
| "route_loop patternParts pathParts i (pp # rest) =
     (if is_catch_all pp then i = length patternParts - 1
      else if length pathParts \<le> i then False
      else if is_placeholder pp then route_loop patternParts pathParts (Suc i) rest
      else if pp \<noteq> pathParts ! i then False
      else route_loop patternParts pathParts (Suc i) rest)"

definition segments :: "string \<Rightarrow> string list" where
  "segments s = Split (Trim s ''/'') CHR ''/''"

definition drop_query :: "string \<Rightarrow> string" where
  "drop_query path = (case IndexByte path CHR ''?'' of None \<Rightarrow> path | Some q \<Rightarrow> take q path)"

definition routeMatches :: "string \<Rightarrow> string \<Rightarrow> bool" where
  "routeMatches pattern path =
     (if pattern = path then True
      else
        let patternParts = segments pattern; pathParts = segments (drop_query path)
        in route_loop patternParts pathParts 0 patternParts)"

fun commands_allow :: "string \<Rightarrow> string \<Rightarrow> string \<Rightarrow> CommandConfig list \<Rightarrow> bool" where
  "commands_allow cmdType meth path [] = False"
| "commands_allow cmdType meth path (cmd # cmds) =
     (if cc_Type cmd \<noteq> cmdType then commands_allow cmdType meth path cmds
      else if cmdType = ''api-call'' \<and> \<not> EqualFold (cc_Method cmd) meth then commands_allow cmdType meth path cmds
      else if routeMatches (cc_Route cmd) path then True
      else commands_allow cmdType meth path cmds)"

definition routeAllowed :: "SiteConfig \<Rightarrow> string \<Rightarrow> string \<Rightarrow> string \<Rightarrow> bool" where
  "routeAllowed site cmdType meth path = commands_allow cmdType meth path (Commands site)"

subsection \<open>What a pattern means\<close>

text \<open>One part against one segment, and a whole pattern against the segments of a path: part by part,
  or, when the last part is a catch-all, part by part up to it.\<close>

definition part_ok :: "string \<Rightarrow> string \<Rightarrow> bool" where
  "part_ok pp x \<longleftrightarrow> is_placeholder pp \<or> pp = x"

definition pattern_covers :: "string list \<Rightarrow> string list \<Rightarrow> bool" where
  "pattern_covers pats xs \<longleftrightarrow>
     (if list_ex is_catch_all pats then
        (let ps = takeWhile (\<lambda>p. \<not> is_catch_all p) pats in
         length pats = Suc (length ps) \<and> length ps \<le> length xs \<and> list_all2 part_ok ps (take (length ps) xs))
      else list_all2 part_ok pats xs)"

lemma route_loop_covers:
  assumes "list_all (\<lambda>p. \<not> is_catch_all p) pre" "list_all2 part_ok pre (take (length pre) xs)" "length pre \<le> length xs"
  shows "route_loop (pre @ rest) xs (length pre) rest = pattern_covers (pre @ rest) xs"
  using assms
proof (induction rest arbitrary: pre)
  case Nil
  then have "\<not> list_ex is_catch_all pre" by (auto simp: list_ex_iff list_all_iff)
  moreover have "list_all2 part_ok pre xs \<longleftrightarrow> length pre = length xs"
    using Nil by (auto dest: list_all2_lengthD)
  ultimately show ?case using Nil by (simp add: pattern_covers_def)
next
  case (Cons pp rest)
  note pre = Cons.prems
  show ?case
  proof (cases "is_catch_all pp")
    case True
    have "takeWhile (\<lambda>p. \<not> is_catch_all p) (pre @ pp # rest) = pre"
      using pre(1) True by (simp add: takeWhile_append2 list_all_iff)
    with True pre show ?thesis by (simp add: pattern_covers_def Let_def)
  next
    case False
    show ?thesis
    proof (cases "length pre < length xs \<and> part_ok pp (xs ! length pre)")
      case True
      have "list_all2 part_ok (pre @ [pp]) (take (length (pre @ [pp])) xs)"
        using pre(2) True by (simp add: take_Suc_conv_app_nth list_all2_append)
      then have "route_loop (pre @ pp # rest) xs (Suc (length pre)) rest = pattern_covers (pre @ pp # rest) xs"
        using Cons.IH [of "pre @ [pp]"] pre(1) False True by simp
      with False True show ?thesis by (auto simp: part_ok_def)
    next
      case bad: False
      have "\<not> pattern_covers (pre @ pp # rest) xs"
      proof
        assume c: "pattern_covers (pre @ pp # rest) xs"
        define ps where "ps = takeWhile (\<lambda>p. \<not> is_catch_all p) (pre @ pp # rest)"
        have ps: "ps = pre @ pp # takeWhile (\<lambda>p. \<not> is_catch_all p) rest"
          unfolding ps_def using pre(1) False by (simp add: takeWhile_append2 list_all_iff)
        have "\<exists>qs. list_all2 part_ok (pre @ pp # qs) (take (length (pre @ pp # qs)) xs) \<and> length (pre @ pp # qs) \<le> length xs"
        proof (cases "list_ex is_catch_all (pre @ pp # rest)")
          case True
          then have "list_all2 part_ok ps (take (length ps) xs) \<and> length ps \<le> length xs"
            using c by (simp add: pattern_covers_def Let_def ps_def)
          then show ?thesis unfolding ps by blast
        next
          case False
          then have "list_all2 part_ok (pre @ pp # rest) xs" using c by (auto simp: pattern_covers_def)
          then show ?thesis using list_all2_lengthD by (metis order_refl take_all)
        qed
        then obtain qs where "list_all2 part_ok (pre @ pp # qs) (take (length (pre @ pp # qs)) xs)"
          "length pre < length xs" by auto
        then have "part_ok pp (xs ! length pre)"
          using list_all2_nthD [of part_ok _ _ "length pre"] by fastforce
        with bad \<open>length pre < length xs\<close> show False by simp
      qed
      then show ?thesis using bad False by (auto simp: part_ok_def)
    qed
  qed
qed

text \<open>C24: A route pattern matches a path exactly when it is the path itself, or when, segment by segment
  and with the query string cut off, every part of it is a placeholder or the segment itself, where
  a catch-all is only good as the last part and then covers any number of further segments.\<close>

theorem route_meaning:
  "routeMatches pattern path \<longleftrightarrow>
     pattern = path \<or> pattern_covers (segments pattern) (segments (drop_query path))"
  using route_loop_covers [of "[]" "segments (drop_query path)" "segments pattern"]
  by (simp add: routeMatches_def Let_def)

lemma commands_allow_iff:
  "commands_allow cmdType meth path cmds \<longleftrightarrow>
     (\<exists>cmd\<in>set cmds. cc_Type cmd = cmdType \<and> (cmdType = ''api-call'' \<longrightarrow> EqualFold (cc_Method cmd) meth) \<and>
        routeMatches (cc_Route cmd) path)"
  by (induction cmds) auto

text \<open>A site that declares a bare catch-all route accepts every path for it, including one that does
  not begin with a slash, such as \<open>@evil.example/\<close>.\<close>

theorem catch_all_takes_any_path:
  "routeMatches ''/{path*}'' path"
proof -
  have "segments ''/{path*}'' = [''{path*}'']" by code_simp
  moreover have "is_catch_all ''{path*}''" by code_simp
  ultimately show ?thesis by (simp add: routeMatches_def Let_def)
qed

end
