(* ===== verification/Auth_Tiers.thy ===== *)
theory Auth_Tiers
  imports Config_Data
begin

text \<open>
  Command authorisation of \<open>internal/auth/auth.go\<close> (\<open>IsCommandAllowed\<close>,
  \<open>splitCommand\<close>) with its abstract specification: an ordered type of tiers and what one
  allow-list entry grants.  The locale \<open>tier_policy\<close> is what the command handler relies on.
\<close>

subsection \<open>The code\<close>

definition TierAnonymous :: string where "TierAnonymous = ''anonymous''"
definition TierIdentified :: string where "TierIdentified = ''identified''"
definition TierTrusted :: string where "TierTrusted = ''trusted''"

definition splitCommand :: "string \<Rightarrow> string list" where
  "splitCommand s = (let parts = Fields s in if parts = [] then [''''] else parts)"

text \<open>The inner loop: every entry part equals the command part at its index.\<close>

fun parts_match :: "string list \<Rightarrow> string list \<Rightarrow> bool" where
  "parts_match [] cs = True"
| "parts_match (p # ps) (c # cs) = (p = c \<and> parts_match ps cs)"
| "parts_match (p # ps) [] = False"

text \<open>The loop over the allowed entries; \<open>cmdParts\<close> is never empty.\<close>

fun entries_allow :: "string list \<Rightarrow> string list \<Rightarrow> bool" where
  "entries_allow [] cmdParts = False"
| "entries_allow (raw # es) cmdParts =
     (let entry = TrimSpace raw; verb = hd cmdParts in
      if entry = [] then entries_allow es cmdParts
      else if HasSuffix entry ''*'' then
        (if HasPrefix verb (TrimSuffix entry ''*'') then True else entries_allow es cmdParts)
      else let entryParts = splitCommand entry in
        if length entryParts = 1 \<and> hd entryParts = verb then True
        else if length entryParts \<le> length cmdParts \<and> parts_match entryParts cmdParts then True
        else entries_allow es cmdParts)"

definition IsCommandAllowed :: "string \<Rightarrow> string \<Rightarrow> AuthConfig \<Rightarrow> bool" where
  "IsCommandAllowed tier command authCfg =
     (if tier = TierAnonymous then
        entries_allow (ac_Anonymous authCfg) (splitCommand command)
      else if tier = TierIdentified then
        entries_allow (ac_Anonymous authCfg @ ac_Identified authCfg) (splitCommand command)
      else if tier = TierTrusted then
        entries_allow (ac_Anonymous authCfg @ ac_Identified authCfg @ ac_Trusted authCfg)
          (splitCommand command)
      else False)"

subsection \<open>The specification\<close>

datatype tier = Anonymous | Identified | Trusted

fun tier_rank :: "tier \<Rightarrow> nat" where
  "tier_rank Anonymous = 0"
| "tier_rank Identified = 1"
| "tier_rank Trusted = 2"

lemma tier_rank_inj: "tier_rank a = tier_rank b \<longleftrightarrow> a = b"
  by (cases a; cases b) auto

instantiation tier :: linorder
begin

definition less_eq_tier :: "tier \<Rightarrow> tier \<Rightarrow> bool" where
  "a \<le> b \<longleftrightarrow> tier_rank a \<le> tier_rank b"
definition less_tier :: "tier \<Rightarrow> tier \<Rightarrow> bool" where
  "a < b \<longleftrightarrow> tier_rank a < tier_rank b"

instance
  by standard (auto simp: less_eq_tier_def less_tier_def tier_rank_inj)

end

fun tier_name :: "tier \<Rightarrow> string" where
  "tier_name Anonymous = TierAnonymous"
| "tier_name Identified = TierIdentified"
| "tier_name Trusted = TierTrusted"

text \<open>The list an operator writes for a tier.\<close>

fun tier_entries :: "AuthConfig \<Rightarrow> tier \<Rightarrow> string list" where
  "tier_entries a Anonymous = ac_Anonymous a"
| "tier_entries a Identified = ac_Identified a"
| "tier_entries a Trusted = ac_Trusted a"

text \<open>What one entry grants: a wildcard looks at the verb, any other entry is a prefix of the
  command's words.\<close>

definition entry_grants :: "string \<Rightarrow> string \<Rightarrow> bool" where
  "entry_grants raw command =
     (let e = TrimSpace raw; ws = splitCommand command in
      e \<noteq> [] \<and>
      (if HasSuffix e ''*'' then HasPrefix (hd ws) (TrimSuffix e ''*'')
       else take (length (Fields e)) ws = Fields e))"

definition spec_allowed :: "AuthConfig \<Rightarrow> tier \<Rightarrow> string \<Rightarrow> bool" where
  "spec_allowed a t command \<longleftrightarrow>
     (\<exists>u \<in> {Anonymous, Identified, Trusted}. u \<le> t \<and>
        (\<exists>e \<in> set (tier_entries a u). entry_grants e command))"

subsection \<open>Lemmas\<close>

lemma tier_names_distinct [simp]:
  "TierAnonymous \<noteq> TierIdentified" "TierAnonymous \<noteq> TierTrusted" "TierIdentified \<noteq> TierTrusted"
  "TierIdentified \<noteq> TierAnonymous" "TierTrusted \<noteq> TierAnonymous" "TierTrusted \<noteq> TierIdentified"
  "TierAnonymous \<noteq> []" "TierIdentified \<noteq> []" "TierTrusted \<noteq> []"
  "[] \<noteq> TierAnonymous" "[] \<noteq> TierIdentified" "[] \<noteq> TierTrusted"
  by (simp_all add: TierAnonymous_def TierIdentified_def TierTrusted_def)

lemma splitCommand_nonempty [simp]: "splitCommand s \<noteq> []"
  by (simp add: splitCommand_def Let_def)

lemma parts_match_take: "parts_match ps cs \<longleftrightarrow> take (length ps) cs = ps"
  by (induction ps cs rule: parts_match.induct) auto

lemma splitCommand_entry:
  "TrimSpace raw \<noteq> [] \<Longrightarrow> splitCommand (TrimSpace raw) = Fields (TrimSpace raw)"
  by (simp add: splitCommand_def Let_def Fields_empty trimmed_not_blank)

lemma entries_allow_iff:
  "entries_allow es (splitCommand command) \<longleftrightarrow> (\<exists>e \<in> set es. entry_grants e command)"
proof (induction es)
  case (Cons raw es)
  let ?ws = "splitCommand command" and ?e = "TrimSpace raw"
  have verb: "length (Fields ?e) = 1 \<Longrightarrow> hd (Fields ?e) = hd ?ws \<Longrightarrow> take 1 ?ws = Fields ?e"
    by (cases ?ws; cases "Fields ?e") (auto simp: length_Suc_conv)
  have len: "take (length ps) ?ws = ps \<Longrightarrow> length ps \<le> length ?ws" for ps :: "string list"
    by (metis length_take min.cobounded1)
  show ?case
  proof (cases "?e = [] \<or> HasSuffix ?e ''*''")
    case True
    with Cons show ?thesis by (auto simp: entry_grants_def Let_def)
  next
    case False
    with Cons len verb show ?thesis
      by (auto simp: entry_grants_def Let_def splitCommand_entry parts_match_take)
  qed
qed simp

lemma IsCommandAllowed_spec:
  "IsCommandAllowed (tier_name t) command a = spec_allowed a t command"
  by (cases t)
    (auto simp: IsCommandAllowed_def entries_allow_iff spec_allowed_def less_eq_tier_def)


lemma IsCommandAllowed_known_tier:
  "IsCommandAllowed t command a \<Longrightarrow> t \<in> {TierAnonymous, TierIdentified, TierTrusted}"
  by (auto simp: IsCommandAllowed_def split: if_splits)

lemma spec_allowed_mono: "t \<le> u \<Longrightarrow> spec_allowed a t command \<Longrightarrow> spec_allowed a u command"
  unfolding spec_allowed_def by (meson order_trans)

subsection \<open>The interface the command handler relies on\<close>

locale tier_policy =
  fixes allowed :: "string \<Rightarrow> string \<Rightarrow> 'cfg \<Rightarrow> bool"
  assumes anonymous_identified:
      "allowed TierAnonymous c a \<Longrightarrow> allowed TierIdentified c a"
    and identified_trusted: "allowed TierIdentified c a \<Longrightarrow> allowed TierTrusted c a"
    and known_tier: "allowed t c a \<Longrightarrow> t \<in> {TierAnonymous, TierIdentified, TierTrusted}"
begin

lemma upward:
  "t \<le> u \<Longrightarrow> allowed (tier_name t) c a \<Longrightarrow> allowed (tier_name u) c a"
  using anonymous_identified identified_trusted
  by (cases t; cases u) (auto simp: less_eq_tier_def)

text \<open>Trying the tiers in ascending order finds the lowest one that is allowed.\<close>

lemma lowest_first:
  assumes "r = (if allowed TierAnonymous c a then TierAnonymous
                else if allowed TierIdentified c a then TierIdentified else TierTrusted)"
    and "allowed (tier_name t) c a"
  shows "\<exists>u. r = tier_name u \<and> u \<le> t \<and> allowed r c a \<and> (\<forall>v. v < u \<longrightarrow> \<not> allowed (tier_name v) c a)"
proof -
  have low: "v < Identified \<Longrightarrow> v = Anonymous" "v < Trusted \<Longrightarrow> v = Anonymous \<or> v = Identified"
    "\<not> v < Anonymous" for v
    by (cases v; simp add: less_tier_def)+
  show ?thesis
  proof (cases "allowed TierAnonymous c a")
    case True
    with assms(1) low(3) show ?thesis
      by (intro exI [of _ Anonymous]) (auto simp: less_eq_tier_def)
  next
    case noA: False
    show ?thesis
    proof (cases "allowed TierIdentified c a")
      case True
      with assms noA show ?thesis
        by (intro exI [of _ Identified], cases t) (auto simp: less_eq_tier_def dest!: low(1))
    next
      case False
      with assms noA show ?thesis
        by (intro exI [of _ Trusted], cases t) (auto simp: less_eq_tier_def dest!: low(2))
    qed
  qed
qed

lemma denied_everywhere:
  assumes "\<not> allowed TierTrusted c a"
  shows "\<not> allowed t c a"
  using assms anonymous_identified identified_trusted known_tier by blast

end

interpretation auth: tier_policy IsCommandAllowed
proof unfold_locales
  fix c and a :: AuthConfig
  show "IsCommandAllowed TierAnonymous c a \<Longrightarrow> IsCommandAllowed TierIdentified c a"
    by (auto simp: IsCommandAllowed_def entries_allow_iff)
  show "IsCommandAllowed TierIdentified c a \<Longrightarrow> IsCommandAllowed TierTrusted c a"
    by (auto simp: IsCommandAllowed_def entries_allow_iff)
next
  fix t c and a :: AuthConfig
  show "IsCommandAllowed t c a \<Longrightarrow> t \<in> {TierAnonymous, TierIdentified, TierTrusted}"
    by (rule IsCommandAllowed_known_tier)
qed

subsection \<open>Properties\<close>

text \<open>C3: \<open>IsCommandAllowed\<close> implements its specification: a session of a tier may run a command
  exactly when some entry of that tier or a lower one grants it, an entry granting by wildcard
  on the verb or by being a word prefix of the command; an unknown tier may run nothing.\<close>

theorem authorisation_refines_spec:
  "IsCommandAllowed tier command a =
     (\<exists>t \<in> {Anonymous, Identified, Trusted}. tier = tier_name t \<and> spec_allowed a t command)"
  using IsCommandAllowed_spec [of _ command a] IsCommandAllowed_known_tier [of tier command a]
  by (auto simp: tier_name.simps [symmetric] simp del: tier_name.simps)

text \<open>Permissions only grow with the tier: whatever a tier may run, every higher tier may
  run, for every configuration.\<close>

theorem permissions_grow_with_tier:
  assumes "t \<le> u" and "IsCommandAllowed (tier_name t) command a"
  shows "IsCommandAllowed (tier_name u) command a"
  using assms by (rule auth.upward)

theorem permissions_grow_with_tier_witness:
  "IsCommandAllowed (tier_name Trusted) ''api-call GET /x''
     (zero_AuthConfig\<lparr>ac_Anonymous := ['' api-call  GET '']\<rparr>)"
proof (rule permissions_grow_with_tier)
  show "Anonymous \<le> Trusted" by (simp add: less_eq_tier_def)
  show "IsCommandAllowed (tier_name Anonymous) ''api-call GET /x''
     (zero_AuthConfig\<lparr>ac_Anonymous := ['' api-call  GET '']\<rparr>)" by code_simp
qed

text \<open>A wildcard entry is compared with the verb only: an entry such as \<open>api-call G*\<close>, whose
  text before the star contains white space, never grants any command, although the comment
  on \<open>IsCommandAllowed\<close> says such an entry matches when the command starts with the prefix.\<close>

theorem qualified_wildcard_never_grants:
  assumes "TrimSpace raw = p @ ''*''" and "\<not> no_space p"
  shows "\<not> IsCommandAllowed tier command
           \<lparr>ac_Anonymous = [raw], ac_Identified = [raw], ac_Trusted = [raw]\<rparr>"
proof -
  let ?ws = "splitCommand command"
  have "no_space (hd ?ws)"
    using Fields_words [of "hd ?ws" command]
    by (auto simp: splitCommand_def Let_def is_word_def split: if_splits)
  with assms(2) have "\<not> HasPrefix (hd ?ws) p"
    using no_space_prefix by (auto simp: HasPrefix_iff)
  with assms(1) have "\<not> entry_grants raw command"
    by (simp add: entry_grants_def Let_def)
  then show ?thesis
    by (simp add: IsCommandAllowed_def entries_allow_iff)
qed

theorem qualified_wildcard_never_grants_witness:
  "\<not> IsCommandAllowed TierAnonymous ''api-call GET /items''
     \<lparr>ac_Anonymous = [''api-call G*''], ac_Identified = [''api-call G*''],
      ac_Trusted = [''api-call G*'']\<rparr>"
proof (rule qualified_wildcard_never_grants)
  show "TrimSpace ''api-call G*'' = ''api-call G'' @ ''*''" by code_simp
  show "\<not> no_space ''api-call G''" by code_simp
qed

end
