(* ===== verification/Go_Json.thy ===== *)
theory Go_Json
  imports Go_Strings "HOL-Library.AList" "HOL-Library.List_Lexorder" "HOL-Library.Char_ord"
begin

text \<open>
  The part of Go's \<open>encoding/json\<close> that the program uses: values, \<open>Marshal\<close>, \<open>MarshalIndent\<close> and
  a parser.  Strings are byte strings, with Go's treatment of UTF-8: an invalid byte becomes
  U+FFFD, and \<open><\<close>, \<open>>\<close>, \<open>&\<close>, U+2028 and U+2029 are written as escapes.  A number is its
  literal.  A Go map is written with its keys in byte order, a struct in the order of its fields.
  The parser's bound of 10000 on the nesting is not modelled.
\<close>

datatype json =
    JNull
  | JBool bool
  | JNum string
  | JStr string
  | JArr "json list"
  | JObj "(string \<times> json) list"

subsection \<open>UTF-8\<close>

abbreviation code_of :: "char \<Rightarrow> nat" where "code_of c \<equiv> of_char c"

definition cont :: "char \<Rightarrow> bool" where
  "cont c \<longleftrightarrow> 128 \<le> code_of c \<and> code_of c < 192"

text \<open>The number of bytes of the rune a string begins with, \<open>None\<close> where it begins with none
  (\<open>utf8.DecodeRune\<close>).\<close>

fun rune2 :: "nat \<Rightarrow> string \<Rightarrow> nat option" where
  "rune2 b (x # s) = (if 194 \<le> b \<and> b < 224 \<and> cont x then Some 2 else None)"
| "rune2 b [] = None"

fun rune3 :: "nat \<Rightarrow> string \<Rightarrow> nat option" where
  "rune3 b (x # y # s) =
     (if 224 \<le> b \<and> b < 240 \<and> cont x \<and> cont y \<and> (b = 224 \<longrightarrow> 160 \<le> code_of x) \<and> (b = 237 \<longrightarrow> code_of x < 160)
      then Some 3 else None)"
| "rune3 b s = None"

fun rune4 :: "nat \<Rightarrow> string \<Rightarrow> nat option" where
  "rune4 b (x # y # z # s) =
     (if 240 \<le> b \<and> b < 245 \<and> cont x \<and> cont y \<and> cont z \<and> (b = 240 \<longrightarrow> 144 \<le> code_of x) \<and> (b = 244 \<longrightarrow> code_of x < 144)
      then Some 4 else None)"
| "rune4 b s = None"

fun rune_len :: "string \<Rightarrow> nat option" where
  "rune_len [] = None"
| "rune_len (c # s) =
     (let b = code_of c in
      if b < 128 then Some 1
      else if b < 224 then rune2 b s
      else if b < 240 then rune3 b s
      else rune4 b s)"

definition encode_rune :: "nat \<Rightarrow> bytes" where
  "encode_rune r =
     (if r < 128 then [char_of r]
      else if r < 2048 then [char_of (192 + r div 64), char_of (128 + r mod 64)]
      else if r < 65536 then [char_of (224 + r div 4096), char_of (128 + r div 64 mod 64), char_of (128 + r mod 64)]
      else [char_of (240 + r div 262144), char_of (128 + r div 4096 mod 64), char_of (128 + r div 64 mod 64),
            char_of (128 + r mod 64)])"

definition rune_error :: bytes where "rune_error = [CHR 0xEF, CHR 0xBF, CHR 0xBD]"

lemma rune_len_le: "rune_len s = Some n \<Longrightarrow> 0 < n \<and> n \<le> length s"
  by (cases s rule: rune_len.cases)
    (auto simp: Let_def elim!: rune2.elims rune3.elims rune4.elims split: if_splits)

lemma rune_len_take: "rune_len s = Some n \<Longrightarrow> rune_len (take n s @ t) = Some n"
  by (cases s rule: rune_len.cases)
    (auto simp: Let_def elim!: rune2.elims rune3.elims rune4.elims split: if_splits)

text \<open>What a string becomes on its way through JSON: every byte that is not part of a rune is
  replaced.\<close>

function to_utf8 :: "string \<Rightarrow> string" where
  "to_utf8 s =
     (if s = [] then []
      else (case rune_len s of
              None \<Rightarrow> rune_error @ to_utf8 (tl s)
            | Some n \<Rightarrow> take n s @ to_utf8 (drop n s)))"
  by pat_completeness auto
termination
  by (relation "measure length") (auto dest: rune_len_le)

declare to_utf8.simps [simp del]

subsection \<open>Writing\<close>

definition hex_digit :: "nat \<Rightarrow> char" where
  "hex_digit n = ''0123456789abcdef'' ! n"

definition u_escape :: "nat \<Rightarrow> string" where
  "u_escape r = BSL # CHR ''u'' # map hex_digit [r div 4096, r div 256 mod 16, r div 16 mod 16, r mod 16]"

definition esc_byte :: "char \<Rightarrow> string" where
  "esc_byte c =
     (if c = DQ \<or> c = BSL then [BSL, c]
      else if c = CHR 0x08 then [BSL, CHR ''b'']
      else if c = FF then [BSL, CHR ''f'']
      else if c = LF then [BSL, CHR ''n'']
      else if c = CR then [BSL, CHR ''r'']
      else if c = TAB then [BSL, CHR ''t'']
      else if code_of c < 32 \<or> c \<in> set ''<>&'' then u_escape (code_of c)
      else [c])"

text \<open>The three bytes of U+2028 and U+2029.\<close>

definition line_sep :: "string \<Rightarrow> nat option" where
  "line_sep s =
     (if take 3 s = [CHR 0xE2, CHR 0x80, CHR 0xA8] then Some 0x2028
      else if take 3 s = [CHR 0xE2, CHR 0x80, CHR 0xA9] then Some 0x2029 else None)"

function esc_str :: "string \<Rightarrow> string" where
  "esc_str s =
     (if s = [] then []
      else if code_of (hd s) < 128 then esc_byte (hd s) @ esc_str (tl s)
      else (case rune_len s of
              None \<Rightarrow> u_escape 0xFFFD @ esc_str (tl s)
            | Some n \<Rightarrow> (case line_sep s of Some r \<Rightarrow> u_escape r | None \<Rightarrow> take n s) @ esc_str (drop n s)))"
  by pat_completeness auto
termination
  by (relation "measure length") (auto dest: rune_len_le)

declare esc_str.simps [simp del]

definition quote_str :: "string \<Rightarrow> string" where
  "quote_str s = DQ # esc_str s @ [DQ]"

fun json_marshal :: "json \<Rightarrow> string" where
  "json_marshal JNull = ''null''"
| "json_marshal (JBool b) = (if b then ''true'' else ''false'')"
| "json_marshal (JNum n) = n"
| "json_marshal (JStr s) = quote_str s"
| "json_marshal (JArr vs) = ''['' @ Join (map json_marshal vs) '','' @ '']''"
| "json_marshal (JObj kvs) = ''{'' @ Join (map (\<lambda>(k, v). quote_str k @ '':'' @ json_marshal v) kvs) '','' @ ''}''"

text \<open>\<open>MarshalIndent(v, "", "  ")\<close>; the first argument is the depth.\<close>

definition newline :: "nat \<Rightarrow> string" where
  "newline d = LF # concat (replicate d ''  '')"

fun json_indent :: "nat \<Rightarrow> json \<Rightarrow> string" where
  "json_indent d (JArr vs) =
     (if vs = [] then ''[]''
      else ''['' @ newline (Suc d) @ Join (map (json_indent (Suc d)) vs) ('','' @ newline (Suc d)) @ newline d @ '']'')"
| "json_indent d (JObj kvs) =
     (if kvs = [] then ''{}''
      else ''{'' @ newline (Suc d) @
        Join (map (\<lambda>(k, v). quote_str k @ '': '' @ json_indent (Suc d) v) kvs) ('','' @ newline (Suc d)) @ newline d @ ''}'')"
| "json_indent d j = json_marshal j"

text \<open>A Go map: keys in byte order, the last value of a key.\<close>

definition json_map :: "(string \<times> json) list \<Rightarrow> json" where
  "json_map kvs = JObj (sort_key fst (fold (\<lambda>(k, v). AList.update k v) kvs []))"

text \<open>A nil slice is \<open>null\<close>.\<close>

definition json_strings :: "string list \<Rightarrow> json" where
  "json_strings xs = (if xs = [] then JNull else JArr (map JStr xs))"

subsection \<open>Reading\<close>

definition hex_val :: "char \<Rightarrow> nat option" where
  "hex_val c =
     (let b = code_of c in
      if 48 \<le> b \<and> b \<le> 57 then Some (b - 48)
      else if 97 \<le> b \<and> b \<le> 102 then Some (b - 87)
      else if 65 \<le> b \<and> b \<le> 70 then Some (b - 55) else None)"

text \<open>The four digits after \<open>\u\<close>.\<close>

fun read_hex4 :: "string \<Rightarrow> (nat \<times> string) option" where
  "read_hex4 (a # b # c # d # s) =
     (case (hex_val a, hex_val b, hex_val c, hex_val d) of
        (Some w, Some x, Some y, Some z) \<Rightarrow> Some (4096 * w + 256 * x + 16 * y + z, s)
      | _ \<Rightarrow> None)"
| "read_hex4 s = None"

text \<open>A second half of a surrogate pair.\<close>

definition read_low :: "string \<Rightarrow> (nat \<times> string) option" where
  "read_low s =
     (if take 2 s = [BSL, CHR ''u''] then
        (case read_hex4 (drop 2 s) of
           Some (r, t) \<Rightarrow> if 0xDC00 \<le> r \<and> r < 0xE000 then Some (r, t) else None
         | None \<Rightarrow> None)
      else None)"

text \<open>What an escape stands for, and what follows it; the backslash has been read.\<close>

fun read_escape :: "string \<Rightarrow> (bytes \<times> string) option" where
  "read_escape [] = None"
| "read_escape (c # s) =
     (if c = DQ \<or> c = BSL \<or> c = CHR ''/'' then Some ([c], s)
      else if c = CHR ''b'' then Some ([CHR 0x08], s)
      else if c = CHR ''f'' then Some ([FF], s)
      else if c = CHR ''n'' then Some ([LF], s)
      else if c = CHR ''r'' then Some ([CR], s)
      else if c = CHR ''t'' then Some ([TAB], s)
      else if c = CHR ''u'' then
        (case read_hex4 s of
           None \<Rightarrow> None
         | Some (r, t) \<Rightarrow>
             if 0xD800 \<le> r \<and> r < 0xDC00 then
               (case read_low t of
                  Some (r', t') \<Rightarrow> Some (encode_rune ((r - 0xD800) * 1024 + (r' - 0xDC00) + 0x10000), t')
                | None \<Rightarrow> Some (rune_error, t))
             else if 0xDC00 \<le> r \<and> r < 0xE000 then Some (rune_error, t)
             else Some (encode_rune r, t))
      else None)"

lemma read_hex4_shorter: "read_hex4 s = Some (r, t) \<Longrightarrow> length t < length s"
  by (cases s rule: read_hex4.cases) (auto split: option.splits)

lemma read_escape_shorter: "read_escape s = Some (b, t) \<Longrightarrow> length t < length s"
proof (cases s)
  case (Cons c s')
  assume e: "read_escape s = Some (b, t)"
  have low: "read_low u = Some (r, v) \<Longrightarrow> length v < length u" for u r v
    using read_hex4_shorter [of "drop 2 u"] by (auto simp: read_low_def split: if_splits option.splits)
  show ?thesis
    using e Cons by (auto split: if_splits option.splits dest!: read_hex4_shorter low)
qed simp

text \<open>The rest of a string literal, after its opening quote.\<close>

function read_string :: "string \<Rightarrow> (string \<times> string) option" where
  "read_string s =
     (if s = [] then None
      else if hd s = DQ then Some ([], tl s)
      else if hd s = BSL then
        (case read_escape (tl s) of
           None \<Rightarrow> None
         | Some (b, t) \<Rightarrow> map_option (\<lambda>(v, r). (b @ v, r)) (read_string t))
      else if code_of (hd s) < 32 then None
      else (case rune_len s of
              None \<Rightarrow> map_option (\<lambda>(v, r). (rune_error @ v, r)) (read_string (tl s))
            | Some n \<Rightarrow> map_option (\<lambda>(v, r). (take n s @ v, r)) (read_string (drop n s))))"
  by pat_completeness auto
termination
  by (relation "measure length") (auto dest!: rune_len_le read_escape_shorter)

declare read_string.simps [simp del]

definition json_space :: "char \<Rightarrow> bool" where
  "json_space c \<longleftrightarrow> c = SPC \<or> c = TAB \<or> c = LF \<or> c = CR"

definition skip_space :: "string \<Rightarrow> string" where
  "skip_space s = dropWhile json_space s"

definition num_char :: "char \<Rightarrow> bool" where
  "num_char c \<longleftrightarrow> is_digit c \<or> c \<in> set ''+-.eE''"

text \<open>The grammar of a number: sign, whole part without a leading zero, fraction, exponent.\<close>

definition digits_ok :: "string \<Rightarrow> bool" where
  "digits_ok ds \<longleftrightarrow> ds \<noteq> [] \<and> list_all is_digit ds"

definition exp_ok :: "string \<Rightarrow> bool" where
  "exp_ok s \<longleftrightarrow> s = [] \<or>
     hd s \<in> set ''eE'' \<and> (let t = tl s in digits_ok (if t \<noteq> [] \<and> hd t \<in> set ''+-'' then tl t else t))"

definition frac_ok :: "string \<Rightarrow> bool" where
  "frac_ok s \<longleftrightarrow>
     (if s \<noteq> [] \<and> hd s = CHR ''.'' then digits_ok (takeWhile is_digit (tl s)) \<and> exp_ok (dropWhile is_digit (tl s))
      else exp_ok s)"

definition num_ok :: "string \<Rightarrow> bool" where
  "num_ok s =
     (let t = (if HasPrefix s ''-'' then tl s else s); ds = takeWhile is_digit t in
      ds \<noteq> [] \<and> (hd ds = CHR ''0'' \<longrightarrow> ds = ''0'') \<and> frac_ok (dropWhile is_digit t))"

definition read_word :: "string \<Rightarrow> json \<Rightarrow> string \<Rightarrow> (json \<times> string) option" where
  "read_word w j s = (if HasPrefix s w then Some (j, drop (length w) s) else None)"

text \<open>Values, the elements of an array after its bracket and the members of an object after its
  brace.  The first argument is fuel: twice the length of the text is enough (\<open>read_fuel\<close>).\<close>

fun read_value :: "nat \<Rightarrow> string \<Rightarrow> (json \<times> string) option"
  and read_elements :: "nat \<Rightarrow> string \<Rightarrow> (json list \<times> string) option"
  and read_members :: "nat \<Rightarrow> string \<Rightarrow> ((string \<times> json) list \<times> string) option" where
  "read_value 0 s = None"
| "read_value (Suc n) s =
     (case skip_space s of
        [] \<Rightarrow> None
      | c # t \<Rightarrow>
          if c = DQ then map_option (\<lambda>(v, r). (JStr v, r)) (read_string t)
          else if c = CHR ''['' then
            (if HasPrefix (skip_space t) '']'' then Some (JArr [], tl (skip_space t))
             else map_option (\<lambda>(vs, r). (JArr vs, r)) (read_elements n t))
          else if c = CHR ''{'' then
            (if HasPrefix (skip_space t) ''}'' then Some (JObj [], tl (skip_space t))
             else map_option (\<lambda>(kvs, r). (JObj kvs, r)) (read_members n t))
          else if c = CHR ''n'' then read_word ''null'' JNull (c # t)
          else if c = CHR ''t'' then read_word ''true'' (JBool True) (c # t)
          else if c = CHR ''f'' then read_word ''false'' (JBool False) (c # t)
          else let w = takeWhile num_char (c # t) in
            if num_ok w then Some (JNum w, dropWhile num_char (c # t)) else None)"
| "read_elements 0 s = None"
| "read_elements (Suc n) s =
     (case read_value n s of
        None \<Rightarrow> None
      | Some (v, r) \<Rightarrow>
          (case skip_space r of
             [] \<Rightarrow> None
           | c # t \<Rightarrow>
               if c = CHR '']'' then Some ([v], t)
               else if c = CHR '','' then map_option (\<lambda>(vs, r). (v # vs, r)) (read_elements n t)
               else None))"
| "read_members 0 s = None"
| "read_members (Suc n) s =
     (case skip_space s of
        [] \<Rightarrow> None
      | q # t \<Rightarrow>
          if q \<noteq> DQ then None
          else (case read_string t of
              None \<Rightarrow> None
            | Some (k, r) \<Rightarrow>
                if \<not> HasPrefix (skip_space r) '':'' then None
                else (case read_value n (tl (skip_space r)) of
                    None \<Rightarrow> None
                  | Some (v, r) \<Rightarrow>
                      (case skip_space r of
                         [] \<Rightarrow> None
                       | c # t \<Rightarrow>
                           if c = CHR ''}'' then Some ([(k, v)], t)
                           else if c = CHR '','' then map_option (\<lambda>(kvs, r). ((k, v) # kvs, r)) (read_members n t)
                           else None))))"

text \<open>\<open>json.Unmarshal\<close> up to the assignment to a Go value: one value and nothing after it.\<close>

definition json_parse :: "string \<Rightarrow> json option" where
  "json_parse s =
     (case read_value (2 * length s + 2) s of
        Some (j, r) \<Rightarrow> if skip_space r = [] then Some j else None
      | None \<Rightarrow> None)"

subsection \<open>Enough fuel\<close>

lemma skip_space_le: "length (skip_space s) \<le> length s"
  by (simp add: skip_space_def length_dropWhile_le)

lemma skip_space_Cons: "skip_space s = c # t \<Longrightarrow> length t < length s"
  using skip_space_le [of s] by simp

lemma read_string_shorter: "read_string s = Some (v, r) \<Longrightarrow> length r < length s"
proof (induction s arbitrary: v r rule: read_string.induct)
  case (1 s)
  show ?case
  proof (cases "s = [] \<or> hd s = DQ")
    case True
    with 1(4) show ?thesis
      by (cases s) (auto simp: read_string.simps [of "[]"] read_string.simps [of "DQ # u" for u])
  next
    case False
    note s = False
    show ?thesis
    proof (cases "hd s = BSL")
      case True
      then obtain b t v' where e: "read_escape (tl s) = Some (b, t)" "read_string t = Some (v', r)"
        using 1(4) s by (auto simp: read_string.simps [of s] split: option.splits)
      then have "length r < length t" using 1(1) s True by auto
      with read_escape_shorter [OF e(1)] show ?thesis by simp
    next
      case nb: False
      then have c: "\<not> code_of (hd s) < 32" using 1(4) s by (auto simp: read_string.simps [of s])
      show ?thesis
      proof (cases "rune_len s")
        case None
        then obtain v' where "read_string (tl s) = Some (v', r)"
          using 1(4) s nb c by (auto simp: read_string.simps [of s])
        then have "length r < length (tl s)" using 1(2) s nb c None by auto
        then show ?thesis by simp
      next
        case (Some n)
        then obtain v' where "read_string (drop n s) = Some (v', r)"
          using 1(4) s nb c by (auto simp: read_string.simps [of s])
        then have "length r < length (drop n s)" using 1(3) s nb c Some by auto
        then show ?thesis by simp
      qed
    qed
  qed
qed

lemma read_word_shorter: "read_word w j s = Some (v, r) \<Longrightarrow> w \<noteq> [] \<Longrightarrow> length r < length s"
  by (auto simp: read_word_def HasPrefix_iff split: if_splits)

lemma num_ok_nonempty: "\<not> num_ok []"
  by (simp add: num_ok_def HasPrefix_def)

lemma read_shorter:
  "read_value n s = Some (v, r) \<Longrightarrow> length r < length s"
  "read_elements n s = Some (vs, r) \<Longrightarrow> length r < length s"
  "read_members n s = Some (kvs, r) \<Longrightarrow> length r < length s"
proof (induction n s and n s and n s arbitrary: v r and vs r and kvs r
    rule: read_value_read_elements_read_members.induct)
  case (2 n s)
  then obtain c t where c: "skip_space s = c # t" by (auto split: list.splits)
  note l = skip_space_Cons [OF c]
  have tl: "length (tl (skip_space t)) \<le> length t" using skip_space_le [of t] by simp
  have num: "length (dropWhile num_char (c # t)) < length (c # t)" if "num_ok (takeWhile num_char (c # t))"
    using that length_dropWhile_less [of "c # t" num_char] num_ok_nonempty by (cases "num_char c") auto
  have w: "read_word ''null'' JNull (c # t) = Some (v, r) \<Longrightarrow> length r < length (c # t)"
    "read_word ''true'' (JBool True) (c # t) = Some (v, r) \<Longrightarrow> length r < length (c # t)"
    "read_word ''false'' (JBool False) (c # t) = Some (v, r) \<Longrightarrow> length r < length (c # t)"
    by (erule read_word_shorter, simp)+
  have le: "length (c # t) \<le> length s" using skip_space_le [of s] c by simp
  consider "c = DQ" | "c = CHR ''[''" | "c = CHR ''{''" | "c \<notin> {DQ, CHR ''['', CHR ''{''}" by auto
  then show ?case
  proof cases
    case 1
    with 2 c l show ?thesis by (auto dest!: read_string_shorter)
  next
    case a: 2
    with 2 c l tl show ?thesis by (auto split: if_splits) (meson less_trans)
  next
    case a: 3
    with 2 c l tl show ?thesis by (auto split: if_splits) (meson less_trans)
  next
    case a: 4
    then show ?thesis using 2(3) c w num le
      by (auto simp: Let_def split: if_splits)
  qed
next
  case (4 n s)
  from 4(3) obtain w u where v: "read_value n s = Some (w, u)" by (auto split: option.splits)
  obtain c t where c: "skip_space u = c # t" using 4(3) v by (auto split: list.splits)
  with 4 v skip_space_Cons [OF c] show ?case by (auto split: if_splits) (meson less_trans)
next
  case (6 n s)
  from 6(3) obtain t where t: "skip_space s = DQ # t" by (auto split: list.splits if_splits)
  with 6(3) obtain k u where k: "read_string t = Some (k, u)" "HasPrefix (skip_space u) '':''"
    by (auto split: option.splits if_splits)
  with 6(3) t obtain w x where v: "read_value n (tl (skip_space u)) = Some (w, x)" by (auto split: option.splits)
  obtain c y where c: "skip_space x = c # y" using 6(3) t k v by (auto split: list.splits)
  have "length x < length (tl (skip_space u))" using 6(1) t k v by auto
  then have "length x < length s"
    using read_string_shorter [OF k(1)] skip_space_Cons [OF t] skip_space_le [of u] by simp
  with 6 t k v c skip_space_Cons [OF c] show ?case by (auto split: if_splits) (meson less_trans)
qed auto

lemma read_fuel_all:
  "(\<forall>m s. 2 * length s + 1 \<le> n \<longrightarrow> 2 * length s + 1 \<le> m \<longrightarrow> read_value n s = read_value m s) \<and>
   (\<forall>m s. 2 * length s + 2 \<le> n \<longrightarrow> 2 * length s + 2 \<le> m \<longrightarrow> read_elements n s = read_elements m s) \<and>
   (\<forall>m s. 2 * length s + 2 \<le> n \<longrightarrow> 2 * length s + 2 \<le> m \<longrightarrow> read_members n s = read_members m s)"
proof (induction n)
  case (Suc n)
  then have val: "\<And>m s. 2 * length s + 1 \<le> n \<Longrightarrow> 2 * length s + 1 \<le> m \<Longrightarrow> read_value n s = read_value m s"
    and els: "\<And>m s. 2 * length s + 2 \<le> n \<Longrightarrow> 2 * length s + 2 \<le> m \<Longrightarrow> read_elements n s = read_elements m s"
    and mem: "\<And>m s. 2 * length s + 2 \<le> n \<Longrightarrow> 2 * length s + 2 \<le> m \<Longrightarrow> read_members n s = read_members m s"
    by blast+
  have "read_value (Suc n) s = read_value m s" if b: "2 * length s + 1 \<le> Suc n" "2 * length s + 1 \<le> m" for m s
  proof (cases "skip_space s")
    case Nil
    then show ?thesis using b by (cases m) auto
  next
    case (Cons c t)
    obtain m' where m: "m = Suc m'" using b by (cases m) auto
    have "2 * length t + 2 \<le> n" "2 * length t + 2 \<le> m'" using b skip_space_Cons [OF Cons] m by auto
    with Cons m els [of t m'] mem [of t m'] show ?thesis by (simp cong: if_cong)
  qed
  moreover have "read_elements (Suc n) s = read_elements m s" if b: "2 * length s + 2 \<le> Suc n" "2 * length s + 2 \<le> m" for m s
  proof -
    obtain m' where m: "m = Suc m'" using b by (cases m) auto
    have v: "read_value n s = read_value m' s" using b m by (intro val) auto
    have "read_elements n t = read_elements m' t" if "read_value m' s = Some (x, r)" "skip_space r = c # t" for x r c t
      using read_shorter(1) [OF that(1)] skip_space_Cons [OF that(2)] b m by (intro els) auto
    then show ?thesis by (auto simp: m v split: option.split list.split)
  qed
  moreover have "read_members (Suc n) s = read_members m s" if b: "2 * length s + 2 \<le> Suc n" "2 * length s + 2 \<le> m" for m s
  proof -
    obtain m' where m: "m = Suc m'" using b by (cases m) auto
    have v: "read_value n (tl (skip_space r)) = read_value m' (tl (skip_space r))"
      if "skip_space s = q # t" "read_string t = Some (k, r)" for q t k r
      using skip_space_Cons [OF that(1)] read_string_shorter [OF that(2)] skip_space_le [of r] b m by (intro val) auto
    have "read_members n u = read_members m' u"
      if "skip_space s = q # t" "read_string t = Some (k, r)" "read_value m' (tl (skip_space r)) = Some (x, y)"
        "skip_space y = c # u" for q t k r x y c u
      using skip_space_Cons [OF that(1)] read_string_shorter [OF that(2)] skip_space_le [of r]
        read_shorter(1) [OF that(3)] skip_space_Cons [OF that(4)] b m by (intro mem) auto
    then show ?thesis using v by (auto simp: m split: option.split list.split)
  qed
  ultimately show ?case by blast
qed simp

text \<open>More fuel than the text needs changes nothing.\<close>

lemma read_fuel: "2 * length s + 1 \<le> n \<Longrightarrow> read_value n s = read_value (2 * length s + 2) s"
  by (rule read_fuel_all [THEN conjunct1, rule_format]) simp_all

subsection \<open>Reading what was written\<close>

lemma hex_val_digit: "n < 16 \<Longrightarrow> hex_val (hex_digit n) = Some n"
proof -
  assume "n < 16"
  then have "n \<in> set [0..<16]" by simp
  moreover have "list_all (\<lambda>n. hex_val (hex_digit n) = Some n) [0..<16]" by code_simp
  ultimately show ?thesis by (simp add: list_all_iff)
qed

lemma read_hex4_digits:
  assumes "r < 65536"
  shows "read_hex4 (map hex_digit [r div 4096, r div 256 mod 16, r div 16 mod 16, r mod 16] @ s) = Some (r, s)"
proof -
  have "r div 4096 < 16" using assms by simp
  moreover have "4096 * (r div 4096) + 256 * (r div 256 mod 16) + 16 * (r div 16 mod 16) + r mod 16 = r"
  proof -
    have s: "r = 16 * (r div 16) + r mod 16" "r div 16 = 16 * (r div 16 div 16) + r div 16 mod 16"
      "r div 16 div 16 = 16 * (r div 16 div 16 div 16) + r div 16 div 16 mod 16"
      by (rule mult_div_mod_eq [symmetric])+
    have d: "r div 256 = r div 16 div 16" "r div 4096 = r div 16 div 16 div 16" by (simp_all flip: div_mult2_eq)
    have "4096 * q3 + 256 * (q2 mod 16) + 16 * (q1 mod 16) + q0 = r"
      if "r = 16 * q1 + q0" "q1 = 16 * q2 + q1 mod 16" "q2 = 16 * q3 + q2 mod 16" for q0 q1 q2 q3
      using that by linarith
    then show ?thesis unfolding d using s by blast
  qed
  ultimately show ?thesis by (simp add: hex_val_digit)
qed

lemma read_u_escape:
  assumes "r < 65536" "r < 0xD800 \<or> 0xE000 \<le> r"
  shows "read_string (u_escape r @ s) = map_option (\<lambda>(v, t). (encode_rune r @ v, t)) (read_string s)"
proof -
  have "read_escape (CHR ''u'' # map hex_digit [r div 4096, r div 256 mod 16, r div 16 mod 16, r mod 16] @ s) =
      Some (encode_rune r, s)"
    unfolding read_escape.simps read_hex4_digits [OF assms(1)] using assms(2) by auto
  then show ?thesis by (subst read_string.simps) (simp add: u_escape_def)
qed

lemma read_plain: "32 \<le> code_of c \<Longrightarrow> code_of c < 128 \<Longrightarrow> c \<noteq> DQ \<Longrightarrow> c \<noteq> BSL \<Longrightarrow>
    read_string (c # s) = map_option (\<lambda>(v, t). (c # v, t)) (read_string s)"
  by (subst read_string.simps) simp

lemma esc_table:
  assumes "c \<in> {DQ, BSL, CHR 0x08, FF, LF, CR, TAB}"
  obtains d where "esc_byte c = [BSL, d]" "\<And>s. read_escape (d # s) = Some ([c], s)"
proof -
  have "\<exists>d. esc_byte c = [BSL, d] \<and> (\<forall>s. read_escape (d # s) = Some ([c], s))"
    using assms by (elim insertE emptyE; simp add: esc_byte_def)
  then show thesis using that by blast
qed

lemma read_esc_byte:
  assumes "code_of c < 128"
  shows "read_string (esc_byte c @ s) = map_option (\<lambda>(v, t). (c # v, t)) (read_string s)"
proof -
  have e: "read_string (BSL # e # s) = map_option (\<lambda>(v, t). (b # v, t)) (read_string s)"
    if "read_escape (e # s) = Some ([b], s)" for e b
    using that by (subst read_string.simps) simp
  consider "c \<in> {DQ, BSL, CHR 0x08, FF, LF, CR, TAB}" | "c \<notin> {DQ, BSL, CHR 0x08, FF, LF, CR, TAB}"
    "code_of c < 32 \<or> c \<in> set ''<>&''" | "c \<notin> {DQ, BSL}" "\<not> code_of c < 32" "c \<notin> set ''<>&''" by auto
  then show ?thesis
  proof cases
    case 1
    show ?thesis by (rule esc_table [OF 1]) (simp add: e)
  next
    case 2
    then have "esc_byte c = u_escape (code_of c)" by (auto simp: esc_byte_def)
    moreover have "encode_rune (code_of c) = [c]" using assms by (simp add: encode_rune_def char_of_char)
    ultimately show ?thesis using read_u_escape [of "code_of c" s] assms by simp
  next
    case 3
    have "c \<noteq> CHR 0x08" "c \<noteq> FF" "c \<noteq> LF" "c \<noteq> CR" "c \<noteq> TAB" using 3(2) by (rule contrapos_nn, simp)+
    with 3 have "esc_byte c = [c]" by (simp add: esc_byte_def)
    with 3 assms show ?thesis by (simp add: read_plain)
  qed
qed

lemma to_utf8_Cons: "code_of c < 128 \<Longrightarrow> to_utf8 (c # s) = c # to_utf8 s"
  by (subst to_utf8.simps) simp

lemma char_of_bytes:
  "char_of (226 :: nat) = CHR 0xE2" "char_of (128 :: nat) = CHR 0x80" "char_of (168 :: nat) = CHR 0xA8"
  "char_of (169 :: nat) = CHR 0xA9" "char_of (239 :: nat) = CHR 0xEF" "char_of (191 :: nat) = CHR 0xBF"
  "char_of (189 :: nat) = CHR 0xBD"
  using char_of_char [of "CHR 0xE2", where 'a = nat] char_of_char [of "CHR 0x80", where 'a = nat]
    char_of_char [of "CHR 0xA8", where 'a = nat] char_of_char [of "CHR 0xA9", where 'a = nat]
    char_of_char [of "CHR 0xEF", where 'a = nat] char_of_char [of "CHR 0xBF", where 'a = nat]
    char_of_char [of "CHR 0xBD", where 'a = nat]
  by simp_all

lemma line_sep_rune:
  assumes "line_sep s = Some r" "rune_len s = Some n"
  shows "r < 65536 \<and> 0x2028 \<le> r \<and> r < 0xD800 \<and> encode_rune r = take n s"
proof -
  have three: "n = 3" if "take 3 s = [CHR 0xE2, CHR 0x80, x]" "cont x" for x
  proof -
    have "s = [CHR 0xE2, CHR 0x80, x] @ drop 3 s" unfolding that(1) [symmetric] by simp
    then have "s = CHR 0xE2 # CHR 0x80 # x # drop 3 s" by simp
    then obtain s' where "s = CHR 0xE2 # CHR 0x80 # x # s'" ..
    then show ?thesis using assms(2) that(2) by (simp add: cont_def)
  qed
  have "cont (CHR 0xA8)" "cont (CHR 0xA9)" by (simp_all add: cont_def)
  then show ?thesis using assms(1) three
    by (auto simp: line_sep_def encode_rune_def char_of_bytes split: if_splits)
qed

lemma read_rune:
  assumes "rune_len s = Some n" "\<not> code_of (hd s) < 128"
  shows "read_string (take n s @ u) = map_option (\<lambda>(v, t). (take n s @ v, t)) (read_string u)"
proof -
  have n: "0 < n" "n \<le> length s" using rune_len_le [OF assms(1)] by auto
  then have h: "hd (take n s @ u) = hd s" "take n s @ u \<noteq> []" by (cases s; cases n; auto)+
  have "hd s \<noteq> DQ" "hd s \<noteq> BSL" "\<not> code_of (hd s) < 32" using assms(2) by auto
  with h n rune_len_take [OF assms(1), of u] show ?thesis
    by (simp only: read_string.simps [of "take n s @ u"] if_False option.case) simp
qed

lemma encode_rune_error: "encode_rune 0xFFFD = rune_error"
  by (simp add: encode_rune_def rune_error_def char_of_bytes)

lemma read_esc_str: "read_string (esc_str s @ DQ # t) = Some (to_utf8 s, t)"
proof (induction s rule: esc_str.induct)
  case (1 s)
  show ?case
  proof (cases s)
    case Nil
    then show ?thesis by (simp add: esc_str.simps [of "[]"] to_utf8.simps [of "[]"] read_string.simps [of "DQ # t"])
  next
    case (Cons c s')
    show ?thesis
    proof (cases "code_of c < 128")
      case True
      with Cons 1(1) show ?thesis
        by (simp add: esc_str.simps [of "c # s'"] read_esc_byte to_utf8_Cons)
    next
      case big: False
      show ?thesis
      proof (cases "rune_len s")
        case None
        with Cons 1(2) big show ?thesis
          by (simp add: esc_str.simps [of "c # s'"] to_utf8.simps [of "c # s'"] read_u_escape encode_rune_error
            del: rune_len.simps)
      next
        case (Some n)
        then have ih: "read_string (esc_str (drop n s) @ DQ # t) = Some (to_utf8 (drop n s), t)"
          using 1(3) Cons big by auto
        have "read_string ((case line_sep s of Some r \<Rightarrow> u_escape r | None \<Rightarrow> take n s) @ u) =
            map_option (\<lambda>(v, t). (take n s @ v, t)) (read_string u)" for u
          using line_sep_rune [OF _ Some] read_u_escape read_rune [OF Some] Cons big
          by (auto split: option.split)
        note this [unfolded Cons]
        with ih Some Cons big show ?thesis
          by (simp add: esc_str.simps [of "c # s'"] to_utf8.simps [of "c # s'"] del: rune_len.simps)
      qed
    qed
  qed
qed

text \<open>The texts of a value, with any white space between the tokens.\<close>

abbreviation blank :: "string \<Rightarrow> bool" where "blank u \<equiv> list_all json_space u"

inductive json_text :: "json \<Rightarrow> string \<Rightarrow> bool"
  and elements_text :: "json list \<Rightarrow> string \<Rightarrow> bool"
  and members_text :: "(string \<times> json) list \<Rightarrow> string \<Rightarrow> bool" where
  text_null: "json_text JNull ''null''"
| text_true: "json_text (JBool True) ''true''"
| text_false: "json_text (JBool False) ''false''"
| text_num: "num_ok n \<Longrightarrow> json_text (JNum n) n"
| text_str: "json_text (JStr (to_utf8 s)) (quote_str s)"
| text_arr0: "json_text (JArr []) ''[]''"
| text_obj0: "json_text (JObj []) ''{}''"
| text_arr: "elements_text vs s \<Longrightarrow> json_text (JArr vs) (''['' @ s @ '']'')"
| text_obj: "members_text kvs s \<Longrightarrow> json_text (JObj kvs) (''{'' @ s @ ''}'')"
| elements_one: "blank u \<Longrightarrow> json_text v s \<Longrightarrow> blank w \<Longrightarrow> elements_text [v] (u @ s @ w)"
| elements_more: "blank u \<Longrightarrow> json_text v s \<Longrightarrow> elements_text vs t \<Longrightarrow> elements_text (v # vs) (u @ s @ '','' @ t)"
| members_one: "blank u \<Longrightarrow> blank x \<Longrightarrow> json_text v s \<Longrightarrow> blank w \<Longrightarrow>
    members_text [(to_utf8 k, v)] (u @ quote_str k @ '':'' @ x @ s @ w)"
| members_more: "blank u \<Longrightarrow> blank x \<Longrightarrow> json_text v s \<Longrightarrow> members_text kvs t \<Longrightarrow>
    members_text ((to_utf8 k, v) # kvs) (u @ quote_str k @ '':'' @ x @ s @ '','' @ t)"

lemma num_ok_chars:
  assumes "num_ok s"
  shows "list_all num_char s \<and> s \<noteq> [] \<and> (is_digit (hd s) \<or> hd s = CHR ''-'')"
proof -
  have d: "list_all num_char ds" if "list_all is_digit ds" for ds
    using that by (auto simp: list_all_iff num_char_def)
  have e: "list_all num_char t" if "exp_ok t" for t
    using that d [of "tl (tl t)"] d [of "tl t"]
    by (cases t; cases "tl t") (auto simp: exp_ok_def digits_ok_def num_char_def Let_def split: if_splits)
  have tk: "list_all num_char (takeWhile is_digit t)" for t by (rule d, rule list_all_takeWhile)
  have f: "list_all num_char t" if "frac_ok t" for t
  proof (cases "t \<noteq> [] \<and> hd t = CHR ''.''")
    case True
    then obtain t' where t: "t = CHR ''.'' # t'" by (cases t) auto
    then have "list_all num_char (takeWhile is_digit t' @ dropWhile is_digit t')"
      using that e tk unfolding list_all_append by (simp add: frac_ok_def)
    then show ?thesis using t by (simp add: num_char_def)
  qed (use that e in \<open>auto simp: frac_ok_def\<close>)
  define t where "t = (if HasPrefix s ''-'' then tl s else s)"
  have t: "takeWhile is_digit t \<noteq> []" "frac_ok (dropWhile is_digit t)"
    using assms unfolding num_ok_def t_def [symmetric] Let_def by simp_all
  have "list_all num_char (takeWhile is_digit t @ dropWhile is_digit t)"
    using f [OF t(2)] tk unfolding list_all_append by simp
  then have n: "list_all num_char t" by simp
  have h: "t \<noteq> [] \<and> is_digit (hd t)" using t(1) by (cases t) (auto split: if_splits)
  show ?thesis
  proof (cases "HasPrefix s ''-''")
    case True
    then obtain u where "s = CHR ''-'' # u" by (auto simp: HasPrefix_iff)
    with n True show ?thesis by (auto simp: t_def num_char_def)
  next
    case False
    with n h show ?thesis by (simp add: t_def)
  qed
qed

lemma json_space_not: "json_space c \<Longrightarrow> c \<noteq> DQ \<and> c \<notin> set ''[]{},:ntf-'' \<and> \<not> is_digit c"
  by (auto simp: json_space_def is_digit_def)

lemma num_char_not: "num_char c \<Longrightarrow> \<not> json_space c \<and> c \<noteq> DQ \<and> c \<notin> set ''[]{},:ntf''"
  by (auto simp: json_space_def is_digit_def num_char_def)

lemma skip_blank: "blank u \<Longrightarrow> skip_space (u @ s) = skip_space s"
  unfolding skip_space_def by (rule dropWhile_all) (simp add: list_all_iff)

lemma skip_here: "s \<noteq> [] \<Longrightarrow> \<not> json_space (hd s) \<Longrightarrow> skip_space (s @ r) = s @ r"
  by (cases s) (simp_all add: skip_space_def)

lemma json_text_hd:
  assumes "json_text j s"
  shows "s \<noteq> [] \<and> \<not> json_space (hd s) \<and> hd s \<notin> set '']},:''"
  using assms
proof (cases rule: json_text.cases)
  case text_num
  with num_ok_chars [of s] show ?thesis by (auto simp: json_space_def is_digit_def)
qed (auto simp: json_space_def quote_str_def)

lemma elements_text_hd: "elements_text vs s \<Longrightarrow> \<not> HasPrefix (skip_space (s @ r)) '']''"
proof (erule elements_text.cases)
  fix u v t w
  assume "blank u" "json_text v t" and s: "s = u @ t @ w"
  then show "\<not> HasPrefix (skip_space (s @ r)) '']''"
    using json_text_hd [of v t] skip_here [of t "w @ r"] by (cases t) (auto simp: skip_blank HasPrefix_def)
next
  fix u v t vs' w
  assume "blank u" "json_text v t" and s: "s = u @ t @ '','' @ w"
  then show "\<not> HasPrefix (skip_space (s @ r)) '']''"
    using json_text_hd [of v t] skip_here [of t "'','' @ w @ r"] by (cases t) (auto simp: skip_blank HasPrefix_def)
qed

lemma members_text_hd: "members_text kvs s \<Longrightarrow> \<not> HasPrefix (skip_space (s @ r)) ''}''"
  by (erule members_text.cases) (simp_all add: skip_blank, simp_all add: skip_space_def quote_str_def json_space_def HasPrefix_def)

text \<open>What may follow a value: no further character of a number.\<close>

definition ends :: "string \<Rightarrow> bool" where
  "ends r \<longleftrightarrow> r = [] \<or> \<not> num_char (hd r)"

lemma ends_blank: "blank u \<Longrightarrow> ends r \<Longrightarrow> ends (u @ r)"
  by (cases u) (auto simp: ends_def dest: num_char_not)

lemma ends_delim: "c \<in> set '']},'' \<Longrightarrow> ends (c # r)"
  by (auto simp: ends_def dest: num_char_not)

lemma read_num:
  assumes "num_ok n" "ends r" "0 < m"
  shows "read_value m (n @ r) = Some (JNum n, r)"
proof -
  note n = num_ok_chars [OF assms(1)]
  then obtain c t where c: "n = c # t" by (cases n) auto
  have "num_char c" using n c by simp
  note nc = num_char_not [OF this]
  have s: "skip_space (n @ r) = c # t @ r" using nc by (simp add: c skip_space_def)
  have "takeWhile num_char (n @ r) = n @ takeWhile num_char r" "dropWhile num_char (n @ r) = dropWhile num_char r"
    using n by (auto simp: list_all_iff intro!: takeWhile_all dropWhile_all)
  moreover have "takeWhile num_char r = [] \<and> dropWhile num_char r = r"
    using assms(2) by (cases r) (auto simp: ends_def)
  ultimately have "takeWhile num_char (c # t @ r) = n" "dropWhile num_char (c # t @ r) = r" by (simp_all add: c)
  with s nc assms show ?thesis by (cases m) (auto simp del: takeWhile.simps dropWhile.simps)
qed

lemma read_literal:
  "0 < m \<Longrightarrow> read_value m (''null'' @ r) = Some (JNull, r)"
  "0 < m \<Longrightarrow> read_value m (''true'' @ r) = Some (JBool True, r)"
  "0 < m \<Longrightarrow> read_value m (''false'' @ r) = Some (JBool False, r)"
  "0 < m \<Longrightarrow> read_value m (''[]'' @ r) = Some (JArr [], r)"
  "0 < m \<Longrightarrow> read_value m (''{}'' @ r) = Some (JObj [], r)"
  by (cases m; simp add: skip_space_def json_space_def read_word_def HasPrefix_def)+

lemma read_quote_str: "0 < m \<Longrightarrow> read_value m (quote_str s @ r) = Some (JStr (to_utf8 s), r)"
  by (cases m) (simp_all add: quote_str_def skip_space_def json_space_def read_esc_str)

lemma read_value_skip: "blank u \<Longrightarrow> read_value m (u @ s) = read_value m s"
  by (cases m) (simp_all add: skip_blank)

lemma read_bracket:
  assumes "read_elements m (s @ '']'' @ r) = Some (vs, r)" "\<not> HasPrefix (skip_space (s @ '']'' @ r)) '']''"
  shows "read_value (Suc m) (''['' @ (s @ '']'') @ r) = Some (JArr vs, r)"
  using assms by (simp add: skip_space_def [of "CHR ''['' # s'" for s'] json_space_def)

lemma read_brace:
  assumes "read_members m (s @ ''}'' @ r) = Some (kvs, r)" "\<not> HasPrefix (skip_space (s @ ''}'' @ r)) ''}''"
  shows "read_value (Suc m) (''{'' @ (s @ ''}'') @ r) = Some (JObj kvs, r)"
  using assms by (simp add: skip_space_def [of "CHR ''{'' # s'" for s'] json_space_def)

lemma read_member:
  assumes "blank u" "read_value m (x @ s) = Some (v, r)" "skip_space r = c # t"
  shows "read_members (Suc m) (u @ quote_str k @ '':'' @ x @ s) =
    (if c = CHR ''}'' then Some ([(to_utf8 k, v)], t)
     else if c = CHR '','' then map_option (\<lambda>(kvs, r). ((to_utf8 k, v) # kvs, r)) (read_members m t) else None)"
proof -
  have "skip_space (u @ quote_str k @ '':'' @ x @ s) = DQ # esc_str k @ DQ # CHR '':'' # x @ s"
    using assms(1) by (simp add: skip_blank) (simp add: skip_space_def quote_str_def json_space_def)
  moreover have "skip_space (CHR '':'' # x @ s) = CHR '':'' # x @ s" by (simp add: skip_space_def json_space_def)
  ultimately show ?thesis using assms(2,3) by (simp add: read_esc_str HasPrefix_def)
qed

text \<open>The parser reads every text of a value back, whatever follows it.\<close>

lemma read_text:
  "json_text j s \<Longrightarrow> (\<forall>m r. 2 * length s + 1 \<le> m \<longrightarrow> ends r \<longrightarrow> read_value m (s @ r) = Some (j, r))"
  "elements_text vs s \<Longrightarrow> (\<forall>m r. 2 * length s + 2 \<le> m \<longrightarrow> read_elements m (s @ '']'' @ r) = Some (vs, r))"
  "members_text kvs s \<Longrightarrow> (\<forall>m r. 2 * length s + 2 \<le> m \<longrightarrow> read_members m (s @ ''}'' @ r) = Some (kvs, r))"
proof (induction rule: json_text_elements_text_members_text.inducts)
  case text_null
  then show ?case using read_literal(1) by simp
next
  case text_true
  then show ?case using read_literal(2) by simp
next
  case text_false
  then show ?case using read_literal(3) by simp
next
  case (text_num n)
  then show ?case by (auto intro: read_num)
next
  case (text_str s)
  then show ?case by (auto intro: read_quote_str)
next
  case text_arr0
  then show ?case using read_literal(4) by simp
next
  case text_obj0
  then show ?case using read_literal(5) by simp
next
  case (text_arr vs s)
  show ?case
  proof (intro allI impI)
    fix m r assume m: "2 * length (''['' @ s @ '']'') + 1 \<le> m"
    then obtain k where k: "m = Suc k" "2 * length s + 2 \<le> k" by (cases m) auto
    show "read_value m ((''['' @ s @ '']'') @ r) = Some (JArr vs, r)"
      using read_bracket [OF text_arr.IH [rule_format, OF k(2)] elements_text_hd [OF text_arr.hyps]]
      by (simp only: k append_assoc)
  qed
next
  case (text_obj kvs s)
  show ?case
  proof (intro allI impI)
    fix m r assume m: "2 * length (''{'' @ s @ ''}'') + 1 \<le> m"
    then obtain k where k: "m = Suc k" "2 * length s + 2 \<le> k" by (cases m) auto
    show "read_value m ((''{'' @ s @ ''}'') @ r) = Some (JObj kvs, r)"
      using read_brace [OF text_obj.IH [rule_format, OF k(2)] members_text_hd [OF text_obj.hyps]]
      by (simp only: k append_assoc)
  qed
next
  case (elements_one u v s w)
  show ?case
  proof (intro allI impI)
    fix m r assume m: "2 * length (u @ s @ w) + 2 \<le> m"
    then obtain k where k: "m = Suc k" "2 * length s + 1 \<le> k" by (cases m) auto
    have "read_value k (u @ s @ w @ '']'' @ r) = Some (v, w @ '']'' @ r)"
      using elements_one.IH k ends_blank [OF elements_one.hyps(3)] by (simp add: read_value_skip elements_one.hyps(1) ends_delim)
    moreover have "skip_space (w @ '']'' @ r) = CHR '']'' # r"
      by (simp add: skip_blank elements_one.hyps(3)) (simp add: skip_space_def json_space_def)
    ultimately show "read_elements m ((u @ s @ w) @ '']'' @ r) = Some ([v], r)" by (simp add: k)
  qed
next
  case (elements_more u v s vs t)
  show ?case
  proof (intro allI impI)
    fix m r assume m: "2 * length (u @ s @ '','' @ t) + 2 \<le> m"
    then obtain k where k: "m = Suc k" "2 * length s + 1 \<le> k" "2 * length t + 2 \<le> k" by (cases m) auto
    have "read_value k (u @ s @ '','' @ t @ '']'' @ r) = Some (v, '','' @ t @ '']'' @ r)"
      using elements_more.IH(1) k by (simp add: read_value_skip elements_more.hyps(1) ends_delim)
    moreover have "skip_space ('','' @ t @ '']'' @ r) = CHR '','' # t @ '']'' @ r"
      by (simp add: skip_space_def json_space_def)
    moreover have "read_elements k (t @ '']'' @ r) = Some (vs, r)" using elements_more.IH(2) k by blast
    ultimately show "read_elements m ((u @ s @ '','' @ t) @ '']'' @ r) = Some (v # vs, r)" by (simp add: k)
  qed
next
  case (members_one u x v s w k)
  show ?case
  proof (intro allI impI)
    fix m r assume m: "2 * length (u @ quote_str k @ '':'' @ x @ s @ w) + 2 \<le> m"
    then obtain l where l: "m = Suc l" "2 * length s + 1 \<le> l" by (cases m) auto
    have "read_value l (x @ s @ w @ ''}'' @ r) = Some (v, w @ ''}'' @ r)"
      using members_one.IH l ends_blank [OF members_one.hyps(4)] by (simp add: read_value_skip members_one.hyps(2) ends_delim)
    moreover have "skip_space (w @ ''}'' @ r) = CHR ''}'' # r"
      by (simp add: skip_blank members_one.hyps(4)) (simp add: skip_space_def json_space_def)
    ultimately show "read_members m ((u @ quote_str k @ '':'' @ x @ s @ w) @ ''}'' @ r) = Some ([(to_utf8 k, v)], r)"
      using read_member [OF members_one.hyps(1), of l x] by (simp add: l(1) del: read_members.simps)
  qed
next
  case (members_more u x v s kvs t k)
  show ?case
  proof (intro allI impI)
    fix m r assume m: "2 * length (u @ quote_str k @ '':'' @ x @ s @ '','' @ t) + 2 \<le> m"
    then obtain l where l: "m = Suc l" "2 * length s + 1 \<le> l" "2 * length t + 2 \<le> l" by (cases m) auto
    have "read_value l (x @ s @ '','' @ t @ ''}'' @ r) = Some (v, '','' @ t @ ''}'' @ r)"
      using members_more.IH(1) l by (simp add: read_value_skip members_more.hyps(2) ends_delim)
    moreover have "skip_space ('','' @ t @ ''}'' @ r) = CHR '','' # t @ ''}'' @ r"
      by (simp add: skip_space_def json_space_def)
    moreover have "read_members l (t @ ''}'' @ r) = Some (kvs, r)" using members_more.IH(2) l by blast
    ultimately show "read_members m ((u @ quote_str k @ '':'' @ x @ s @ '','' @ t) @ ''}'' @ r) = Some ((to_utf8 k, v) # kvs, r)"
      using read_member [OF members_more.hyps(1), of l x] by (simp add: l(1) del: read_members.simps)
  qed
qed

text \<open>What a value is once it has been written and read: its strings as UTF-8.\<close>

fun utf8_json :: "json \<Rightarrow> json" where
  "utf8_json (JStr s) = JStr (to_utf8 s)"
| "utf8_json (JArr vs) = JArr (map utf8_json vs)"
| "utf8_json (JObj kvs) = JObj (map (\<lambda>(k, v). (to_utf8 k, utf8_json v)) kvs)"
| "utf8_json j = j"

fun all_nums :: "(string \<Rightarrow> bool) \<Rightarrow> json \<Rightarrow> bool" where
  "all_nums P (JNum n) = P n"
| "all_nums P (JArr vs) = list_all (all_nums P) vs"
| "all_nums P (JObj kvs) = list_all (\<lambda>(k, v). all_nums P v) kvs"
| "all_nums P j = True"

abbreviation nums_ok :: "json \<Rightarrow> bool" where "nums_ok \<equiv> all_nums num_ok"

lemma elements_text_Join:
  assumes "\<And>v. v \<in> set vs \<Longrightarrow> json_text (f v) (g v)" "vs \<noteq> []" "blank u" "blank w" "blank x"
  shows "elements_text (map f vs) (x @ Join (map g vs) ('','' @ u) @ w)"
  using assms(1,2,5)
proof (induction vs arbitrary: x)
  case (Cons v vs)
  show ?case
  proof (cases vs)
    case Nil
    with Cons.prems assms(4) show ?thesis by (simp add: elements_one)
  next
    case (Cons v' vs')
    have "elements_text (map f vs) (u @ Join (map g vs) ('','' @ u) @ w)"
      using Cons.IH [OF Cons.prems(1) _ assms(3)] Cons by simp
    then have "elements_text (f v # map f vs) (x @ g v @ '','' @ u @ Join (map g vs) ('','' @ u) @ w)"
      using Cons.prems(1,3) by (simp add: elements_more del: append.simps)
    with Cons show ?thesis by (simp add: Join_Cons)
  qed
qed simp

lemma members_text_Join:
  assumes "\<And>e. e \<in> set kvs \<Longrightarrow> json_text (f (snd e)) (g (snd e))" "kvs \<noteq> []" "blank u" "blank w" "blank x" "blank y"
  shows "members_text (map (\<lambda>(k, v). (to_utf8 k, f v)) kvs)
    (x @ Join (map (\<lambda>(k, v). quote_str k @ '':'' @ y @ g v) kvs) ('','' @ u) @ w)"
  using assms(1,2,5)
proof (induction kvs arbitrary: x)
  case (Cons kv kvs)
  obtain k v where kv: "kv = (k, v)" by (cases kv)
  let ?t = "\<lambda>(k, v). quote_str k @ '':'' @ y @ g v" and ?f = "\<lambda>(k, v). (to_utf8 k, f v)"
  show ?case
  proof (cases kvs)
    case Nil
    with Cons.prems assms(4,6) kv members_one [of x y "f v" "g v" w k] show ?thesis by simp
  next
    case (Cons kv' kvs')
    have "members_text (map ?f kvs) (u @ Join (map ?t kvs) ('','' @ u) @ w)"
      using Cons.IH [OF Cons.prems(1) [OF list.set_intros(2)] _ assms(3)] Cons by simp
    then have "members_text ((to_utf8 k, f v) # map ?f kvs)
        (x @ quote_str k @ '':'' @ y @ g v @ '','' @ u @ Join (map ?t kvs) ('','' @ u) @ w)"
      using Cons.prems(1) [OF list.set_intros(1)] Cons.prems(3) kv by (intro members_more) (auto simp: assms(6))
    with Cons kv show ?thesis by (simp add: Join_Cons)
  qed
qed simp

lemma blank_newline [simp]: "blank (newline d)"
  by (simp add: newline_def json_space_def list_all_iff)

lemma marshal_text: "nums_ok j \<Longrightarrow> json_text (utf8_json j) (json_marshal j)"
proof (induction j rule: json_marshal.induct)
  case (5 vs)
  show ?case
  proof (cases "vs = []")
    case False
    with 5 elements_text_Join [of vs utf8_json json_marshal "[]" "[]" "[]"] show ?thesis
      using text_arr by (simp add: list_all_iff del: append.simps) fastforce
  qed (use text_arr0 in simp)
next
  case (6 kvs)
  have "json_text (utf8_json (snd e)) (json_marshal (snd e))" if "e \<in> set kvs" for e
    using 6 that by (cases e) (force simp: list_all_iff)
  then have "members_text (map (\<lambda>(k, v). (to_utf8 k, utf8_json v)) kvs)
      (Join (map (\<lambda>(k, v). quote_str k @ '':'' @ json_marshal v) kvs) '','')" if "kvs \<noteq> []"
    using members_text_Join [of kvs utf8_json json_marshal "[]" "[]" "[]" "[]"] that by simp
  then show ?case using text_obj text_obj0 by (cases "kvs = []") auto
qed (auto intro: json_text_elements_text_members_text.intros)

lemma indent_text: "nums_ok j \<Longrightarrow> json_text (utf8_json j) (json_indent d j)"
proof (induction d j rule: json_indent.induct)
  case (1 d vs)
  show ?case
  proof (cases "vs = []")
    case False
    with 1 have "json_text (utf8_json v) (json_indent (Suc d) v)" if "v \<in> set vs" for v
      using that by (auto simp: list_all_iff)
    then have "elements_text (map utf8_json vs)
        (newline (Suc d) @ Join (map (json_indent (Suc d)) vs) ('','' @ newline (Suc d)) @ newline d)"
      using False by (intro elements_text_Join) auto
    from text_arr [OF this] False show ?thesis by simp
  qed (use text_arr0 in simp)
next
  case (2 d kvs)
  show ?case
  proof (cases "kvs = []")
    case False
    with 2 have "json_text (utf8_json (snd e)) (json_indent (Suc d) (snd e))" if "e \<in> set kvs" for e
      using that by (cases e) (force simp: list_all_iff)
    then have "members_text (map (\<lambda>(k, v). (to_utf8 k, utf8_json v)) kvs)
        (newline (Suc d) @ Join (map (\<lambda>(k, v). quote_str k @ '':'' @ '' '' @ json_indent (Suc d) v) kvs) ('','' @ newline (Suc d)) @
         newline d)"
      using False by (intro members_text_Join) (auto simp: json_space_def)
    from text_obj [OF this] False show ?thesis by simp
  qed (use text_obj0 in simp)
qed (simp_all add: marshal_text [of JNull, simplified] marshal_text [of "JBool b" for b, simplified]
  json_text_elements_text_members_text.intros)

lemma json_parse_text:
  assumes "json_text j s"
  shows "json_parse s = Some j"
  using read_text(1) [OF assms, rule_format, of "2 * length s + 2" "[]"]
  by (simp add: json_parse_def ends_def skip_space_def)

text \<open>Both forms of marshalling are read back.\<close>

lemma parse_marshal: "nums_ok j \<Longrightarrow> json_parse (json_marshal j) = Some (utf8_json j)"
  by (rule json_parse_text [OF marshal_text])

lemma parse_indent: "nums_ok j \<Longrightarrow> json_parse (json_indent 0 j) = Some (utf8_json j)"
  by (rule json_parse_text [OF indent_text])

subsection \<open>Assignment to Go values\<close>

text \<open>The field a struct field is filled from: names are compared without case; of a repeated key the
  last value counts (Go merges repeated objects and arrays).  \<open>null\<close> leaves the zero value.  The
  functions return \<open>None\<close> for Go's type error.\<close>

definition json_field :: "string \<Rightarrow> (string \<times> json) list \<Rightarrow> json option" where
  "json_field f kvs = map_of (rev (map (\<lambda>(k, v). (fold_case k, v)) kvs)) (fold_case f)"

fun as_string :: "json option \<Rightarrow> string option" where
  "as_string None = Some []"
| "as_string (Some JNull) = Some []"
| "as_string (Some (JStr s)) = Some s"
| "as_string (Some j) = None"

fun as_bool :: "json option \<Rightarrow> bool option" where
  "as_bool None = Some False"
| "as_bool (Some JNull) = Some False"
| "as_bool (Some (JBool b)) = Some b"
| "as_bool (Some j) = None"

text \<open>A 64-bit integer, and a pointer to one.\<close>

definition num_int64 :: "string \<Rightarrow> int option" where
  "num_int64 n = (case Atoi n of (i, ok) \<Rightarrow> if ok then Some i else None)"

fun as_int :: "json option \<Rightarrow> int option" where
  "as_int None = Some 0"
| "as_int (Some JNull) = Some 0"
| "as_int (Some (JNum n)) = num_int64 n"
| "as_int (Some j) = None"

fun as_int_ptr :: "json option \<Rightarrow> int option option" where
  "as_int_ptr None = Some None"
| "as_int_ptr (Some JNull) = Some None"
| "as_int_ptr (Some (JNum n)) = map_option Some (num_int64 n)"
| "as_int_ptr (Some j) = None"

text \<open>A slice and a struct; the argument decodes an element, or the struct from its members.\<close>

fun as_list :: "(json \<Rightarrow> 'a option) \<Rightarrow> json option \<Rightarrow> 'a list option" where
  "as_list dec None = Some []"
| "as_list dec (Some JNull) = Some []"
| "as_list dec (Some (JArr vs)) = those (map dec vs)"
| "as_list dec (Some j) = None"

fun as_struct :: "((string \<times> json) list \<Rightarrow> 'a option) \<Rightarrow> json option \<Rightarrow> 'a option" where
  "as_struct dec None = dec []"
| "as_struct dec (Some JNull) = dec []"
| "as_struct dec (Some (JObj kvs)) = dec kvs"
| "as_struct dec (Some j) = None"

fun as_struct_ptr :: "((string \<times> json) list \<Rightarrow> 'a option) \<Rightarrow> json option \<Rightarrow> 'a option option" where
  "as_struct_ptr dec None = Some None"
| "as_struct_ptr dec (Some JNull) = Some None"
| "as_struct_ptr dec (Some (JObj kvs)) = map_option Some (dec kvs)"
| "as_struct_ptr dec (Some j) = None"

text \<open>A value decoded into an \<open>interface{}\<close> and marshalled again: objects become maps, and a number
  goes through a \<open>float64\<close>, which is the parameter \<open>float_text\<close> (\<open>None\<close> when out of range).\<close>

fun iface :: "(string \<Rightarrow> string option) \<Rightarrow> json \<Rightarrow> json option" where
  "iface float_text (JNum n) = map_option JNum (float_text n)"
| "iface float_text (JArr vs) = map_option JArr (those (map (iface float_text) vs))"
| "iface float_text (JObj kvs) =
     map_option json_map (those (map (\<lambda>(k, v). map_option (Pair k) (iface float_text v)) kvs))"
| "iface float_text j = Some j"

subsection \<open>ASCII text and integers\<close>

lemma to_utf8_ascii: "list_all (\<lambda>c. code_of c < 128) s \<Longrightarrow> to_utf8 s = s"
  by (induction s) (simp_all add: to_utf8_Cons, simp add: to_utf8.simps)

lemma to_utf8_digits: "list_all is_digit s \<Longrightarrow> to_utf8 s = s"
  by (rule to_utf8_ascii) (auto simp: list_all_iff is_digit_def)

lemma dec_rev_last: "0 < n \<Longrightarrow> last (dec_rev n) \<noteq> CHR ''0''"
proof (induction n rule: dec_rev.induct)
  case (1 n)
  show ?case
  proof (cases "n < 10")
    case True
    have "digit_val (digit_char n) \<noteq> digit_val (CHR ''0'')"
      using True 1(2) digit_val_digit_char [OF True] by (simp add: digit_val_def)
    with True show ?thesis by (subst dec_rev.simps) auto
  next
    case False
    with 1 show ?thesis by (subst dec_rev.simps) (simp add: dec_rev_nonempty)
  qed
qed

lemma num_ok_show_int: "num_ok (show_int i)"
proof -
  have z: "show_nat 0 = ''0''" by code_simp
  have h: "hd (show_nat n) = CHR ''0'' \<longrightarrow> show_nat n = ''0''" for n
    using dec_rev_last [of n] dec_rev_nonempty [of n] z by (cases "n = 0") (auto simp: show_nat_def hd_rev)
  have t: "takeWhile is_digit (show_nat n) = show_nat n" "dropWhile is_digit (show_nat n) = []" for n
    using show_nat_digits [of n] by (auto simp: list_all_iff)
  have p: "\<not> HasPrefix (show_nat n) ''-''" for n by (rule digits_no_sign(1) [OF show_nat_digits])
  have e: "frac_ok []" by (simp add: frac_ok_def exp_ok_def)
  have "num_ok (show_nat n)" "num_ok (CHR ''-'' # show_nat n)" for n
    unfolding num_ok_def Let_def using h [of n] p [of n] e by (simp_all add: t HasPrefix_def)
  then show ?thesis by (simp add: show_int_def)
qed

lemma num_int64_show: "min_int64 \<le> i \<Longrightarrow> i \<le> max_int64 \<Longrightarrow> num_int64 (show_int i) = Some i"
  by (simp add: num_int64_def Atoi_show_int)

lemma marshal_last: "json_marshal (JObj kvs) \<noteq> [] \<and> last (json_marshal (JObj kvs)) = CHR ''}''"
  by simp

lemma those_map_Some: "those (map (\<lambda>x. Some (f x)) xs) = Some (map f xs)"
  by (induction xs) auto

subsection \<open>Maps\<close>

fun json_get :: "string \<Rightarrow> json \<Rightarrow> json option" where
  "json_get k (JObj kvs) = map_of kvs k"
| "json_get k j = None"

fun json_at :: "string list \<Rightarrow> json \<Rightarrow> json option" where
  "json_at [] j = Some j"
| "json_at (k # ks) j = (case json_get k j of None \<Rightarrow> None | Some v \<Rightarrow> json_at ks v)"

abbreviation assigned :: "(string \<times> json) list \<Rightarrow> (string \<times> json) list \<Rightarrow> (string \<times> json) list" where
  "assigned \<equiv> fold (\<lambda>(k, v). AList.update k v)"

lemma assigned_map_of: "map_of (assigned kvs acc) = map_of acc ++ map_of (rev kvs)"
  by (induction kvs arbitrary: acc) (auto simp: AList.update_conv' map_add_def fun_eq_iff split: option.split)

lemma assigned_distinct: "distinct (map fst acc) \<Longrightarrow> distinct (map fst (assigned kvs acc))"
  by (induction kvs arbitrary: acc) (auto simp: distinct_update)

lemma update_subset: "set (AList.update k v al) \<subseteq> insert (k, v) (set al)"
  by (induction al) auto

lemma assigned_subset: "set (assigned kvs acc) \<subseteq> set kvs \<union> set acc"
proof (induction kvs arbitrary: acc)
  case (Cons kv kvs)
  obtain k v where "kv = (k, v)" by (cases kv)
  with Cons [of "AList.update k v acc"] update_subset [of k v acc] show ?case by auto
qed simp

lemma json_get_map: "json_get k (json_map kvs) = map_of (rev kvs) k"
proof -
  let ?m = "assigned kvs []"
  have d: "distinct (map fst ?m)" by (rule assigned_distinct) simp
  then have "distinct (map fst (sort_key fst ?m))"
    by (metis distinct_map distinct_sort set_sort)
  with d have "map_of (sort_key fst ?m) = map_of ?m" by (simp add: map_of_inject_set)
  then show ?thesis by (simp add: json_map_def assigned_map_of)
qed

lemma nums_ok_map:
  assumes "\<And>e. e \<in> set kvs \<Longrightarrow> all_nums P (snd e)"
  shows "all_nums P (json_map kvs)"
  using assms assigned_subset [of kvs "[]"] by (fastforce simp: json_map_def list_all_iff)

lemma nums_ok_iface:
  assumes "\<And>n n'. float_text n = Some n' \<Longrightarrow> P n'"
  shows "iface float_text j = Some j' \<Longrightarrow> all_nums P j'"
proof (induction j arbitrary: j')
  case (JNum n)
  with assms show ?case by auto
next
  case (JArr vs)
  then obtain vs' where vs: "those (map (iface float_text) vs) = Some vs'" "j' = JArr vs'" by auto
  have "list_all (all_nums P) ys" if "those (map (iface float_text) xs) = Some ys" "set xs \<subseteq> set vs" for xs ys
    using that by (induction xs arbitrary: ys) (auto split: option.splits intro: JArr.IH)
  from this [OF vs(1)] vs(2) show ?case by simp
next
  case (JObj kvs)
  let ?f = "\<lambda>(k, v). map_option (Pair k) (iface float_text v)"
  from JObj.prems obtain kvs' where kvs: "those (map ?f kvs) = Some kvs'" "j' = json_map kvs'" by auto
  have "list_all (\<lambda>e. all_nums P (snd e)) ys" if "those (map ?f xs) = Some ys" "set xs \<subseteq> set kvs" for xs ys
    using that
  proof (induction xs arbitrary: ys)
    case (Cons x xs)
    obtain k v where x: "x = (k, v)" by (cases x)
    with Cons.prems obtain v' zs where z: "iface float_text v = Some v'" "those (map ?f xs) = Some zs" "ys = (k, v') # zs"
      by (auto split: option.splits)
    have "(k, v) \<in> set kvs" using Cons.prems(2) x by simp
    then have "all_nums P v'" using JObj.IH [of "(k, v)" v v'] z(1) by simp
    with Cons.IH [OF z(2)] Cons.prems(2) z(3) show ?case by simp
  qed simp
  from this [OF kvs(1)] kvs(2) show ?case by (simp add: nums_ok_map list_all_iff)
qed auto

end
