(* ===== verification/Mcp_Proxy.thy ===== *)
theory Mcp_Proxy
  imports Go_Json "HOL-Library.Word"
begin

text \<open>
  The MCP client of \<open>internal/mcpproxy/mcpproxy.go\<close>: JSON-RPC over the standard input and output of
  a child process.  The process is the record \<open>mcp_lib\<close> of parameters on a state \<open>'w\<close>: starting it,
  one \<open>Write\<close> to it, one \<open>ReadBytes\<close> of a line from it, closing it.  \<open>call\<close> holds the mutex from
  its request to its answer, so calls follow one another; the loop that waits for the answer may
  never end, which is the value \<open>None\<close>.
\<close>

subsection \<open>The code\<close>

record Tool =
  tl_Name :: string
  tl_Description :: string
  tl_InputSchema :: "json option"

record Proxy =
  pr_nextID :: "64 word"
  pr_tools :: "Tool list"

datatype mcp_error =
    EmptyCommand
  | PipeFailed
  | StartFailed
  | InitializeFailed mcp_error
  | ToolsListFailed mcp_error
  | WritingRequest
  | ReadingLine
  | JsonrpcError int string
  | ParsingToolsList
  | ParsingCallResult
  | ToolError string

record 'w mcp_lib =
  mcp_spawn :: "'w \<Rightarrow> string list \<Rightarrow> mcp_error option \<times> 'w"
  mcp_write :: "'w \<Rightarrow> bytes \<Rightarrow> bool \<times> 'w"
  mcp_read_line :: "'w \<Rightarrow> bytes option \<times> 'w"
  mcp_close :: "'w \<Rightarrow> 'w"

definition trimCRLF :: "bytes \<Rightarrow> bytes" where
  "trimCRLF b = trim_right (\<lambda>c. c = LF \<or> c = CR) b"

text \<open>\<open>jsonrpcRequest\<close> as it is marshalled: absent id and parameters are left out.\<close>

definition jsonrpcRequest :: "int option \<Rightarrow> string \<Rightarrow> json option \<Rightarrow> json" where
  "jsonrpcRequest rid meth params =
     JObj ([(''jsonrpc'', JStr ''2.0'')] @
       (case rid of None \<Rightarrow> [] | Some i \<Rightarrow> [(''id'', JNum (show_int i))]) @
       [(''method'', JStr meth)] @
       (case params of None \<Rightarrow> [] | Some j \<Rightarrow> [(''params'', j)]))"

record jsonrpcResponse =
  jr_ID :: "int option"
  jr_Result :: "json option"
  jr_Error :: "(int \<times> string) option"

definition jsonrpcError :: "(string \<times> json) list \<Rightarrow> (int \<times> string) option" where
  "jsonrpcError kvs =
     (case (as_int (json_field ''code'' kvs), as_string (json_field ''message'' kvs)) of
        (Some c, Some m) \<Rightarrow> Some (c, m) | _ \<Rightarrow> None)"

definition decode_response :: "(string \<times> json) list \<Rightarrow> jsonrpcResponse option" where
  "decode_response kvs =
     (case (as_string (json_field ''jsonrpc'' kvs), as_int_ptr (json_field ''id'' kvs),
            as_struct_ptr jsonrpcError (json_field ''error'' kvs)) of
        (Some _, Some i, Some e) \<Rightarrow> Some \<lparr>jr_ID = i, jr_Result = json_field ''result'' kvs, jr_Error = e\<rparr>
      | _ \<Rightarrow> None)"

text \<open>The body of the loop in \<open>call\<close>: \<open>None\<close> is \<open>continue\<close>.\<close>

definition answer_to :: "int \<Rightarrow> bytes \<Rightarrow> (mcp_error + json option) option" where
  "answer_to rid raw =
     (let line = trimCRLF raw in
      if line = [] then None
      else (case json_parse line of
          None \<Rightarrow> None
        | Some j \<Rightarrow>
            (case as_struct decode_response (Some j) of
               None \<Rightarrow> None
             | Some resp \<Rightarrow>
                 if jr_ID resp = None then None
                 else if jr_ID resp \<noteq> Some rid then None
                 else (case jr_Error resp of
                     Some (c, m) \<Rightarrow> Some (Inl (JsonrpcError c m))
                   | None \<Rightarrow> Some (Inr (jr_Result resp))))))"

partial_function (option) await :: "'w mcp_lib \<Rightarrow> int \<Rightarrow> 'w \<Rightarrow> ((mcp_error + json option) \<times> 'w) option" where
  "await lib rid w =
     (case mcp_read_line lib w of
        (None, w') \<Rightarrow> Some (Inl ReadingLine, w')
      | (Some line, w') \<Rightarrow>
          (case answer_to rid line of None \<Rightarrow> await lib rid w' | Some r \<Rightarrow> Some (r, w')))"

definition call :: "'w mcp_lib \<Rightarrow> string \<Rightarrow> json option \<Rightarrow> Proxy \<Rightarrow> 'w \<Rightarrow>
    ((mcp_error + json option) \<times> Proxy \<times> 'w) option" where
  "call lib meth params p w =
     (let nid = pr_nextID p + 1; p' = p\<lparr>pr_nextID := nid\<rparr>;
          data = json_marshal (jsonrpcRequest (Some (sint nid)) meth params) @ [LF]
      in case mcp_write lib w data of
           (False, w') \<Rightarrow> Some (Inl WritingRequest, p', w')
         | (True, w') \<Rightarrow> map_option (\<lambda>(r, w''). (r, p', w'')) (await lib (sint nid) w'))"

definition notify :: "'w mcp_lib \<Rightarrow> string \<Rightarrow> json option \<Rightarrow> 'w \<Rightarrow> (mcp_error + unit) \<times> 'w" where
  "notify lib meth params w =
     (case mcp_write lib w (json_marshal (jsonrpcRequest None meth params) @ [LF]) of
        (ok, w') \<Rightarrow> (if ok then Inr () else Inl WritingRequest, w'))"

definition initialize_params :: json where
  "initialize_params =
     JObj [(''protocolVersion'', JStr ''2024-11-05''), (''capabilities'', JObj []),
           (''clientInfo'', JObj [(''name'', JStr ''sshttpd''), (''version'', JStr ''0.1.0'')])]"

definition initialize :: "'w mcp_lib \<Rightarrow> Proxy \<Rightarrow> 'w \<Rightarrow> ((mcp_error + unit) \<times> Proxy \<times> 'w) option" where
  "initialize lib p w =
     (case call lib ''initialize'' (Some initialize_params) p w of
        None \<Rightarrow> None
      | Some (Inl e, p', w') \<Rightarrow> Some (Inl e, p', w')
      | Some (Inr _, p', w') \<Rightarrow>
          (case notify lib ''notifications/initialized'' None w' of (r, w'') \<Rightarrow> Some (r, p', w'')))"

definition decode_tool :: "(string \<times> json) list \<Rightarrow> Tool option" where
  "decode_tool kvs =
     (case (as_string (json_field ''name'' kvs), as_string (json_field ''description'' kvs)) of
        (Some n, Some d) \<Rightarrow> Some \<lparr>tl_Name = n, tl_Description = d, tl_InputSchema = json_field ''inputSchema'' kvs\<rparr>
      | _ \<Rightarrow> None)"

text \<open>\<open>json.Unmarshal\<close> of an absent result fails: there is no value in an empty text.\<close>

definition decode_tools :: "json option \<Rightarrow> Tool list option" where
  "decode_tools result =
     (case result of
        None \<Rightarrow> None
      | Some j \<Rightarrow>
          as_struct (\<lambda>kvs. as_list (\<lambda>v. as_struct decode_tool (Some v)) (json_field ''tools'' kvs)) (Some j))"

definition refreshTools :: "'w mcp_lib \<Rightarrow> Proxy \<Rightarrow> 'w \<Rightarrow> ((mcp_error + unit) \<times> Proxy \<times> 'w) option" where
  "refreshTools lib p w =
     (case call lib ''tools/list'' None p w of
        None \<Rightarrow> None
      | Some (Inl e, p', w') \<Rightarrow> Some (Inl e, p', w')
      | Some (Inr result, p', w') \<Rightarrow>
          (case decode_tools result of
             None \<Rightarrow> Some (Inl ParsingToolsList, p', w')
           | Some ts \<Rightarrow> Some (Inr (), p'\<lparr>pr_tools := ts\<rparr>, w')))"

text \<open>\<open>Start\<close>; on an error the process is closed and there is no proxy.\<close>

definition Start :: "'w mcp_lib \<Rightarrow> string \<Rightarrow> 'w \<Rightarrow> ((mcp_error + Proxy) \<times> 'w) option" where
  "Start lib command w =
     (let parts = Fields command in
      if parts = [] then Some (Inl EmptyCommand, w)
      else (case mcp_spawn lib w parts of
          (Some e, w') \<Rightarrow> Some (Inl e, w')
        | (None, w') \<Rightarrow>
            (case initialize lib \<lparr>pr_nextID = 0, pr_tools = []\<rparr> w' of
               None \<Rightarrow> None
             | Some (Inl e, p, w2) \<Rightarrow> Some (Inl (InitializeFailed e), mcp_close lib w2)
             | Some (Inr _, p, w2) \<Rightarrow>
                 (case refreshTools lib p w2 of
                    None \<Rightarrow> None
                  | Some (Inl e, p', w3) \<Rightarrow> Some (Inl (ToolsListFailed e), mcp_close lib w3)
                  | Some (Inr _, p', w3) \<Rightarrow> Some (Inr p', w3)))))"

definition Tools :: "Proxy \<Rightarrow> Tool list" where
  "Tools p = pr_tools p"

definition decode_content :: "(string \<times> json) list \<Rightarrow> (string \<times> string) option" where
  "decode_content kvs =
     (case (as_string (json_field ''type'' kvs), as_string (json_field ''text'' kvs)) of
        (Some ty, Some tx) \<Rightarrow> Some (ty, tx) | _ \<Rightarrow> None)"

definition decode_call_result :: "json option \<Rightarrow> ((string \<times> string) list \<times> bool) option" where
  "decode_call_result result =
     (case result of
        None \<Rightarrow> None
      | Some j \<Rightarrow>
          as_struct (\<lambda>kvs.
            (case (as_list (\<lambda>v. as_struct decode_content (Some v)) (json_field ''content'' kvs),
                   as_bool (json_field ''isError'' kvs)) of
               (Some cs, Some e) \<Rightarrow> Some (cs, e) | _ \<Rightarrow> None)) (Some j))"

definition CallTool :: "'w mcp_lib \<Rightarrow> string \<Rightarrow> (string \<times> json) list \<Rightarrow> Proxy \<Rightarrow> 'w \<Rightarrow>
    ((mcp_error + string) \<times> Proxy \<times> 'w) option" where
  "CallTool lib name arguments p w =
     (let raw = json_map [(''name'', JStr name), (''arguments'', json_map arguments)] in
      case call lib ''tools/call'' (Some raw) p w of
        None \<Rightarrow> None
      | Some (Inl e, p', w') \<Rightarrow> Some (Inl e, p', w')
      | Some (Inr result, p', w') \<Rightarrow>
          (case decode_call_result result of
             None \<Rightarrow> Some (Inl ParsingCallResult, p', w')
           | Some (cs, isError) \<Rightarrow>
               let texts = map snd (filter (\<lambda>c. fst c = ''text'') cs); out = Join texts [LF] in
               Some (if isError then Inl (ToolError out) else Inr out, p', w')))"

subsection \<open>Whose answer a call takes\<close>

text \<open>What a server sends, one line each: the answer to a request, and a notification.\<close>

definition response_line :: "int \<Rightarrow> json \<Rightarrow> bytes" where
  "response_line i result =
     json_marshal (JObj [(''jsonrpc'', JStr ''2.0''), (''id'', JNum (show_int i)), (''result'', result)]) @ [LF]"

definition request_line :: "int option \<Rightarrow> string \<Rightarrow> json option \<Rightarrow> bytes" where
  "request_line i meth params = json_marshal (jsonrpcRequest i meth params) @ [LF]"

lemma trimCRLF_marshal: "trimCRLF (json_marshal (JObj kvs) @ [LF]) = json_marshal (JObj kvs)"
proof -
  have "trimCRLF (json_marshal (JObj kvs) @ [LF]) = trim_right (\<lambda>c. c = LF \<or> c = CR) (json_marshal (JObj kvs))"
    unfolding trimCRLF_def trim_right_snoc by simp
  also have "\<dots> = json_marshal (JObj kvs)"
    by (rule trim_right_id) (use marshal_last [of kvs] in auto)
  finally show ?thesis .
qed

lemmas utf8_keys = to_utf8_ascii [of "''jsonrpc''"] to_utf8_ascii [of "''id''"] to_utf8_ascii [of "''result''"]
  to_utf8_ascii [of "''2.0''"] to_utf8_ascii [of "''method''"] to_utf8_ascii [of "''params''"]
  to_utf8_ascii [of "''name''"] to_utf8_ascii [of "''arguments''"] to_utf8_ascii [of "''content''"]
  to_utf8_ascii [of "''type''"] to_utf8_ascii [of "''text''"] to_utf8_ascii [of "''isError''"]

lemma lower_keys:
  "fold_case ''jsonrpc'' = ''jsonrpc''" "fold_case ''id'' = ''id''" "fold_case ''result'' = ''result''"
  "fold_case ''error'' = ''error''" "fold_case ''code'' = ''code''" "fold_case ''message'' = ''message''"
  "fold_case ''method'' = ''method''" "fold_case ''params'' = ''params''" "fold_case ''content'' = ''content''"
  "fold_case ''type'' = ''type''" "fold_case ''text'' = ''text''" "fold_case ''isError'' = ''iserror''"
  by code_simp+

lemma answer_response:
  assumes "nums_ok result" "min_int64 \<le> i" "i \<le> max_int64"
  shows "answer_to rid (response_line i result) = (if i = rid then Some (Inr (Some (utf8_json result))) else None)"
proof -
  let ?o = "[(''jsonrpc'', JStr ''2.0''), (''id'', JNum (show_int i)), (''result'', result)]"
  have "json_parse (json_marshal (JObj ?o)) = Some (utf8_json (JObj ?o))"
    by (rule parse_marshal) (use assms(1) in \<open>simp add: num_ok_show_int\<close>)
  moreover have "utf8_json (JObj ?o) =
      JObj [(''jsonrpc'', JStr ''2.0''), (''id'', JNum (show_int i)), (''result'', utf8_json result)]"
    by (simp add: utf8_keys)
  moreover have "json_marshal (JObj ?o) \<noteq> []" using marshal_last by blast
  ultimately show ?thesis
    unfolding answer_to_def response_line_def trimCRLF_marshal Let_def
    by (simp add: decode_response_def json_field_def lower_keys num_int64_show assms(2,3) del: json_marshal.simps)
qed

text \<open>A line that is no answer to the call \<open>rid\<close>: white space, garbage, an answer to another call, a
  notification.\<close>

definition unrelated :: "int \<Rightarrow> bytes \<Rightarrow> bool" where
  "unrelated rid l \<longleftrightarrow> trimCRLF l = [] \<or> json_parse (trimCRLF l) = None \<or>
     (\<exists>i result. i \<noteq> rid \<and> min_int64 \<le> i \<and> i \<le> max_int64 \<and> nums_ok result \<and> l = response_line i result) \<or>
     (\<exists>meth params. (\<forall>j. params = Some j \<longrightarrow> nums_ok j) \<and> l = request_line None meth params)"

lemma answer_request:
  assumes "\<forall>j. params = Some j \<longrightarrow> nums_ok j" "\<forall>i. sid = Some i \<longrightarrow> min_int64 \<le> i \<and> i \<le> max_int64"
  shows "answer_to rid (request_line sid meth params) = (if sid = Some rid then Some (Inr None) else None)"
proof -
  obtain o' where o': "jsonrpcRequest sid meth params = JObj o'" by (simp add: jsonrpcRequest_def)
  have "nums_ok (jsonrpcRequest sid meth params)"
    using assms(1) by (auto simp: jsonrpcRequest_def num_ok_show_int split: option.split)
  then have p: "json_parse (json_marshal (JObj o')) = Some (utf8_json (JObj o'))"
    unfolding o' by (rule parse_marshal)
  have u: "utf8_json (JObj o') = JObj ([(''jsonrpc'', JStr ''2.0'')] @
       (case sid of None \<Rightarrow> [] | Some i \<Rightarrow> [(''id'', JNum (show_int i))]) @
       [(''method'', JStr (to_utf8 meth))] @
       (case params of None \<Rightarrow> [] | Some j \<Rightarrow> [(''params'', utf8_json j)]))"
    unfolding o' [symmetric] by (auto simp: jsonrpcRequest_def utf8_keys split: option.split)
  have "json_marshal (JObj o') \<noteq> []" using marshal_last by blast
  then show ?thesis
    unfolding answer_to_def request_line_def o' trimCRLF_marshal Let_def p u using assms(2)
    by (cases sid; cases params)
      (simp_all add: decode_response_def json_field_def lower_keys num_int64_show del: json_marshal.simps)
qed

lemma unrelated_skipped: "unrelated rid l \<Longrightarrow> answer_to rid l = None"
  unfolding unrelated_def
proof (elim disjE exE conjE)
  fix meth params assume "\<forall>j. params = Some j \<longrightarrow> nums_ok j" "l = request_line None meth params"
  then show "answer_to rid l = None" using answer_request [of params None] by simp
qed (simp_all add: answer_response, simp_all add: answer_to_def Let_def)

text \<open>A server that sends the lines of its script and keeps what it is sent.\<close>

record script =
  inbox :: "bytes list"
  outbox :: "bytes list"

definition script_lib :: "script mcp_lib" where
  "script_lib =
     \<lparr>mcp_spawn = (\<lambda>w ps. (None, w)),
      mcp_write = (\<lambda>w b. (True, w\<lparr>outbox := outbox w @ [b]\<rparr>)),
      mcp_read_line = (\<lambda>w. case inbox w of [] \<Rightarrow> (None, w) | l # ls \<Rightarrow> (Some l, w\<lparr>inbox := ls\<rparr>)),
      mcp_close = (\<lambda>w. w)\<rparr>"

lemma await_script:
  "list_all (\<lambda>l. answer_to rid l = None) noise \<Longrightarrow> answer_to rid l = Some r \<Longrightarrow>
   await script_lib rid \<lparr>inbox = noise @ l # rest, outbox = out\<rparr> = Some (r, \<lparr>inbox = rest, outbox = out\<rparr>)"
proof (induction noise)
  case Nil
  then show ?case by (subst await.simps) (simp add: script_lib_def)
next
  case (Cons n noise)
  then show ?case by (subst await.simps) (simp add: script_lib_def)
qed

lemma id_range: "min_int64 \<le> sint (x :: 64 word)" "sint (x :: 64 word) \<le> max_int64"
  using sint_ge [of x] sint_lt [of x] by (simp_all add: min_int64_def max_int64_def)

lemma call_script:
  assumes "list_all (unrelated rid) noise" "rid = sint (pr_nextID p + 1)" "nums_ok result"
  shows "call script_lib meth params p \<lparr>inbox = noise @ response_line rid result # rest, outbox = out\<rparr> =
    Some (Inr (Some (utf8_json result)), p\<lparr>pr_nextID := pr_nextID p + 1\<rparr>,
      \<lparr>inbox = rest, outbox = out @ [request_line (Some rid) meth params]\<rparr>)"
proof -
  have "list_all (\<lambda>l. answer_to rid l = None) noise"
    using assms(1) by (auto simp: list_all_iff intro: unrelated_skipped)
  moreover have "answer_to rid (response_line rid result) = Some (Inr (Some (utf8_json result)))"
    using answer_response [OF assms(3)] id_range assms(2) by simp
  ultimately have "await script_lib rid \<lparr>inbox = noise @ response_line rid result # rest, outbox = o'\<rparr> =
      Some (Inr (Some (utf8_json result)), \<lparr>inbox = rest, outbox = o'\<rparr>)" for o'
    by (rule await_script)
  then show ?thesis
    by (simp add: call_def Let_def script_lib_def [THEN arg_cong, of mcp_write] request_line_def flip: assms(2))
qed


definition text_item :: "string \<times> string \<Rightarrow> json" where
  "text_item c = JObj [(''type'', JStr (fst c)), (''text'', JStr (snd c))]"

definition tool_result :: "(string \<times> string) list \<Rightarrow> bool \<Rightarrow> json" where
  "tool_result items isError = JObj [(''content'', JArr (map text_item items)), (''isError'', JBool isError)]"

lemma decode_tool_result: "decode_call_result (Some (utf8_json (tool_result items isError))) =
    Some (map (\<lambda>(ty, tx). (to_utf8 ty, to_utf8 tx)) items, isError)"
proof -
  have "utf8_json (text_item c) = text_item (to_utf8 (fst c), to_utf8 (snd c))" for c
    by (simp add: text_item_def utf8_keys)
  moreover have "as_struct decode_content (Some (text_item c)) = Some (fst c, snd c)" for c
    by (simp add: text_item_def decode_content_def json_field_def lower_keys)
  ultimately show ?thesis
    by (simp add: tool_result_def decode_call_result_def json_field_def lower_keys utf8_keys comp_def
      those_map_Some case_prod_unfold)
qed

text \<open>\<open>CallTool\<close> delivers a tool's text: when the server answers with a list of content items, the
  caller gets the texts of the items of type \<open>text\<close>, one per line and in order, as the result or,
  when the answer is marked as an error, as the error; and the server was sent one
  \<open>tools/call\<close> with the name and the arguments as given.\<close>

theorem tool_text_delivered:
  fixes p :: Proxy and items :: "(string \<times> string) list"
  defines "rid \<equiv> sint (pr_nextID p + 1)"
    and "out_text \<equiv> Join (map (to_utf8 \<circ> snd) (filter (\<lambda>c. to_utf8 (fst c) = ''text'') items)) [LF]"
  assumes "list_all (unrelated rid) noise"
  shows "CallTool script_lib name arguments p
      \<lparr>inbox = noise @ response_line rid (tool_result items isError) # rest, outbox = out\<rparr> =
    Some (if isError then Inl (ToolError out_text) else Inr out_text, p\<lparr>pr_nextID := pr_nextID p + 1\<rparr>,
      \<lparr>inbox = rest, outbox = out @ [request_line (Some rid) ''tools/call''
         (Some (json_map [(''name'', JStr name), (''arguments'', json_map arguments)]))]\<rparr>)"
proof -
  have n: "nums_ok (tool_result items isError)" by (simp add: tool_result_def text_item_def list_all_iff)
  show ?thesis
    unfolding CallTool_def Let_def call_script [OF assms(3) rid_def [THEN meta_eq_to_obj_eq] n]
    by (simp add: decode_tool_result out_text_def filter_map comp_def case_prod_unfold)
qed

theorem tool_text_delivered_witness:
  "CallTool script_lib ''sum'' [(''a'', JStr ''1'')] \<lparr>pr_nextID = 2, pr_tools = []\<rparr>
     \<lparr>inbox = [[CR, LF]] @ response_line 3 (tool_result [(''text'', ''x''), (''image'', ''y''), (''text'', ''z'')] False) # [],
      outbox = []\<rparr> =
   Some (Inr (''x'' @ [LF] @ ''z''), \<lparr>pr_nextID = 3, pr_tools = []\<rparr>,
     \<lparr>inbox = [], outbox = [request_line (Some 3) ''tools/call''
        (Some (json_map [(''name'', JStr ''sum''), (''arguments'', json_map [(''a'', JStr ''1'')])]))]\<rparr>)"
proof -
  have "list_all (unrelated (sint (pr_nextID \<lparr>pr_nextID = 2, pr_tools = []\<rparr> + 1))) [[CR, LF]]"
    by (simp add: unrelated_def trimCRLF_def trim_right_def)
  from tool_text_delivered [OF this, of "''sum''" "[(''a'', JStr ''1'')]" "[(''text'', ''x''), (''image'', ''y''), (''text'', ''z'')]"
      False "[]" "[]"]
  show ?thesis by (simp add: to_utf8_ascii)
qed


text \<open>A request of the server's own that happens to carry the id of the pending call is taken for its
  answer: the call ends with an absent result, and \<open>CallTool\<close> reports that it cannot parse it.\<close>

theorem server_request_taken_as_answer:
  assumes "\<forall>j. params' = Some j \<longrightarrow> nums_ok j"
  shows "CallTool script_lib name arguments p
      \<lparr>inbox = request_line (Some (sint (pr_nextID p + 1))) meth' params' # rest, outbox = out\<rparr> =
    Some (Inl ParsingCallResult, p\<lparr>pr_nextID := pr_nextID p + 1\<rparr>,
      \<lparr>inbox = rest, outbox = out @ [request_line (Some (sint (pr_nextID p + 1))) ''tools/call''
         (Some (json_map [(''name'', JStr name), (''arguments'', json_map arguments)]))]\<rparr>)"
proof -
  let ?rid = "sint (pr_nextID p + 1)"
  have "answer_to ?rid (request_line (Some ?rid) meth' params') = Some (Inr None)"
    using answer_request [OF assms, of "Some ?rid" ?rid] id_range by simp
  from await_script [OF _ this, of "[]"]
  have "await script_lib ?rid \<lparr>inbox = request_line (Some ?rid) meth' params' # rest, outbox = o'\<rparr> =
      Some (Inr None, \<lparr>inbox = rest, outbox = o'\<rparr>)" for o'
    by simp
  then show ?thesis
    by (simp add: CallTool_def call_def Let_def script_lib_def [THEN arg_cong, of mcp_write] request_line_def
      decode_call_result_def)
qed

theorem server_request_taken_as_answer_witness:
  "CallTool script_lib ''sum'' [] \<lparr>pr_nextID = 0, pr_tools = []\<rparr>
     \<lparr>inbox = [request_line (Some 1) ''ping'' None], outbox = []\<rparr> =
   Some (Inl ParsingCallResult, \<lparr>pr_nextID = 1, pr_tools = []\<rparr>,
     \<lparr>inbox = [], outbox = [request_line (Some 1) ''tools/call''
         (Some (json_map [(''name'', JStr ''sum''), (''arguments'', json_map [])]))]\<rparr>)"
  using server_request_taken_as_answer [of None "''sum''" "[]" "\<lparr>pr_nextID = 0, pr_tools = []\<rparr>" "''ping''" "[]" "[]"]
  by simp

end
