(* ===== verification/Discovery.thy ===== *)
theory Discovery
  imports Content Routes Auth_Tiers Mcp_Proxy
begin

text \<open>
  What a site tells about itself: the \<open>capabilities\<close> manifest, \<open>rss-feed\<close>, \<open>sitemap\<close> and
  \<open>robots\<close> of \<open>internal/commands/handler.go\<close>, as functions of the site's configuration, the file
  system and the tools of the MCP server.
\<close>

subsection \<open>The manifest\<close>

definition joinCommand :: "string \<Rightarrow> string list \<Rightarrow> string" where
  "joinCommand cmd args = (if args = [] then cmd else cmd @ '' '' @ Join args '' '')"

definition tierForCommand :: "string \<Rightarrow> AuthConfig \<Rightarrow> string" where
  "tierForCommand command authCfg =
     (if IsCommandAllowed TierAnonymous command authCfg then TierAnonymous
      else if IsCommandAllowed TierIdentified command authCfg then TierIdentified
      else TierTrusted)"

definition mcpToolTier :: "string \<Rightarrow> MCPAuthConfig \<Rightarrow> string" where
  "mcpToolTier toolName mcpAuth =
     (if toolName \<in> set (ma_Anonymous mcpAuth) then TierAnonymous
      else if toolName \<in> set (ma_Identified mcpAuth) then TierIdentified
      else if toolName \<in> set (ma_Trusted mcpAuth) then TierTrusted
      else TierAnonymous)"

text \<open>The loop over the commands: the packed routes, and the entries of the api-call map in the order
  in which they are assigned.\<close>

fun collect_routes :: "AuthConfig \<Rightarrow> CommandConfig list \<Rightarrow> string list \<Rightarrow> (string \<times> json) list \<Rightarrow>
    string list \<times> (string \<times> json) list" where
  "collect_routes auth [] packs apis = (packs, apis)"
| "collect_routes auth (cmd # cmds) packs apis =
     (if cc_Type cmd = ''receive-pack'' then collect_routes auth cmds (packs @ [cc_Route cmd]) apis
      else if cc_Type cmd = ''api-call'' then
        (let key = cc_Method cmd @ '' '' @ cc_Route cmd;
             tier = tierForCommand (joinCommand ''api-call'' [cc_Method cmd, cc_Route cmd]) auth
         in collect_routes auth cmds packs (apis @ [(key, json_map
              [(''method'', JStr (cc_Method cmd)), (''route'', JStr (cc_Route cmd)), (''auth'', JStr tier)])]))
      else collect_routes auth cmds packs apis)"

definition command_entries :: "SiteConfig \<Rightarrow> (string \<times> json) list" where
  "command_entries site =
     (case collect_routes (Auth site) (Commands site) [] [] of (packs, apis) \<Rightarrow>
        (if packs \<noteq> [] then
           [(''receive-pack'', json_map
              [(''description'', JStr ''Fetch site content as packfile or HTTP/1.1 wire response''),
               (''routes'', json_strings packs),
               (''supports'', json_strings [''delta'', ''incremental'', ''backend-fallback''])])]
         else []) @
        (if apis \<noteq> [] then
           [(''api-call'', json_map [(''description'', JStr ''Dynamic API endpoints''), (''routes'', json_map apis)])]
         else []) @
        (if AllowedOrigins (ProxyCache site) \<noteq> [] then
           [(''proxy-call'', json_map
              [(''description'', JStr ''Fetch external resources through server proxy''),
               (''allowed-origins'', json_strings (AllowedOrigins (ProxyCache site))),
               (''supports'', json_strings [''caching''])])]
         else []))"

definition feed_entry :: "FeedConfig \<Rightarrow> string \<times> json" where
  "feed_entry f = (fc_Path f, json_map [(''format'', JStr (fc_Format f)), (''path'', JStr (fc_Path f))])"

definition tool_entry :: "(string \<Rightarrow> string option) \<Rightarrow> SiteConfig \<Rightarrow> Tool \<Rightarrow> json" where
  "tool_entry float_text site tool =
     json_map ([(''name'', JStr (tl_Name tool))] @
       (if tl_Description tool \<noteq> [] then [(''description'', JStr (tl_Description tool))] else []) @
       (case tl_InputSchema tool of
          None \<Rightarrow> []
        | Some raw \<Rightarrow> (case iface float_text raw of None \<Rightarrow> [] | Some schema \<Rightarrow> [(''inputSchema'', schema)])) @
       (case MCP site of None \<Rightarrow> [] | Some m \<Rightarrow> [(''auth'', JStr (mcpToolTier (tl_Name tool) (mc_Auth m)))]))"

definition SitemapInfo :: "SitemapConfig \<Rightarrow> json" where
  "SitemapInfo s = JObj [(''dynamic'', JBool (sm_Dynamic s)), (''path'', JStr (sm_Path s))]"

definition omit_empty :: "string \<Rightarrow> string list \<Rightarrow> (string \<times> json) list" where
  "omit_empty k xs = (if xs = [] then [] else [(k, json_strings xs)])"

definition RobotsInfo :: "RobotsConfig \<Rightarrow> json" where
  "RobotsInfo r =
     JObj ([(''crawl-delay'', JNum (show_int (CrawlDelay r)))] @
       omit_empty ''allowed-paths'' (AllowedPaths r) @ omit_empty ''blocked-paths'' (BlockedPaths r))"

definition SiteInfo :: "SiteConfig \<Rightarrow> json" where
  "SiteInfo site = JObj [(''name'', JStr (Host site)), (''host'', JStr (Host site))]"

definition AuthInfo :: json where
  "AuthInfo = JObj [(''modes'', json_strings [''anonymous'', ''identified'', ''trusted'']),
     (''key-types'', json_strings [''ed25519'', ''ecdsa-sha2-nistp256''])]"

definition MCPInfo :: "json list \<Rightarrow> json" where
  "MCPInfo tools = JObj [(''version'', JStr ''1.0''), (''tools'', JArr tools)]"

text \<open>The manifest; \<open>tools\<close> is absent when there is no MCP server.\<close>

definition CapabilitiesManifest :: "(string \<Rightarrow> string option) \<Rightarrow> SiteConfig \<Rightarrow> Tool list option \<Rightarrow> json" where
  "CapabilitiesManifest float_text site tools =
     JObj ([(''protocol'', JStr ''ssh-web/0.1''), (''site'', SiteInfo site),
            (''commands'', json_map (command_entries site)), (''auth'', AuthInfo)] @
       (case tools of None \<Rightarrow> [] | Some ts \<Rightarrow> [(''mcp'', MCPInfo (map (tool_entry float_text site) ts))]) @
       (if Feeds (Meta site) \<noteq> [] then [(''feeds'', json_map (map feed_entry (Feeds (Meta site))))] else []) @
       (if sm_Path (Sitemap (Meta site)) \<noteq> [] then [(''sitemap'', SitemapInfo (Sitemap (Meta site)))] else []) @
       (let r = Robots (Meta site) in
        if CrawlDelay r \<noteq> 0 \<or> AllowedPaths r \<noteq> [] \<or> BlockedPaths r \<noteq> [] then [(''robots'', RobotsInfo r)] else []))"

definition capabilities :: "(string \<Rightarrow> string option) \<Rightarrow> SiteConfig \<Rightarrow> Tool list option \<Rightarrow> string" where
  "capabilities float_text site tools = json_indent 0 (CapabilitiesManifest float_text site tools)"

subsection \<open>Feed, sitemap, robots\<close>

text \<open>\<open>filepath.Walk\<close> over the root, errors ignored: the files, by their paths relative to it.\<close>

definition relative_files :: "fs \<Rightarrow> string \<Rightarrow> string list" where
  "relative_files fs root =
     (case stat_path fs root of
        None \<Rightarrow> []
      | Some n \<Rightarrow>
          map (\<lambda>(path, _). case Rel root path of None \<Rightarrow> [] | Some rel \<Rightarrow> rel)
            (filter (\<lambda>(path, m). case m of Dir ch \<Rightarrow> False | File b \<Rightarrow> True) (walk_node root n)))"

fun find_feed :: "FeedConfig list \<Rightarrow> string \<Rightarrow> FeedConfig option" where
  "find_feed [] requestedPath = None"
| "find_feed (f # fs) requestedPath = (if fc_Path f = requestedPath then Some f else find_feed fs requestedPath)"

definition feed_line :: "string \<Rightarrow> string \<Rightarrow> string" where
  "feed_line host rel =
     ''  <entry><title>'' @ rel @ ''</title><id>ssh-web://'' @ host @ ''/'' @ rel @ ''</id></entry>''"

definition feed_text :: "string \<Rightarrow> string \<Rightarrow> string list \<Rightarrow> string" where
  "feed_text host path entries =
     ''<?xml version='' @ [DQ] @ ''1.0'' @ [DQ] @ '' encoding='' @ [DQ] @ ''utf-8'' @ [DQ] @ ''?>'' @ [LF] @
     ''<feed xmlns='' @ [DQ] @ ''http://www.w3.org/2005/Atom'' @ [DQ] @ ''>'' @ [LF] @
     ''  <title>'' @ host @ ''</title>'' @ [LF] @
     ''  <id>ssh-web://'' @ host @ path @ ''</id>'' @ [LF] @
     Join entries [LF] @ [LF] @ ''</feed>'' @ [LF]"

text \<open>\<open>Inl\<close> is the path for which no feed is configured.\<close>

definition rssFeed :: "fs \<Rightarrow> SiteConfig \<Rightarrow> string list \<Rightarrow> string + string" where
  "rssFeed fs site args =
     (let requestedPath = (case args of [] \<Rightarrow> ''/'' | a # _ \<Rightarrow> a) in
      case find_feed (Feeds (Meta site)) requestedPath of
        None \<Rightarrow> Inl requestedPath
      | Some feed \<Rightarrow>
          Inr (feed_text (Host site) (fc_Path feed)
            (if Root site \<noteq> [] then map (feed_line (Host site)) (relative_files fs (Root site)) else [])))"

definition sitemap_entry :: "string \<Rightarrow> string \<Rightarrow> json" where
  "sitemap_entry path ty = JObj [(''path'', JStr path), (''type'', JStr ty)]"

definition sitemap_entries :: "fs \<Rightarrow> SiteConfig \<Rightarrow> json list" where
  "sitemap_entries fs site =
     map (\<lambda>cmd. sitemap_entry (cc_Route cmd) ''receive-pack'')
       (filter (\<lambda>cmd. cc_Type cmd = ''receive-pack'') (Commands site)) @
     (if sm_Dynamic (Sitemap (Meta site)) \<and> Root site \<noteq> [] then
        map (\<lambda>rel. sitemap_entry (''/'' @ rel) ''static'') (relative_files fs (Root site))
      else [])"

definition sitemap :: "fs \<Rightarrow> SiteConfig \<Rightarrow> string" where
  "sitemap fs site =
     json_indent 0 (json_map
       [(''site'', JStr (Host site)),
        (''entries'', let es = sitemap_entries fs site in if es = [] then JNull else JArr es)])"

definition robots :: "SiteConfig \<Rightarrow> string" where
  "robots site =
     (let r = Robots (Meta site) in
      json_indent 0 (json_map
        [(''crawl-delay'', JNum (show_int (CrawlDelay r))), (''allowed-paths'', json_strings (AllowedPaths r)),
         (''blocked-paths'', json_strings (BlockedPaths r))]))"

subsection \<open>What the manifest says\<close>

definition api_entry :: "AuthConfig \<Rightarrow> CommandConfig \<Rightarrow> string \<times> json" where
  "api_entry auth cmd = (cc_Method cmd @ '' '' @ cc_Route cmd, json_map
     [(''method'', JStr (cc_Method cmd)), (''route'', JStr (cc_Route cmd)),
      (''auth'', JStr (tierForCommand (joinCommand ''api-call'' [cc_Method cmd, cc_Route cmd]) auth))])"

lemma collect_routes_eq: "collect_routes auth cmds packs apis =
    (packs @ map cc_Route (filter (\<lambda>c. cc_Type c = ''receive-pack'') cmds),
     apis @ map (api_entry auth) (filter (\<lambda>c. cc_Type c = ''api-call'') cmds))"
  by (induction auth cmds packs apis rule: collect_routes.induct) (auto simp: api_entry_def Let_def)

lemma nums_ok_strings [simp]: "all_nums P (json_strings xs)"
  by (simp add: json_strings_def list_all_iff)

lemma nums_ok_api: "all_nums P (snd (api_entry auth cmd))"
  by (simp add: api_entry_def) (rule nums_ok_map, auto)

lemma nums_ok_apis: "all_nums P (json_map (map (api_entry auth) cmds))"
proof (rule nums_ok_map)
  fix e assume "e \<in> set (map (api_entry auth) cmds)"
  then obtain cmd where "e = api_entry auth cmd" by auto
  then show "all_nums P (snd e)" by (simp add: nums_ok_api)
qed

lemma nums_ok_commands: "e \<in> set (command_entries site) \<Longrightarrow> all_nums P (snd e)"
  by (auto simp: command_entries_def collect_routes_eq split: if_splits intro!: nums_ok_apis nums_ok_map [of "[x, y]" for x y] nums_ok_map [of "[x, y, z]" for x y z])

lemma nums_ok_tool:
  assumes "\<And>n n'. float_text n = Some n' \<Longrightarrow> P n'"
  shows "all_nums P (tool_entry float_text site tool)"
  by (auto simp: tool_entry_def intro!: nums_ok_map intro: nums_ok_iface [OF assms]
    split: if_splits option.splits)

lemma nums_ok_manifest:
  assumes "\<And>n n'. float_text n = Some n' \<Longrightarrow> num_ok n'"
  shows "nums_ok (CapabilitiesManifest float_text site tools)"
proof -
  have "nums_ok (json_map (command_entries site))" by (rule nums_ok_map) (rule nums_ok_commands)
  moreover have "nums_ok (json_map (map feed_entry fs))" for fs
    by (auto simp: feed_entry_def intro!: nums_ok_map)
  moreover have "nums_ok (MCPInfo (map (tool_entry float_text site) ts))" for ts
    using nums_ok_tool [OF assms] by (simp add: MCPInfo_def list_all_iff)
  ultimately show ?thesis
    by (auto simp: CapabilitiesManifest_def SiteInfo_def AuthInfo_def SitemapInfo_def RobotsInfo_def omit_empty_def
      num_ok_show_int Let_def split: option.split)
qed

text \<open>The advertised tier of a declared route.\<close>

lemma manifest_api_tier:
  assumes "cmd \<in> set (Commands site)" "cc_Type cmd = ''api-call''"
  shows "json_at [''commands'', ''api-call'', ''routes'', cc_Method cmd @ '' '' @ cc_Route cmd, ''auth'']
      (CapabilitiesManifest float_text site tools) =
    Some (JStr (tierForCommand (joinCommand ''api-call'' [cc_Method cmd, cc_Route cmd]) (Auth site)))"
proof -
  let ?key = "cc_Method cmd @ '' '' @ cc_Route cmd"
  let ?apis = "map (api_entry (Auth site)) (filter (\<lambda>c. cc_Type c = ''api-call'') (Commands site))"
  have mem: "api_entry (Auth site) cmd \<in> set ?apis" using assms by simp
  then have ne: "?apis \<noteq> []" by (metis empty_iff list.set(1))
  have "map_of (rev ?apis) ?key \<noteq> None"
    using mem by (auto simp: map_of_eq_None_iff api_entry_def image_iff intro!: bexI [of _ cmd] assms)
  then obtain v where v: "map_of (rev ?apis) ?key = Some v" by blast
  then have "(?key, v) \<in> set ?apis" using map_of_SomeD by fastforce
  then obtain cmd' where c: "cc_Method cmd' @ '' '' @ cc_Route cmd' = ?key" "v = snd (api_entry (Auth site) cmd')"
    by (auto simp: api_entry_def)
  then have "joinCommand ''api-call'' [cc_Method cmd', cc_Route cmd'] = joinCommand ''api-call'' [cc_Method cmd, cc_Route cmd]"
    by (simp add: joinCommand_def)
  then have auth: "json_get ''auth'' v =
      Some (JStr (tierForCommand (joinCommand ''api-call'' [cc_Method cmd, cc_Route cmd]) (Auth site)))"
    by (simp add: c(2) api_entry_def json_get_map)
  have "json_get ''api-call'' (json_map (command_entries site)) =
      Some (json_map [(''description'', JStr ''Dynamic API endpoints''), (''routes'', json_map ?apis)])"
    using ne by (simp add: json_get_map command_entries_def collect_routes_eq)
  then show ?thesis
    using v auth by (simp add: CapabilitiesManifest_def json_get_map)
qed

text \<open>C28: The capabilities manifest is a JSON text that reads back as the manifest, and the tier it
  advertises for an api-call route is the lowest tier that the specification of authorisation grants
  the call to; when it is granted to no tier at all, the manifest says \<open>trusted\<close>.\<close>

theorem advertised_tier_is_lowest:
  assumes "\<And>n n'. float_text n = Some n' \<Longrightarrow> num_ok n'"
    and "cmd \<in> set (Commands site)" "cc_Type cmd = ''api-call''"
    and "command = joinCommand ''api-call'' [cc_Method cmd, cc_Route cmd]"
  shows "\<exists>m t. json_parse (capabilities float_text site tools) = Some (utf8_json m) \<and>
    json_at [''commands'', ''api-call'', ''routes'', cc_Method cmd @ '' '' @ cc_Route cmd, ''auth''] m =
      Some (JStr (tier_name t)) \<and>
    (if \<exists>u. spec_allowed (Auth site) u command
     then spec_allowed (Auth site) t command \<and> (\<forall>u. u < t \<longrightarrow> \<not> spec_allowed (Auth site) u command)
     else t = Trusted)"
proof -
  let ?m = "CapabilitiesManifest float_text site tools"
  have p: "json_parse (capabilities float_text site tools) = Some (utf8_json ?m)"
    unfolding capabilities_def by (rule parse_indent [OF nums_ok_manifest [OF assms(1)]])
  define r where "r = tierForCommand command (Auth site)"
  have at: "json_at [''commands'', ''api-call'', ''routes'', cc_Method cmd @ '' '' @ cc_Route cmd, ''auth''] ?m = Some (JStr r)"
    unfolding r_def assms(4) by (rule manifest_api_tier [OF assms(2,3)])
  show ?thesis
  proof (cases "\<exists>u. spec_allowed (Auth site) u command")
    case True
    then obtain u where u: "IsCommandAllowed (tier_name u) command (Auth site)" using IsCommandAllowed_spec by blast
    obtain t where "r = tier_name t" "spec_allowed (Auth site) t command" "\<forall>v. v < t \<longrightarrow> \<not> spec_allowed (Auth site) v command"
      using auth.lowest_first [OF r_def [unfolded tierForCommand_def] u] IsCommandAllowed_spec by metis
    with p at True show ?thesis by auto
  next
    case False
    then have "r = tier_name Trusted"
      using IsCommandAllowed_spec [of _ command "Auth site"] by (simp add: r_def tierForCommand_def flip: tier_name.simps)
    with p at False show ?thesis by auto
  qed
qed

definition demo_api_site :: SiteConfig where
  "demo_api_site = zero_SiteConfig\<lparr>Host := ''a.org'',
     Commands := [\<lparr>cc_Type = ''api-call'', cc_Method = ''GET'', cc_Route = ''/items/{id}''\<rparr>],
     Auth := zero_AuthConfig\<lparr>ac_Anonymous := [''receive-pack'', ''proxy-call''], ac_Identified := [''api-call GET'']\<rparr>\<rparr>"

theorem advertised_tier_is_lowest_witness:
  "\<exists>m t. json_parse (capabilities (\<lambda>n. None) demo_api_site None) = Some (utf8_json m) \<and>
     json_at [''commands'', ''api-call'', ''routes'', ''GET /items/{id}'', ''auth''] m = Some (JStr (tier_name t)) \<and>
     (if \<exists>u. spec_allowed (Auth demo_api_site) u ''api-call GET /items/{id}''
      then spec_allowed (Auth demo_api_site) t ''api-call GET /items/{id}'' \<and>
        (\<forall>u. u < t \<longrightarrow> \<not> spec_allowed (Auth demo_api_site) u ''api-call GET /items/{id}'')
      else t = Trusted)"
  using advertised_tier_is_lowest [of "\<lambda>n. None" "\<lparr>cc_Type = ''api-call'', cc_Method = ''GET'', cc_Route = ''/items/{id}''\<rparr>"
    demo_api_site "''api-call GET /items/{id}''" None]
  by (simp add: demo_api_site_def joinCommand_def)

end
