(* ===== verification/Http_Wire.thy ===== *)
theory Http_Wire
  imports Go_Strings Go_IO
begin

text \<open>
  HTTP headers as \<open>net/http\<close> keeps them (canonical names to lists of values), the hop-by-hop list
  that \<open>internal/proxy\<close> and \<open>internal/commands\<close> both carry, and the HTTP/1.1 wire form that
  \<open>receivePackBinary\<close> and \<open>proxyCallBinary\<close> write.  A Go map is iterated in no fixed order, so the
  order of the header names is an argument, constrained to list the names once each.  The
  specification is a reader of the wire form.
\<close>

subsection \<open>Headers\<close>

type_synonym Header = "string \<rightharpoonup> string list"

definition token_char :: "char \<Rightarrow> bool" where
  "token_char c \<longleftrightarrow> c \<in> set (upper_letters @ lower_letters @ ''0123456789'' @ ''!#$%&*+-.^_|~'' @ [CHR 0x27, CHR 0x60])"

text \<open>\<open>textproto.CanonicalMIMEHeaderKey\<close>: capital after a hyphen, small elsewhere.\<close>

fun canon_from :: "bool \<Rightarrow> string \<Rightarrow> string" where
  "canon_from up [] = []"
| "canon_from up (c # cs) = (if up then upper_char c else lower_char c) # canon_from (c = CHR ''-'') cs"

definition CanonicalHeaderKey :: "string \<Rightarrow> string" where
  "CanonicalHeaderKey k = (if list_all token_char k then canon_from True k else k)"

definition header_Del :: "Header \<Rightarrow> string \<Rightarrow> Header" where
  "header_Del h k = h(CanonicalHeaderKey k := None)"

definition header_Set :: "Header \<Rightarrow> string \<Rightarrow> string \<Rightarrow> Header" where
  "header_Set h k v = h(CanonicalHeaderKey k \<mapsto> [v])"

definition header_Get :: "Header \<Rightarrow> string \<Rightarrow> string" where
  "header_Get h k = (case h (CanonicalHeaderKey k) of Some (v # vs) \<Rightarrow> v | _ \<Rightarrow> [])"

definition hopByHopHeaders :: "string list" where
  "hopByHopHeaders =
     [''Connection'', ''Keep-Alive'', ''Proxy-Authenticate'', ''Proxy-Authorization'', ''TE'', ''Trailers'',
      ''Transfer-Encoding'', ''Upgrade'']"

text \<open>\<open>for _, h := range hopByHopHeaders { hdr.Del(h) }\<close>\<close>

definition strip_hop_by_hop :: "Header \<Rightarrow> Header" where
  "strip_hop_by_hop h = foldl header_Del h hopByHopHeaders"

text \<open>A response as it arrives: the body's bytes, and whether reading it ends without an error.\<close>

record http_resp =
  hr_StatusCode :: int
  hr_Status :: string
  hr_Header :: Header
  hr_Body :: bytes
  hr_BodyOk :: bool

subsection \<open>The wire form\<close>

definition CRLF :: string where "CRLF = [CR, LF]"

definition statusTextOnly :: "string \<Rightarrow> string" where
  "statusTextOnly status = (case SplitN2 status SPC of [a, b] \<Rightarrow> b | _ \<Rightarrow> status)"

definition status_line :: "int \<Rightarrow> string \<Rightarrow> string" where
  "status_line code text = ''HTTP/1.1 '' @ show_int code @ '' '' @ text @ CRLF"

definition header_line :: "string \<Rightarrow> string \<Rightarrow> string" where
  "header_line key v = key @ '': '' @ v @ CRLF"

definition header_values :: "Header \<Rightarrow> string \<Rightarrow> string list" where
  "header_values h key = (case h key of None \<Rightarrow> [] | Some vs \<Rightarrow> vs)"

definition header_chunks :: "Header \<Rightarrow> string list \<Rightarrow> bytes list" where
  "header_chunks h order = concat (map (\<lambda>key. map (header_line key) (header_values h key)) order)"

text \<open>The writes of a response, one \<open>Write\<close> each.\<close>

definition response_chunks :: "int \<Rightarrow> string \<Rightarrow> Header \<Rightarrow> string list \<Rightarrow> bytes \<Rightarrow> bytes list" where
  "response_chunks code text h order body =
     [status_line code text] @ header_chunks h order @ [CRLF] @ [body]"

text \<open>The framing headers the server sets itself.\<close>

definition framed :: "Header \<Rightarrow> bytes \<Rightarrow> Header" where
  "framed h body = header_Set (header_Set h ''Content-Length'' (show_int (int (length body)))) ''Connection'' ''close''"

subsection \<open>A reader of the wire form\<close>

text \<open>One line up to its CRLF, and what follows it.\<close>

fun read_crlf :: "string \<Rightarrow> (string \<times> string) option" where
  "read_crlf (c # s) =
     (if c = CR then (case s of d # s' \<Rightarrow> if d = LF then Some ([], s') else None | [] \<Rightarrow> None)
      else map_option (\<lambda>(l, t). (c # l, t)) (read_crlf s))"
| "read_crlf [] = None"

fun split_header :: "string \<Rightarrow> (string \<times> string) option" where
  "split_header (c # s) =
     (if c = CHR '':'' then (case s of d # v \<Rightarrow> if d = SPC then Some ([], v) else None | [] \<Rightarrow> None)
      else map_option (\<lambda>(k, v). (c # k, v)) (split_header s))"
| "split_header [] = None"

text \<open>Header lines up to the empty line; \<open>n\<close> bounds their number.\<close>

fun read_headers :: "nat \<Rightarrow> string \<Rightarrow> ((string \<times> string) list \<times> string) option" where
  "read_headers 0 s = None"
| "read_headers (Suc n) s =
     (case read_crlf s of None \<Rightarrow> None
      | Some (l, t) \<Rightarrow>
          if l = [] then Some ([], t)
          else (case split_header l of None \<Rightarrow> None
                | Some kv \<Rightarrow> map_option (\<lambda>(kvs, b). (kv # kvs, b)) (read_headers n t)))"

definition read_response :: "string \<Rightarrow> (string \<times> (string \<times> string) list \<times> bytes) option" where
  "read_response s =
     (case read_crlf s of None \<Rightarrow> None
      | Some (l, t) \<Rightarrow> map_option (\<lambda>(kvs, b). (l, kvs, b)) (read_headers (length t) t))"

definition header_pairs :: "Header \<Rightarrow> string list \<Rightarrow> (string \<times> string) list" where
  "header_pairs h order = concat (map (\<lambda>key. map (Pair key) (header_values h key)) order)"

text \<open>A header whose names and values stay on their line.\<close>

definition header_ok :: "Header \<Rightarrow> bool" where
  "header_ok h \<longleftrightarrow> (\<forall>k vs. h k = Some vs \<longrightarrow>
     k \<noteq> [] \<and> CHR '':'' \<notin> set k \<and> CR \<notin> set k \<and> (\<forall>v\<in>set vs. CR \<notin> set v))"

lemma read_crlf_line: "CR \<notin> set l \<Longrightarrow> read_crlf (l @ CRLF @ t) = Some (l, t)"
  by (induction l) (auto simp: CRLF_def)

lemma split_header_line: "CHR '':'' \<notin> set k \<Longrightarrow> split_header (k @ CHR '':'' # SPC # v) = Some (k, v)"
  by (induction k) auto

lemma read_headers_pairs:
  assumes "\<forall>(k, v)\<in>set kvs. k \<noteq> [] \<and> CHR '':'' \<notin> set k \<and> CR \<notin> set k \<and> CR \<notin> set v" "length kvs < n"
  shows "read_headers n (concat (map (\<lambda>(k, v). header_line k v) kvs) @ CRLF @ b) = Some (kvs, b)"
  using assms
proof (induction kvs arbitrary: n)
  case Nil
  then show ?case using read_crlf_line [of "[]" b] by (cases n) simp_all
next
  case (Cons kv kvs)
  obtain k v where kv: "kv = (k, v)" by (cases kv)
  let ?t = "concat (map (\<lambda>(k, v). header_line k v) kvs) @ CRLF @ b"
  obtain m where n: "n = Suc m" "length kvs < m" using Cons.prems(2) by (cases n) auto
  have l: "read_crlf ((k @ CHR '':'' # SPC # v) @ CRLF @ ?t) = Some (k @ CHR '':'' # SPC # v, ?t)"
    by (rule read_crlf_line) (use Cons.prems(1) kv in auto)
  have "read_headers m ?t = Some (kvs, b)" using Cons.IH [OF _ n(2)] Cons.prems(1) by simp
  with l show ?case
    using Cons.prems(1) by (simp add: n kv header_line_def split_header_line)
qed

lemma header_chunks_pairs: "header_chunks h order = map (\<lambda>(k, v). header_line k v) (header_pairs h order)"
  by (simp add: header_chunks_def header_pairs_def map_concat comp_def)

lemma length_header_pairs:
  "length (header_pairs h order) \<le> length (concat (header_chunks h order))"
proof -
  have "length kvs \<le> length (concat (map (\<lambda>(k, v). header_line k v) kvs))" for kvs
    by (induction kvs) (auto simp: header_line_def)
  then show ?thesis by (simp add: header_chunks_pairs)
qed

lemma header_pairs_ok:
  assumes "header_ok h"
  shows "\<forall>(k, v)\<in>set (header_pairs h order). k \<noteq> [] \<and> CHR '':'' \<notin> set k \<and> CR \<notin> set k \<and> CR \<notin> set v"
  using assms by (auto simp: header_pairs_def header_values_def header_ok_def dest: sym [of "Some _"] split: option.splits)

lemma show_int_no_CR: "CR \<notin> set (show_int n)"
proof -
  have "\<not> is_digit CR" by (simp add: is_digit_def)
  then have "CR \<notin> set (show_nat m)" for m using show_nat_digits [of m] by (auto simp: list_all_iff)
  then show ?thesis by (simp add: show_int_def)
qed

lemma read_response_chunks:
  assumes "header_ok h" "CR \<notin> set text"
  shows "read_response (concat (response_chunks code text h order body)) =
    Some (''HTTP/1.1 '' @ show_int code @ '' '' @ text, header_pairs h order, body)"
proof -
  let ?l = "''HTTP/1.1 '' @ show_int code @ '' '' @ text"
  let ?t = "concat (header_chunks h order) @ CRLF @ body"
  have "read_crlf (?l @ CRLF @ ?t) = Some (?l, ?t)"
    by (rule read_crlf_line) (use assms(2) show_int_no_CR in auto)
  moreover have "read_headers (length ?t) ?t = Some (header_pairs h order, body)"
    using read_headers_pairs [OF header_pairs_ok [OF assms(1), of order], of "length ?t" body]
      length_header_pairs [of h order]
    by (simp add: header_chunks_pairs CRLF_def)
  ultimately show ?thesis
    by (simp add: read_response_def response_chunks_def status_line_def)
qed

subsection \<open>Hop-by-hop headers\<close>

definition hop_keys :: "string list" where
  "hop_keys = map CanonicalHeaderKey hopByHopHeaders"

lemma hop_keys_names: "hop_keys =
    [''Connection'', ''Keep-Alive'', ''Proxy-Authenticate'', ''Proxy-Authorization'', ''Te'', ''Trailers'',
     ''Transfer-Encoding'', ''Upgrade'']"
  by code_simp

lemma framing_keys: "CanonicalHeaderKey ''Content-Length'' = ''Content-Length''"
  "CanonicalHeaderKey ''Connection'' = ''Connection''"
  by code_simp+

lemma foldl_header_Del: "foldl header_Del h ks k = (if k \<in> CanonicalHeaderKey ` set ks then None else h k)"
  by (induction ks arbitrary: h) (auto simp: header_Del_def)

lemma strip_app: "strip_hop_by_hop h k = (if k \<in> set hop_keys then None else h k)"
  by (simp add: strip_hop_by_hop_def foldl_header_Del hop_keys_def)

lemma framed_app: "framed h body k =
    (if k = ''Connection'' then Some [''close'']
     else if k = ''Content-Length'' then Some [show_int (int (length body))] else h k)"
  by (simp add: framed_def header_Set_def framing_keys)

text \<open>What every framed response has: no hop-by-hop header but the server's own \<open>Connection\<close>,
  and the length of the body that follows.\<close>

lemma framed_strip:
  "k \<in> set hop_keys \<Longrightarrow> k \<noteq> ''Connection'' \<Longrightarrow> framed (strip_hop_by_hop h) body k = None"
  by (auto simp: framed_app strip_app hop_keys_names)

lemma header_ok_framed:
  assumes "header_ok h"
  shows "header_ok (framed h body)"
proof -
  have "framed h body = h(''Content-Length'' \<mapsto> [show_int (int (length body))], ''Connection'' \<mapsto> [''close''])"
    by (simp add: framed_def header_Set_def framing_keys)
  then show ?thesis
    using assms by (auto simp: header_ok_def show_int_no_CR split: if_splits)
qed

lemma header_ok_strip: "header_ok h \<Longrightarrow> header_ok (strip_hop_by_hop h)"
  by (auto simp: header_ok_def strip_app split: if_splits)

lemma framed_idem [simp]: "framed (framed h body) body = framed h body"
  by (simp add: fun_eq_iff framed_app)

end
