(* ===== verification/Backend.thy ===== *)
theory Backend
  imports Http_Wire
begin

text \<open>
  The upstream HTTP backend of \<open>internal/backend/backend.go\<close>: the requests it builds from a
  method, a path and the session's identity, and what it makes of the answers.  \<open>http.NewRequest\<close>
  (whether method and URL are acceptable) and \<open>http.Client.Do\<close> are parameters, the latter on a
  state of the outside world; the client does not follow redirects.
\<close>

subsection \<open>The code\<close>

record Backend =
  BaseURL :: string

record http_req =
  rq_Method :: string
  rq_Target :: string
  rq_Header :: Header
  rq_Body :: bytes

record 'w http_lib =
  base_ok :: "string \<Rightarrow> bool"
  request_ok :: "string \<Rightarrow> string \<Rightarrow> bool"
  client_do :: "'w \<Rightarrow> http_req \<Rightarrow> http_resp option \<times> 'w"

datatype backend_error = InvalidBackendURL | BuildingRequest | Contacting | ReadingResponse | BackendReturned int

definition backend_New :: "'w http_lib \<Rightarrow> string \<Rightarrow> backend_error + Backend option" where
  "backend_New http baseURL =
     (if baseURL = [] then Inr None
      else if \<not> base_ok http baseURL then Inl InvalidBackendURL
      else Inr (Some \<lparr>BaseURL = TrimSuffix baseURL ''/''\<rparr>))"

definition set_nonempty :: "string \<Rightarrow> string \<Rightarrow> Header \<Rightarrow> Header" where
  "set_nonempty k v h = (if v \<noteq> [] then header_Set h k v else h)"

text \<open>The identity headers, each only when there is something to send.\<close>

definition identity_headers :: "string \<Rightarrow> string \<Rightarrow> string \<Rightarrow> Header \<Rightarrow> Header" where
  "identity_headers tier fingerprint pubkey h =
     set_nonempty ''X-SSHWeb-PubKey'' pubkey
       (set_nonempty ''X-SSHWeb-Fingerprint'' fingerprint (set_nonempty ''X-SSHWeb-Tier'' tier h))"

definition api_request :: "Backend \<Rightarrow> string \<Rightarrow> string \<Rightarrow> bytes \<Rightarrow> string \<Rightarrow> string \<Rightarrow> string \<Rightarrow> http_req" where
  "api_request b meth path body tier fingerprint pubkey =
     \<lparr>rq_Method = meth, rq_Target = BaseURL b @ path,
      rq_Header = identity_headers tier fingerprint pubkey
        (if body \<noteq> [] then header_Set Map.empty ''Content-Type'' ''application/json'' else Map.empty),
      rq_Body = body\<rparr>"

text \<open>\<open>APICall\<close>: body, status and error, as the three results of the function.\<close>

definition APICall :: "'w http_lib \<Rightarrow> Backend \<Rightarrow> string \<Rightarrow> string \<Rightarrow> bytes \<Rightarrow> string \<Rightarrow> string \<Rightarrow> string \<Rightarrow> 'w \<Rightarrow>
    (bytes \<times> int \<times> backend_error option) \<times> 'w" where
  "APICall http b meth path body tier fingerprint pubkey w =
     (let req = api_request b meth path body tier fingerprint pubkey in
      if \<not> request_ok http meth (rq_Target req) then (([], 0, Some BuildingRequest), w)
      else
        (case client_do http w req of
           (None, w') \<Rightarrow> (([], 0, Some Contacting), w')
         | (Some resp, w') \<Rightarrow>
             if \<not> hr_BodyOk resp then (([], hr_StatusCode resp, Some ReadingResponse), w')
             else if hr_StatusCode resp \<ge> 400 then
               ((hr_Body resp, hr_StatusCode resp, Some (BackendReturned (hr_StatusCode resp))), w')
             else ((hr_Body resp, hr_StatusCode resp, None), w')))"

definition fetch_request :: "Backend \<Rightarrow> string \<Rightarrow> string \<Rightarrow> string \<Rightarrow> string \<Rightarrow> http_req" where
  "fetch_request b path tier fingerprint pubkey =
     \<lparr>rq_Method = ''GET'', rq_Target = BaseURL b @ path,
      rq_Header = identity_headers tier fingerprint pubkey Map.empty, rq_Body = []\<rparr>"

definition FetchResource :: "'w http_lib \<Rightarrow> Backend \<Rightarrow> string \<Rightarrow> string \<Rightarrow> string \<Rightarrow> string \<Rightarrow> 'w \<Rightarrow>
    (backend_error + http_resp) \<times> 'w" where
  "FetchResource http b path tier fingerprint pubkey w =
     (let req = fetch_request b path tier fingerprint pubkey in
      if \<not> request_ok http ''GET'' (rq_Target req) then (Inl BuildingRequest, w)
      else
        (case client_do http w req of
           (None, w') \<Rightarrow> (Inl Contacting, w')
         | (Some resp, w') \<Rightarrow> (Inr resp, w')))"

subsection \<open>Who is asked\<close>

text \<open>The identity headers of a request are those of the session, and present only when not empty.\<close>

definition identity_of :: "http_req \<Rightarrow> string \<times> string \<times> string" where
  "identity_of r = (header_Get (rq_Header r) ''X-SSHWeb-Tier'', header_Get (rq_Header r) ''X-SSHWeb-Fingerprint'',
     header_Get (rq_Header r) ''X-SSHWeb-PubKey'')"

lemma identity_keys:
  "CanonicalHeaderKey ''X-SSHWeb-Tier'' = ''X-Sshweb-Tier''"
  "CanonicalHeaderKey ''X-SSHWeb-Fingerprint'' = ''X-Sshweb-Fingerprint''"
  "CanonicalHeaderKey ''X-SSHWeb-PubKey'' = ''X-Sshweb-Pubkey''"
  "CanonicalHeaderKey ''Content-Type'' = ''Content-Type''"
  by code_simp+

lemmas identity_defs = identity_of_def identity_headers_def set_nonempty_def header_Get_def header_Set_def identity_keys

lemma identity_api [simp]: "identity_of (api_request b meth path body tier fp pk) = (tier, fp, pk)"
  by (simp add: api_request_def identity_defs)

lemma identity_fetch [simp]: "identity_of (fetch_request b path tier fp pk) = (tier, fp, pk)"
  by (simp add: fetch_request_def identity_defs)

text \<open>The host a URL names (RFC 3986): the authority ends at the first slash, question mark or hash,
  and what stands before the last at-sign in it is user information.\<close>

definition authority :: "string \<Rightarrow> string" where
  "authority s = takeWhile (\<lambda>c. c \<notin> set ''/?#'') s"

definition host_of_authority :: "string \<Rightarrow> string" where
  "host_of_authority a = rev (takeWhile (\<lambda>c. c \<noteq> CHR ''@'') (rev a))"

definition target_host :: "string \<Rightarrow> string" where
  "target_host url =
     (case IndexByte url CHR '':'' of
        None \<Rightarrow> []
      | Some i \<Rightarrow> host_of_authority (authority (drop (i + 3) url)))"

definition base_url :: "string \<Rightarrow> string \<Rightarrow> string" where
  "base_url scheme auth = scheme @ ''://'' @ auth"

lemma target_host_base:
  assumes "CHR '':'' \<notin> set scheme"
  shows "target_host (base_url scheme auth @ path) = host_of_authority (authority (auth @ path))"
proof -
  have "IndexByte (scheme @ CHR '':'' # (''//'' @ auth @ path)) CHR '':'' = Some (length scheme)"
    by (rule IndexByte_append [OF assms])
  then show ?thesis by (simp add: target_host_def base_url_def)
qed

lemma host_after_at: "CHR ''@'' \<notin> set h \<Longrightarrow> host_of_authority (u @ CHR ''@'' # h) = h"
  by (simp add: host_of_authority_def takeWhile_upto [of _ "rev h"])

text \<open>A path that begins with a slash (or a query) cannot change which host the backend contacts; a
  path that begins with an at-sign does: the configured authority becomes user information, and the
  request, with the session's identity headers, goes to the host named in the path.\<close>

lemma path_selects_host:
  assumes "CHR '':'' \<notin> set scheme" "list_all (\<lambda>c. c \<notin> set ''/?#'') auth" "BaseURL b = base_url scheme auth"
  shows "(path = [] \<or> hd path \<in> set ''/?#'' \<longrightarrow>
      target_host (rq_Target (api_request b meth path body tier fp pk)) = host_of_authority auth \<and>
      target_host (rq_Target (fetch_request b path tier fp pk)) = host_of_authority auth) \<and>
    (list_all (\<lambda>c. c \<notin> set ''/?#@'') evil \<and> path = ''@'' @ evil @ ''/'' @ rest \<longrightarrow>
      target_host (rq_Target (api_request b meth path body tier fp pk)) = evil \<and>
      target_host (rq_Target (fetch_request b path tier fp pk)) = evil)"
proof -
  have t: "target_host (rq_Target (api_request b meth path body tier fp pk)) = host_of_authority (authority (auth @ path))"
    "target_host (rq_Target (fetch_request b path tier fp pk)) = host_of_authority (authority (auth @ path))"
    using target_host_base [OF assms(1)] by (simp_all add: api_request_def fetch_request_def assms(3))
  have a: "authority (auth @ path) = auth" if "path = [] \<or> hd path \<in> set ''/?#''"
    using that assms(2) by (cases path) (auto simp: authority_def list_all_iff takeWhile_all)
  have e: "authority (auth @ path) = auth @ CHR ''@'' # evil" "CHR ''@'' \<notin> set evil"
    if "list_all (\<lambda>c. c \<notin> set ''/?#@'') evil" "path = ''@'' @ evil @ ''/'' @ rest"
  proof -
    have "takeWhile (\<lambda>c. c \<notin> set ''/?#'') ((auth @ CHR ''@'' # evil) @ CHR ''/'' # rest) =
        (auth @ CHR ''@'' # evil) @ takeWhile (\<lambda>c. c \<notin> set ''/?#'') (CHR ''/'' # rest)"
      by (rule takeWhile_all) (use assms(2) that in \<open>auto simp: list_all_iff\<close>)
    then show "authority (auth @ path) = auth @ CHR ''@'' # evil" by (simp add: authority_def that(2))
    show "CHR ''@'' \<notin> set evil" using that(1) by (auto simp: list_all_iff)
  qed
  show ?thesis unfolding t using a e by (auto simp: host_after_at)
qed

end
