(* ===== verification/Net_Addr.thy ===== *)
theory Net_Addr
  imports Prelude "HOL-Library.Word"
begin

unbundle bit_operations_syntax

text \<open>
  IP addresses as \<open>net.IP\<close> has them (4 or 16 bytes), address ranges (\<open>net.IPNet\<close>), and the
  blocklist of \<open>internal/proxy/proxy.go\<close>: \<open>blockedNets\<close> and \<open>isBlockedIP\<close>.
\<close>

type_synonym ip = "8 word list"

text \<open>\<open>net.IP.To4\<close>: the four-byte form of an IPv4 or IPv4-mapped IPv6 address.\<close>

definition To4 :: "ip \<Rightarrow> ip option" where
  "To4 i =
     (if length i = 4 then Some i
      else if length i = 16 \<and> take 10 i = replicate 10 0 \<and> i ! 10 = 0xff \<and> i ! 11 = 0xff
      then Some (drop 12 i) else None)"

text \<open>\<open>net.CIDRMask\<close>, byte by byte, for \<open>l\<close> bytes.\<close>

fun cidr_mask :: "nat \<Rightarrow> nat \<Rightarrow> 8 word list" where
  "cidr_mask n 0 = []"
| "cidr_mask n (Suc l) =
     (if n \<ge> 8 then 0xff # cidr_mask (n - 8) l else NOT (drop_bit n 0xff) # cidr_mask 0 l)"

text \<open>A network: its address and prefix length, as \<open>net.ParseCIDR\<close> reads them.\<close>

record ip_net =
  net_ip :: ip
  net_ones :: nat

definition net_contains :: "ip_net \<Rightarrow> ip \<Rightarrow> bool" where
  "net_contains n i0 =
     (let nn = (case To4 (net_ip n) of Some x \<Rightarrow> x | None \<Rightarrow> net_ip n);
          m = cidr_mask (net_ones n) (length nn);
          i = (case To4 i0 of Some x \<Rightarrow> x | None \<Rightarrow> i0)
      in length i = length nn \<and>
         list_all (\<lambda>k. (nn ! k) AND (m ! k) = (i ! k) AND (m ! k)) [0..<length i])"

definition v4net :: "8 word \<Rightarrow> 8 word \<Rightarrow> 8 word \<Rightarrow> 8 word \<Rightarrow> nat \<Rightarrow> ip_net" where
  "v4net a b c d n = \<lparr>net_ip = [a, b, c, d], net_ones = n\<rparr>"

definition v6net :: "8 word list \<Rightarrow> 8 word list \<Rightarrow> nat \<Rightarrow> ip_net" where
  "v6net hi lo n = \<lparr>net_ip = hi @ replicate (16 - length hi - length lo) 0 @ lo, net_ones = n\<rparr>"

definition blockedNets :: "ip_net list" where
  "blockedNets =
     [v4net 0 0 0 0 8,
      v4net 10 0 0 0 8,
      v4net 100 64 0 0 10,
      v4net 127 0 0 0 8,
      v4net 169 254 0 0 16,
      v4net 172 16 0 0 12,
      v4net 192 0 0 0 24,
      v4net 192 0 2 0 24,
      v4net 192 168 0 0 16,
      v4net 198 18 0 0 15,
      v4net 198 51 100 0 24,
      v4net 203 0 113 0 24,
      v4net 224 0 0 0 4,
      v4net 240 0 0 0 4,
      v4net 255 255 255 255 32,
      v6net [] [] 128,
      v6net [] [1] 128,
      v6net [0x00, 0x64, 0xff, 0x9b] [] 96,
      v6net [0x01, 0x00] [] 64,
      v6net [0xfc, 0x00] [] 7,
      v6net [0xfe, 0x80] [] 10,
      v6net [0xff, 0x00] [] 8]"

definition isBlockedIP :: "ip \<Rightarrow> bool" where
  "isBlockedIP i0 =
     (let i = (case To4 i0 of Some v4 \<Rightarrow> v4 | None \<Rightarrow> i0) in
      list_ex (\<lambda>n. net_contains n i) blockedNets)"

subsection \<open>Addresses in dotted form\<close>

lemma length_cidr_mask [simp]: "length (cidr_mask n l) = l"
  by (induction l arbitrary: n) auto

lemma contains_v4:
  assumes "cidr_mask n 4 = [k, l, m, o']"
  shows "net_contains (v4net p q r s n) [a, b, c, d] \<longleftrightarrow>
     p AND k = a AND k \<and> q AND l = b AND l \<and> r AND m = c AND m \<and> s AND o' = d AND o'"
proof -
  have up: "[0..<4] = [0, 1, 2, 3 :: nat]" by (simp add: upt_rec)
  have l4: "length [x, y, z, w] = 4" for x y z w :: "8 word" by simp
  have "net_contains (v4net p q r s n) [a, b, c, d] \<longleftrightarrow>
      list_all (\<lambda>i. [p, q, r, s] ! i AND [k, l, m, o'] ! i = [a, b, c, d] ! i AND [k, l, m, o'] ! i) [0..<4]"
    unfolding net_contains_def v4net_def To4_def Let_def ip_net.simps l4 assms by (simp only: if_True refl option.case l4 assms simp_thms)
  then show ?thesis unfolding up by (simp add: eval_nat_numeral)
qed

lemma contains_v6_v4: "length hi + length lo \<le> 16 \<Longrightarrow> To4 (net_ip (v6net hi lo n)) = None \<Longrightarrow>
    \<not> net_contains (v6net hi lo n) [a, b, c, d]"
  by (simp add: net_contains_def v6net_def To4_def Let_def)

lemma v4_masks:
  "cidr_mask 8 4 = [0xff, 0, 0, 0]" "cidr_mask 10 4 = [0xff, 0xc0, 0, 0]" "cidr_mask 16 4 = [0xff, 0xff, 0, 0]"
  "cidr_mask 12 4 = [0xff, 0xf0, 0, 0]" "cidr_mask 24 4 = [0xff, 0xff, 0xff, 0]" "cidr_mask 15 4 = [0xff, 0xfe, 0, 0]"
  "cidr_mask 4 4 = [0xf0, 0, 0, 0]" "cidr_mask 32 4 = [0xff, 0xff, 0xff, 0xff]"
  by code_simp+

lemma all_ff [simp]: "(b :: 8 word) AND 0xff = b"
proof -
  have "(0xff :: 8 word) = mask 8" by (simp add: mask_eq_exp_minus_1)
  then have "b AND 0xff = take_bit 8 b" by (simp add: take_bit_eq_mask)
  then show ?thesis by (simp add: take_bit_word_eq_self)
qed

text \<open>Comparing the high bits of a byte is comparing its quotient.\<close>

lemma high_bits:
  assumes "n < 8" "p < 2 ^ (8 - n)"
  shows "push_bit n (word_of_nat p) = (b :: 8 word) AND NOT (mask n) \<longleftrightarrow> p = unat b div 2 ^ n"
proof -
  have e: "(2::nat) ^ 8 = 2 ^ (8 - n) * 2 ^ n" using assms(1) by (simp flip: power_add)
  have fits: "m < 2 ^ (8 - n) \<Longrightarrow> m * 2 ^ n < 2 ^ 8" for m :: nat
    unfolding e by simp
  have ub: "unat b < 256" by (rule order.strict_trans2 [OF unsigned_less]) simp
  have "b AND NOT (mask n) = push_bit n (drop_bit n b)"
    by (rule bit_word_eqI) (auto simp: bit_simps)
  moreover have "unat (push_bit n (drop_bit n b)) = take_bit 8 (push_bit n (drop_bit n (unat b)))"
    unfolding unsigned_push_bit_eq unsigned_drop_bit_eq using ub by (simp add: take_bit_nat_eq_self)
  moreover have "take_bit 8 (push_bit n (drop_bit n (unat b))) = unat b div 2 ^ n * 2 ^ n"
    using le_less_trans [OF times_div_less_eq_dividend [of "2 ^ n" "unat b"] ub]
    by (simp add: push_bit_eq_mult drop_bit_eq_div take_bit_eq_mod mult.commute)
  moreover have "unat (push_bit n (word_of_nat p) :: 8 word) = take_bit 8 (push_bit n p)"
    unfolding unsigned_push_bit_eq by (simp add: unat_of_nat push_bit_eq_mult take_bit_eq_mod mod_mult_left_eq)
  moreover have "take_bit 8 (push_bit n p) = p * 2 ^ n"
    using fits [OF assms(2)] by (simp add: push_bit_eq_mult take_bit_eq_mod)
  ultimately show ?thesis by (metis mult_cancel2 power_not_zero unsigned_word_eqI zero_neq_numeral)
qed

lemma mask_words:
  "NOT (mask 6) = (0xC0 :: 8 word)" "NOT (mask 4) = (0xF0 :: 8 word)" "NOT (mask 1) = (0xFE :: 8 word)"
  "push_bit 6 (word_of_nat 1) = (64 :: 8 word)" "push_bit 4 (word_of_nat 1) = (16 :: 8 word)"
  "push_bit 1 (word_of_nat 9) = (18 :: 8 word)" "push_bit 4 (word_of_nat 14) = (224 :: 8 word)"
  "push_bit 4 (word_of_nat 15) = (240 :: 8 word)"
  by code_simp+

lemma mask_high_bits:
  "(b :: 8 word) AND 0xC0 = 64 \<longleftrightarrow> 64 \<le> b \<and> b < 128"
  "(b :: 8 word) AND 0xF0 = 16 \<longleftrightarrow> 16 \<le> b \<and> b < 32"
  "(b :: 8 word) AND 0xFE = 18 \<longleftrightarrow> b = 18 \<or> b = 19"
  "(b :: 8 word) AND 0xF0 = 224 \<longleftrightarrow> 224 \<le> b \<and> b < 240"
  "(b :: 8 word) AND 0xF0 = 240 \<longleftrightarrow> 240 \<le> b"
proof -
  have ub: "unat b < 256" by (rule order.strict_trans2 [OF unsigned_less]) simp
  note h = high_bits [of 6 1 b, unfolded mask_words] high_bits [of 4 1 b, unfolded mask_words]
    high_bits [of 1 9 b, unfolded mask_words] high_bits [of 4 14 b, unfolded mask_words]
    high_bits [of 4 15 b, unfolded mask_words]
  have d: "1 = k div 64 \<longleftrightarrow> 64 \<le> k \<and> k < 128" "1 = k div 16 \<longleftrightarrow> 16 \<le> k \<and> k < 32"
    "9 = k div 2 \<longleftrightarrow> k = 18 \<or> k = 19" "14 = k div 16 \<longleftrightarrow> 224 \<le> k \<and> k < 240"
    "k < 256 \<Longrightarrow> 15 = k div 16 \<longleftrightarrow> 240 \<le> k" for k :: nat
    by linarith+
  have e: "b = 18 \<or> b = 19 \<longleftrightarrow> unat b = 18 \<or> unat b = 19"
    by (simp add: word_unat_eq_iff)
  have c: "x = y \<longleftrightarrow> z" if "(y = x) = w" "w \<longleftrightarrow> z" for x y :: "8 word" and z w
    using that by auto
  have p: "(2::nat) ^ 6 = 64" "(2::nat) ^ 4 = 16" "(2::nat) ^ 1 = 2" by simp_all
  have l: "64 \<le> b \<and> b < 128 \<longleftrightarrow> 64 \<le> unat b \<and> unat b < 128" "16 \<le> b \<and> b < 32 \<longleftrightarrow> 16 \<le> unat b \<and> unat b < 32"
    "224 \<le> b \<and> b < 240 \<longleftrightarrow> 224 \<le> unat b \<and> unat b < 240" "240 \<le> b \<longleftrightarrow> 240 \<le> unat b"
    by (simp_all add: word_le_nat_alt word_less_nat_alt)
  show "b AND 0xC0 = 64 \<longleftrightarrow> 64 \<le> b \<and> b < 128"
    unfolding l by (rule c [OF h(1)]) (simp_all only: p d, simp)
  show "b AND 0xF0 = 16 \<longleftrightarrow> 16 \<le> b \<and> b < 32"
    unfolding l by (rule c [OF h(2)]) (simp_all only: p d, simp)
  show "b AND 0xFE = 18 \<longleftrightarrow> b = 18 \<or> b = 19"
    unfolding e by (rule c [OF h(3)]) (simp_all only: p d, simp)
  show "b AND 0xF0 = 224 \<longleftrightarrow> 224 \<le> b \<and> b < 240"
    unfolding l by (rule c [OF h(4)]) (simp_all only: p d, simp)
  show "b AND 0xF0 = 240 \<longleftrightarrow> 240 \<le> b"
    unfolding l by (rule c [OF h(5)]) (use ub in \<open>simp_all only: p d\<close>, simp)
qed

definition v4_blocked :: "8 word \<Rightarrow> 8 word \<Rightarrow> 8 word \<Rightarrow> 8 word \<Rightarrow> bool" where
  "v4_blocked a b c d \<longleftrightarrow>
     a = 0 \<or> a = 10 \<or> a = 127 \<or> a = 100 \<and> 64 \<le> b \<and> b < 128 \<or> a = 169 \<and> b = 254 \<or>
     a = 172 \<and> 16 \<le> b \<and> b < 32 \<or> a = 192 \<and> (b = 168 \<or> b = 0 \<and> (c = 0 \<or> c = 2)) \<or>
     a = 198 \<and> (b = 18 \<or> b = 19 \<or> b = 51 \<and> c = 100) \<or> a = 203 \<and> b = 0 \<and> c = 113 \<or> 224 \<le> a"

lemmas contains_blocked_v4 = contains_v4 [OF v4_masks(1)] contains_v4 [OF v4_masks(2)]
  contains_v4 [OF v4_masks(3)] contains_v4 [OF v4_masks(4)] contains_v4 [OF v4_masks(5)] contains_v4 [OF v4_masks(6)]
  contains_v4 [OF v4_masks(7)] contains_v4 [OF v4_masks(8)]

lemma v6_nets_v4:
  "\<not> net_contains (v6net [] [] 128) [a, b, c, d]" "\<not> net_contains (v6net [] [1] 128) [a, b, c, d]"
  "\<not> net_contains (v6net [0x00, 0x64, 0xff, 0x9b] [] 96) [a, b, c, d]"
  "\<not> net_contains (v6net [0x01, 0x00] [] 64) [a, b, c, d]" "\<not> net_contains (v6net [0xfc, 0x00] [] 7) [a, b, c, d]"
  "\<not> net_contains (v6net [0xfe, 0x80] [] 10) [a, b, c, d]" "\<not> net_contains (v6net [0xff, 0x00] [] 8) [a, b, c, d]"
  by (rule contains_v6_v4; code_simp)+

lemma isBlocked_v4: "isBlockedIP [a, b, c, d] = v4_blocked a b c d"
proof -
  have top: "224 \<le> a \<and> a < 240 \<or> 240 \<le> a \<longleftrightarrow> 224 \<le> a"
    using order_trans [of 224 240 a] by auto
  have a255: "a = 255 \<Longrightarrow> 224 \<le> a" by simp
  have v4: "To4 [a, b, c, d] = Some [a, b, c, d]" by (simp add: To4_def)
  have "isBlockedIP [a, b, c, d] \<longleftrightarrow>
     a = 0 \<or> a = 10 \<or> a = 100 \<and> 64 \<le> b \<and> b < 128 \<or> a = 127 \<or> a = 169 \<and> b = 254 \<or>
     a = 172 \<and> 16 \<le> b \<and> b < 32 \<or> a = 192 \<and> b = 0 \<and> c = 0 \<or> a = 192 \<and> b = 0 \<and> c = 2 \<or>
     a = 192 \<and> b = 168 \<or> a = 198 \<and> (b = 18 \<or> b = 19) \<or> a = 198 \<and> b = 51 \<and> c = 100 \<or>
     a = 203 \<and> b = 0 \<and> c = 113 \<or> (224 \<le> a \<and> a < 240 \<or> 240 \<le> a) \<or>
     a = 255 \<and> b = 255 \<and> c = 255 \<and> d = 255"
    unfolding isBlockedIP_def blockedNets_def v4 Let_def option.case
    by (simp add: contains_blocked_v4 v6_nets_v4, simp only: mask_high_bits disj_assoc)
  then show ?thesis unfolding top v4_blocked_def using a255 by argo
qed

subsection \<open>IPv6 addresses\<close>

lemma and_zero_mask: "(x :: 8 word) AND 0 = 0"
  by simp

lemma contains_v6:
  assumes "To4 nn = None" "length nn = 16" "To4 i = None" "length i = 16"
  shows "net_contains \<lparr>net_ip = nn, net_ones = n\<rparr> i \<longleftrightarrow>
    list_all2 (\<lambda>(x, m) y. x AND m = y AND m) (zip nn (cidr_mask n 16)) i"
  using assms
  by (auto simp: net_contains_def Let_def list_all2_conv_all_nth list_all_iff simp del: cidr_mask.simps)

lemma v4_net_v6: "length i = 16 \<Longrightarrow> To4 i = None \<Longrightarrow> \<not> net_contains (v4net p q r s n) i"
  by (simp add: net_contains_def v4net_def To4_def Let_def)

lemma v6_masks:
  "cidr_mask 128 16 = replicate 16 0xff" "cidr_mask 96 16 = replicate 12 0xff @ replicate 4 0"
  "cidr_mask 64 16 = replicate 8 0xff @ replicate 8 0" "cidr_mask 7 16 = 0xfe # replicate 15 0"
  "cidr_mask 10 16 = 0xff # 0xc0 # replicate 14 0" "cidr_mask 8 16 = 0xff # replicate 15 0"
  by code_simp+

definition v6_blocked :: "ip \<Rightarrow> bool" where
  "v6_blocked i \<longleftrightarrow>
     i = replicate 16 0 \<or> i = replicate 15 0 @ [1] \<or>
     take 12 i = [0, 0x64, 0xff, 0x9b, 0, 0, 0, 0, 0, 0, 0, 0] \<or> take 8 i = [1, 0, 0, 0, 0, 0, 0, 0] \<or>
     i ! 0 AND 0xfe = 0xfc \<or> i ! 0 = 0xfe \<and> i ! 1 AND 0xc0 = 0x80 \<or> i ! 0 = 0xff"

lemma list_16: "length i = 16 \<Longrightarrow> i = [i ! 0, i ! 1, i ! 2, i ! 3, i ! 4, i ! 5, i ! 6, i ! 7, i ! 8,
    i ! 9, i ! 10, i ! 11, i ! 12, i ! 13, i ! 14, i ! 15]"
  by (simp add: eval_nat_numeral length_Suc_conv) (elim exE conjE, simp)

lemma v6_net_closed:
  "To4 (net_ip (v6net [] [] 128)) = None" "To4 (net_ip (v6net [] [1] 128)) = None"
  "To4 (net_ip (v6net [0x00, 0x64, 0xff, 0x9b] [] 96)) = None" "To4 (net_ip (v6net [0x01, 0x00] [] 64)) = None"
  "To4 (net_ip (v6net [0xfc, 0x00] [] 7)) = None" "To4 (net_ip (v6net [0xfe, 0x80] [] 10)) = None"
  "To4 (net_ip (v6net [0xff, 0x00] [] 8)) = None"
  by code_simp+

lemma isBlocked_v6:
  assumes "length i = 16" "To4 i = None"
  shows "isBlockedIP i = v6_blocked i"
proof -
  have c: "net_contains (v6net hi lo n) i \<longleftrightarrow>
      list_all2 (\<lambda>(x, m) y. x AND m = y AND m)
        (zip (hi @ replicate (16 - length hi - length lo) 0 @ lo) (cidr_mask n 16)) i"
    if "To4 (net_ip (v6net hi lo n)) = None" "length hi + length lo \<le> 16" for hi lo n
    using that contains_v6 [OF _ _ assms(2,1)] by (simp add: v6net_def)
  note cs = c [OF v6_net_closed(1)] c [OF v6_net_closed(2)] c [OF v6_net_closed(3)] c [OF v6_net_closed(4)]
    c [OF v6_net_closed(5)] c [OF v6_net_closed(6)] c [OF v6_net_closed(7)]
  obtain a b c d e f g h k l m n p q r s where i: "i = [a, b, c, d, e, f, g, h, k, l, m, n, p, q, r, s]"
    using list_16 [OF assms(1)] by blast
  have v: "isBlockedIP i \<longleftrightarrow>
      net_contains (v6net [] [] 128) i \<or> net_contains (v6net [] [1] 128) i \<or>
      net_contains (v6net [0x00, 0x64, 0xff, 0x9b] [] 96) i \<or> net_contains (v6net [0x01, 0x00] [] 64) i \<or>
      net_contains (v6net [0xfc, 0x00] [] 7) i \<or> net_contains (v6net [0xfe, 0x80] [] 10) i \<or>
      net_contains (v6net [0xff, 0x00] [] 8) i"
    unfolding isBlockedIP_def blockedNets_def Let_def assms(2) option.case
    by (simp add: v4_net_v6 [OF assms])
  show ?thesis
    unfolding v v6_blocked_def
    by (simp add: cs v6_masks del: cidr_mask.simps, simp add: i eval_nat_numeral)
qed

lemma To4_mapped: "To4 (replicate 10 0 @ [0xff, 0xff, a, b, c, d]) = Some [a, b, c, d]"
  by (simp add: To4_def eval_nat_numeral)

lemma isBlocked_mapped: "isBlockedIP (replicate 10 0 @ [0xff, 0xff, a, b, c, d]) = isBlockedIP [a, b, c, d]"
  unfolding isBlockedIP_def Let_def To4_mapped by (simp add: To4_def)

text \<open>C10: The SSRF blocklist, address by address: an IPv4 address is refused exactly when it is in one
  of the listed reserved ranges, written out on its four bytes, and writing it as an IPv4-mapped
  IPv6 address changes nothing; any other IPv6 address is refused exactly when it is unspecified,
  loopback, NAT64, discard-only, unique-local, link-local or multicast.\<close>

theorem blocklist_ranges:
  "isBlockedIP [a, b, c, d] = v4_blocked a b c d \<and>
   isBlockedIP (replicate 10 0 @ [0xff, 0xff, a, b, c, d]) = v4_blocked a b c d \<and>
   (length i = 16 \<and> To4 i = None \<longrightarrow> isBlockedIP i = v6_blocked i)"
  using isBlocked_v4 isBlocked_mapped isBlocked_v6 by blast

theorem blocklist_ranges_witness:
  "isBlockedIP [169, 254, 169, 254] \<and> isBlockedIP (replicate 10 0 @ [0xff, 0xff, 127, 0, 0, 1]) \<and>
   \<not> isBlockedIP [8, 8, 8, 8] \<and> isBlockedIP (0xfe # 0x80 # replicate 13 0 @ [1])"
proof -
  have "length (0xfe # 0x80 # replicate 13 0 @ [1 :: 8 word]) = 16 \<and>
      To4 (0xfe # 0x80 # replicate 13 0 @ [1 :: 8 word]) = None"
    by code_simp
  moreover have "v6_blocked (0xfe # 0x80 # replicate 13 0 @ [1])" by code_simp
  ultimately show ?thesis
    using blocklist_ranges [of 169 254 169 254 "0xfe # 0x80 # replicate 13 0 @ [1]"]
      blocklist_ranges [of 127 0 0 1 "[]"] blocklist_ranges [of 8 8 8 8 "[]"]
    by (simp add: v4_blocked_def)
qed

end
