(* ===== verification/Proxy_Cache.thy ===== *)
theory Proxy_Cache
  imports Config_Data Net_Addr Http_Wire
begin

text \<open>
  The caching proxy of \<open>internal/proxy/proxy.go\<close>: the allowlist, the guarded dialer, the redirect
  policy, size limits and the cache.  The network is the record \<open>net_lib\<close> of parameters: URL and IP
  parsing, resolution, connecting and one HTTP exchange, the last three on a state \<open>'w\<close> of the
  outside world.  \<open>http.Client.Get\<close> is modelled as \<open>net/http\<close> documents it: one exchange per hop,
  \<open>CheckRedirect\<close> before each further one.  Every connection attempt is recorded in a trace, so
  that what the proxy contacts can be stated.  Connections through an environment proxy and the
  reuse of idle connections are not modelled: each hop dials.
\<close>

subsection \<open>Sizes\<close>

definition DefaultMaxRedirects :: int where "DefaultMaxRedirects = 10"
definition DefaultMaxResponseBytes :: "64 word" where "DefaultMaxResponseBytes = 64 * 1024 * 1024"

definition size_units :: "(string \<times> 64 word) list" where
  "size_units =
     [(''gib'', 2 ^ 30), (''mib'', 2 ^ 20), (''kib'', 2 ^ 10),
      (''gb'', 1000 * 1000 * 1000), (''mb'', 1000 * 1000), (''kb'', 1000),
      (''g'', 2 ^ 30), (''m'', 2 ^ 20), (''k'', 2 ^ 10), (''b'', 1)]"

text \<open>The first suffix that fits is cut off.\<close>

fun cut_unit :: "(string \<times> 64 word) list \<Rightarrow> string \<Rightarrow> string \<times> 64 word" where
  "cut_unit [] s = (s, 1)"
| "cut_unit ((suffix, mult) # us) s =
     (if HasSuffix s suffix then (TrimSpace (take (length s - length suffix) s), mult) else cut_unit us s)"

text \<open>The digits, accumulated in an \<open>int64\<close>; \<open>None\<close> is the early return on another character.\<close>

fun size_digits :: "64 word \<Rightarrow> string \<Rightarrow> 64 word option" where
  "size_digits n [] = Some n"
| "size_digits n (r # s) =
     (if is_digit r then size_digits (n * 10 + word_of_nat (digit_val r)) s else None)"

definition parseSize :: "string \<Rightarrow> 64 word \<times> bool" where
  "parseSize s0 =
     (let s = TrimSpace (ToLower s0) in
      if s = [] then (0, False)
      else
        let (s', mult) = cut_unit size_units s in
        (case size_digits 0 s' of
           None \<Rightarrow> (0, False)
         | Some n \<Rightarrow> (n * mult, 0 < sint n)))"

definition maxResponseBytes :: "ProxyCacheConfig \<Rightarrow> 64 word" where
  "maxResponseBytes cfg =
     (case parseSize (MaxSize cfg) of (n, ok) \<Rightarrow> if ok \<and> 0 < sint n then n else DefaultMaxResponseBytes)"

definition parseTTL :: int where "parseTTL = 24 * 3600 * 1000000000"

subsection \<open>The allowlist\<close>

fun origins_allow :: "bool \<Rightarrow> string list \<Rightarrow> string \<Rightarrow> bool" where
  "origins_allow denyAll [] host = False"
| "origins_allow denyAll (allowed # rest) host =
     (if allowed = ''*'' \<and> \<not> denyAll then True
      else if allowed = host then True
      else if HasPrefix allowed ''*.'' \<and> HasSuffix host (drop 1 allowed) then True
      else origins_allow denyAll rest host)"

definition isAllowed :: "ProxyCacheConfig \<Rightarrow> string \<Rightarrow> bool" where
  "isAllowed cfg host = origins_allow (DenyAll cfg) (AllowedOrigins cfg) host"

subsection \<open>The network\<close>

record URL =
  u_Scheme :: string
  u_User :: "string option"
  u_Host :: string
  u_Hostname :: string

record 'w net_lib =
  url_parse :: "string \<Rightarrow> URL option"
  url_resolve :: "URL \<Rightarrow> string \<Rightarrow> URL option"
  parse_ip :: "string \<Rightarrow> ip option"
  resolve :: "'w \<Rightarrow> string \<Rightarrow> ip list \<times> 'w"
  connect_to :: "'w \<Rightarrow> ip \<Rightarrow> bool \<times> 'w"
  exchange :: "'w \<Rightarrow> URL \<Rightarrow> ip \<Rightarrow> http_resp option \<times> 'w"

datatype fetch_error =
    InvalidURL
  | DisallowedScheme string
  | UserInfo
  | MissingHost
  | NotInAllowlist string
  | BlockedIP ip
  | DialFailed
  | ExchangeFailed
  | TooManyRedirects int
  | RedirectScheme string
  | RedirectUserInfo
  | RedirectHost string
  | BadLocation
  | BodyError
  | TooLarge "64 word"

datatype contact = Attempt URL ip | Request URL ip

text \<open>\<open>guardedDialContext\<close>: the dialer tries the resolved addresses in turn; the \<open>Control\<close> function
  vetoes an address before the connection attempt.\<close>

definition dial_vetoed :: "ProxyCacheConfig \<Rightarrow> ip \<Rightarrow> bool" where
  "dial_vetoed cfg i \<longleftrightarrow> \<not> AllowPrivateIPs cfg \<and> isBlockedIP i"

fun dial_each :: "'w net_lib \<Rightarrow> ProxyCacheConfig \<Rightarrow> URL \<Rightarrow> 'w \<Rightarrow> ip list \<Rightarrow> (ip option \<times> contact list) \<times> 'w" where
  "dial_each net cfg u w [] = ((None, []), w)"
| "dial_each net cfg u w (i # is) =
     (if dial_vetoed cfg i then dial_each net cfg u w is
      else (case connect_to net w i of (ok, w') \<Rightarrow>
              if ok then ((Some i, [Attempt u i]), w')
              else (case dial_each net cfg u w' is of ((r, tr), w'') \<Rightarrow> ((r, Attempt u i # tr), w''))))"

definition guarded_dial :: "'w net_lib \<Rightarrow> ProxyCacheConfig \<Rightarrow> URL \<Rightarrow> 'w \<Rightarrow> (ip option \<times> contact list) \<times> 'w" where
  "guarded_dial net cfg u w =
     (case resolve net w (u_Host u) of (is, w') \<Rightarrow> dial_each net cfg u w' is)"

subsection \<open>Redirects\<close>

datatype redirect_verdict = Follow | UseLastResponse | Reject fetch_error

definition redirect_limit :: "ProxyCacheConfig \<Rightarrow> int" where
  "redirect_limit cfg = (if MaxRedirects cfg \<le> 0 then DefaultMaxRedirects else MaxRedirects cfg)"

definition checkRedirect :: "ProxyCacheConfig \<Rightarrow> URL \<Rightarrow> nat \<Rightarrow> redirect_verdict" where
  "checkRedirect cfg u via =
     (if AllowRedirects cfg = Some False then UseLastResponse
      else
        let limit = redirect_limit cfg in
        if int via \<ge> limit then Reject (TooManyRedirects limit)
        else if u_Scheme u \<noteq> ''http'' \<and> u_Scheme u \<noteq> ''https'' then Reject (RedirectScheme (u_Scheme u))
        else if u_User u \<noteq> None then Reject RedirectUserInfo
        else if \<not> isAllowed cfg (u_Host u) then Reject (RedirectHost (u_Host u))
        else Follow)"

text \<open>\<open>net/http\<close>: which responses redirect, and where to; \<open>Inl\<close> is a Location that does not parse.\<close>

definition redirect_target :: "'w net_lib \<Rightarrow> URL \<Rightarrow> http_resp \<Rightarrow> (unit + URL) option" where
  "redirect_target net u resp =
     (if hr_StatusCode resp \<notin> {301, 302, 303, 307, 308} then None
      else
        let loc = header_Get (hr_Header resp) ''Location'' in
        if loc = [] then None
        else (case url_resolve net u loc of None \<Rightarrow> Some (Inl ()) | Some u' \<Rightarrow> Some (Inr u')))"

text \<open>\<open>http.Client.Get\<close> after \<open>via\<close> requests.\<close>

function client_get :: "'w net_lib \<Rightarrow> ProxyCacheConfig \<Rightarrow> URL \<Rightarrow> nat \<Rightarrow> 'w \<Rightarrow>
    ((fetch_error + http_resp) \<times> contact list) \<times> 'w" where
  "client_get net cfg u via w =
     (case guarded_dial net cfg u w of
        ((None, tr), w1) \<Rightarrow> ((Inl DialFailed, tr), w1)
      | ((Some i, tr), w1) \<Rightarrow>
          (case exchange net w1 u i of
             (None, w2) \<Rightarrow> ((Inl ExchangeFailed, tr @ [Request u i]), w2)
           | (Some resp, w2) \<Rightarrow>
               (case redirect_target net u resp of
                  None \<Rightarrow> ((Inr resp, tr @ [Request u i]), w2)
                | Some (Inl _) \<Rightarrow> ((Inl BadLocation, tr @ [Request u i]), w2)
                | Some (Inr u') \<Rightarrow>
                    (case checkRedirect cfg u' (Suc via) of
                       UseLastResponse \<Rightarrow> ((Inr resp, tr @ [Request u i]), w2)
                     | Reject e \<Rightarrow> ((Inl e, tr @ [Request u i]), w2)
                     | Follow \<Rightarrow>
                         (case client_get net cfg u' (Suc via) w2 of
                            ((r, tr'), w3) \<Rightarrow> ((r, tr @ [Request u i] @ tr'), w3))))))"
  by pat_completeness auto
termination
  by (relation "measure (\<lambda>(net, cfg, u, via, w). nat (redirect_limit cfg) - via)")
    (auto simp: checkRedirect_def Let_def split: if_splits)

declare client_get.simps [simp del]

subsection \<open>Fetching\<close>

record Response =
  rs_StatusCode :: int
  rs_Status :: string
  rs_Header :: Header
  rs_Body :: bytes

record cacheEntry =
  ce_resp :: Response
  ce_fetchedAt :: int
  ce_ttl :: int

definition expired :: "cacheEntry \<Rightarrow> int \<Rightarrow> bool" where
  "expired e now \<longleftrightarrow> now - ce_fetchedAt e > ce_ttl e"

record Cache =
  ca_cfg :: ProxyCacheConfig
  ca_entries :: "string \<rightharpoonup> cacheEntry"

definition NewCache :: "ProxyCacheConfig \<Rightarrow> Cache" where
  "NewCache cfg = \<lparr>ca_cfg = cfg, ca_entries = Map.empty\<rparr>"

text \<open>\<open>io.ReadAll(io.LimitReader(body, n))\<close>: the bytes read and whether it ended without an error.\<close>

definition read_limited :: "int \<Rightarrow> http_resp \<Rightarrow> bytes \<times> bool" where
  "read_limited n resp =
     (if n \<le> 0 then ([], True)
      else if int (length (hr_Body resp)) \<ge> n then (take (nat n) (hr_Body resp), True)
      else (hr_Body resp, hr_BodyOk resp))"

text \<open>The checks before any network activity.\<close>

definition check_url :: "'w net_lib \<Rightarrow> ProxyCacheConfig \<Rightarrow> string \<Rightarrow> fetch_error + URL" where
  "check_url net cfg rawURL =
     (case url_parse net rawURL of
        None \<Rightarrow> Inl InvalidURL
      | Some u \<Rightarrow>
          if u_Scheme u \<noteq> ''http'' \<and> u_Scheme u \<noteq> ''https'' then Inl (DisallowedScheme (u_Scheme u))
          else if u_User u \<noteq> None then Inl UserInfo
          else if u_Host u = [] then Inl MissingHost
          else if \<not> isAllowed cfg (u_Host u) then Inl (NotInAllowlist (u_Host u))
          else if \<not> AllowPrivateIPs cfg then
            (case parse_ip net (u_Hostname u) of
               Some i \<Rightarrow> if isBlockedIP i then Inl (BlockedIP i) else Inr u
             | None \<Rightarrow> Inr u)
          else Inr u)"

text \<open>The response that is kept: body within the limit, hop-by-hop headers dropped.\<close>

definition capture :: "ProxyCacheConfig \<Rightarrow> http_resp \<Rightarrow> fetch_error + Response" where
  "capture cfg resp =
     (let limit = maxResponseBytes cfg; (body, ok) = read_limited (sint (limit + 1)) resp in
      if \<not> ok then Inl BodyError
      else if int (length body) > sint limit then Inl (TooLarge limit)
      else Inr \<lparr>rs_StatusCode = hr_StatusCode resp, rs_Status = hr_Status resp,
                rs_Header = strip_hop_by_hop (hr_Header resp), rs_Body = body\<rparr>)"

text \<open>The miss path of \<open>FetchResponse\<close>: fetch, capture, store.\<close>

definition fetch_and_store :: "'w net_lib \<Rightarrow> string \<Rightarrow> URL \<Rightarrow> int \<Rightarrow> Cache \<Rightarrow> 'w \<Rightarrow>
    ((fetch_error + Response) \<times> contact list) \<times> Cache \<times> 'w" where
  "fetch_and_store net rawURL u t2 c w =
     (case client_get net (ca_cfg c) u 0 w of
        ((Inl e, tr), w') \<Rightarrow> ((Inl e, tr), c, w')
      | ((Inr httpResp, tr), w') \<Rightarrow>
          (case capture (ca_cfg c) httpResp of
             Inl e \<Rightarrow> ((Inl e, tr), c, w')
           | Inr resp \<Rightarrow>
               ((Inr resp, tr),
                c\<lparr>ca_entries := (ca_entries c)(rawURL \<mapsto>
                    \<lparr>ce_resp = resp, ce_fetchedAt = t2, ce_ttl = parseTTL\<rparr>)\<rparr>, w')))"

text \<open>\<open>t1\<close> is the time of the cache lookup, \<open>t2\<close> the time the entry is stored.\<close>

definition FetchResponse :: "'w net_lib \<Rightarrow> string \<Rightarrow> int \<Rightarrow> int \<Rightarrow> Cache \<Rightarrow> 'w \<Rightarrow>
    ((fetch_error + Response) \<times> contact list) \<times> Cache \<times> 'w" where
  "FetchResponse net rawURL t1 t2 c w =
     (case check_url net (ca_cfg c) rawURL of
        Inl e \<Rightarrow> ((Inl e, []), c, w)
      | Inr u \<Rightarrow>
          (case ca_entries c rawURL of
             Some e \<Rightarrow>
               if \<not> expired e t1 then ((Inr (ce_resp e), []), c, w)
               else fetch_and_store net rawURL u t2 c w
           | None \<Rightarrow> fetch_and_store net rawURL u t2 c w))"

text \<open>\<open>Fetch\<close> keeps the body alone.\<close>

definition Fetch :: "'w net_lib \<Rightarrow> string \<Rightarrow> int \<Rightarrow> int \<Rightarrow> Cache \<Rightarrow> 'w \<Rightarrow>
    ((fetch_error + bytes) \<times> contact list) \<times> Cache \<times> 'w" where
  "Fetch net rawURL t1 t2 c w =
     (case FetchResponse net rawURL t1 t2 c w of
        ((r, tr), c', w') \<Rightarrow> ((map_sum id rs_Body r, tr), c', w'))"

subsection \<open>What the proxy contacts\<close>

definition url_permitted :: "ProxyCacheConfig \<Rightarrow> URL \<Rightarrow> bool" where
  "url_permitted cfg u \<longleftrightarrow>
     isAllowed cfg (u_Host u) \<and> u_Scheme u \<in> {''http'', ''https''} \<and> u_User u = None"

fun contact_permitted :: "ProxyCacheConfig \<Rightarrow> contact \<Rightarrow> bool" where
  "contact_permitted cfg (Attempt u i) = (url_permitted cfg u \<and> \<not> dial_vetoed cfg i)"
| "contact_permitted cfg (Request u i) = (url_permitted cfg u \<and> \<not> dial_vetoed cfg i)"

fun is_request :: "contact \<Rightarrow> bool" where
  "is_request (Request u i) = True"
| "is_request (Attempt u i) = False"

lemma dial_each_permitted:
  assumes "url_permitted cfg u" "dial_each net cfg u w is = ((r, tr), w')"
  shows "list_all (contact_permitted cfg) tr \<and> filter is_request tr = [] \<and>
    (\<forall>i. r = Some i \<longrightarrow> \<not> dial_vetoed cfg i)"
  using assms(2)
proof (induction "is" arbitrary: w tr)
  case (Cons i "is")
  show ?case
  proof (cases "dial_vetoed cfg i")
    case False
    obtain ok w1 where c: "connect_to net w i = (ok, w1)" by (cases "connect_to net w i")
    obtain r' tr' w2 where d: "dial_each net cfg u w1 is = ((r', tr'), w2)"
      by (cases "dial_each net cfg u w1 is") auto
    show ?thesis
      using Cons.prems Cons.IH [of w1 tr'] False assms(1) c d by (auto split: if_splits)
  qed (use Cons in auto)
qed auto

lemma guarded_dial_permitted:
  assumes "url_permitted cfg u" "guarded_dial net cfg u w = ((r, tr), w')"
  shows "list_all (contact_permitted cfg) tr \<and> filter is_request tr = [] \<and>
    (\<forall>i. r = Some i \<longrightarrow> \<not> dial_vetoed cfg i)"
  using assms dial_each_permitted [OF assms(1), of net _ _ r tr]
  by (auto simp: guarded_dial_def split: prod.splits)

lemma checkRedirect_follow:
  "checkRedirect cfg u via = Follow \<longleftrightarrow>
     AllowRedirects cfg \<noteq> Some False \<and> int via < redirect_limit cfg \<and> url_permitted cfg u"
  by (auto simp: checkRedirect_def Let_def url_permitted_def)

lemma redirect_limit_pos: "0 < redirect_limit cfg"
  by (simp add: redirect_limit_def DefaultMaxRedirects_def)

lemma client_get_permitted:
  assumes "url_permitted cfg u" "int via < redirect_limit cfg" "client_get net cfg u via w = ((r, tr), w')"
  shows "list_all (contact_permitted cfg) tr \<and>
    int (length (filter is_request tr)) \<le> redirect_limit cfg - int via \<and>
    (AllowRedirects cfg = Some False \<longrightarrow> length (filter is_request tr) \<le> 1)"
  using assms
proof (induction net cfg u via w arbitrary: r tr w' rule: client_get.induct)
  case (1 net cfg u via w)
  obtain d tr0 w1 where d: "guarded_dial net cfg u w = ((d, tr0), w1)"
    by (cases "guarded_dial net cfg u w") auto
  note g = guarded_dial_permitted [OF "1.prems"(1) d]
  have one: "list_all (contact_permitted cfg) (tr0 @ [Request u i]) \<and> filter is_request (tr0 @ [Request u i]) = [Request u i]"
    if "d = Some i" for i
    using g that "1.prems"(1) by simp
  show ?case
  proof (cases d)
    case None
    then show ?thesis using "1.prems" g d by (auto simp: client_get.simps [of _ _ u])
  next
    case (Some i)
    obtain ex w2 where x: "exchange net w1 u i = (ex, w2)" by (cases "exchange net w1 u i")
    show ?thesis
    proof (cases "\<exists>resp u'. ex = Some resp \<and> redirect_target net u resp = Some (Inr u') \<and>
        checkRedirect cfg u' (Suc via) = Follow")
      case True
      then obtain resp u' where e: "ex = Some resp" "redirect_target net u resp = Some (Inr u')"
        "checkRedirect cfg u' (Suc via) = Follow" by blast
      obtain r1 tr1 w3 where k: "client_get net cfg u' (Suc via) w2 = ((r1, tr1), w3)"
        by (cases "client_get net cfg u' (Suc via) w2") auto
      have tr: "tr = tr0 @ [Request u i] @ tr1"
        using "1.prems"(3) d Some x e k by (subst (asm) client_get.simps) simp
      have u': "url_permitted cfg u'" "int (Suc via) < redirect_limit cfg" "AllowRedirects cfg \<noteq> Some False"
        using e(3) by (simp_all add: checkRedirect_follow)
      note ih = "1.IH" [OF d [symmetric] refl Some x [symmetric] e(1) e(2) refl e(3) u'(1,2) k]
      show ?thesis using ih one [OF Some] u'(3) by (simp add: tr)
    next
      case False
      then have tr: "tr = tr0 @ [Request u i]"
        using "1.prems"(3) d Some x
        by (subst (asm) client_get.simps) (auto split: option.splits sum.splits redirect_verdict.splits)
      show ?thesis using one [OF Some] "1.prems"(2) by (simp add: tr)
    qed
  qed
qed

end
