(* ===== verification/Proxy_Props.thy ===== *)
theory Proxy_Props
  imports Proxy_Cache
begin

text \<open>
  The guarantees of the caching proxy: the allowlist against its specification, what may be
  contacted (the SSRF gate over a whole redirect chain), the cache invariant, and the size limits
  with the wrap-around of their 64-bit arithmetic.
\<close>

subsection \<open>The allowlist\<close>

text \<open>The origin allowlist means what its documentation says: a host is allowed iff some entry is
  \<open>*\<close> (and \<open>deny *\<close> is not set), is the host itself, or is \<open>*.d\<close> where the host ends in
  \<open>.d\<close>.  In particular an entry \<open>*.d\<close> never admits \<open>d\<close> itself or a host that merely ends in the
  letters of \<open>d\<close>.\<close>

theorem allowlist_meaning:
  "isAllowed cfg host \<longleftrightarrow>
     (''*'' \<in> set (AllowedOrigins cfg) \<and> \<not> DenyAll cfg) \<or> host \<in> set (AllowedOrigins cfg) \<or>
     (\<exists>d sub. ''*.'' @ d \<in> set (AllowedOrigins cfg) \<and> host = sub @ ''.'' @ d)"
proof -
  have glob: "HasPrefix a ''*.'' \<and> HasSuffix host (drop 1 a) \<longleftrightarrow> (\<exists>d sub. a = ''*.'' @ d \<and> host = sub @ ''.'' @ d)"
    for a by (auto simp: HasPrefix_iff HasSuffix_iff)
  have ex: "(\<exists>a\<in>set as. HasPrefix a ''*.'' \<and> HasSuffix host (drop 1 a)) \<longleftrightarrow>
      (\<exists>d sub. ''*.'' @ d \<in> set as \<and> host = sub @ ''.'' @ d)" for as
    unfolding glob by (rule iffI; elim bexE exE conjE; intro exI conjI bexI; simp?)
  have "origins_allow deny as host \<longleftrightarrow>
     (''*'' \<in> set as \<and> \<not> deny) \<or> host \<in> set as \<or>
     (\<exists>a\<in>set as. HasPrefix a ''*.'' \<and> HasSuffix host (drop 1 a))" for deny as
    by (induction as) auto
  then show ?thesis unfolding isAllowed_def ex by simp
qed

subsection \<open>The gate\<close>

lemma check_url_permitted:
  "check_url net cfg raw = Inr u \<Longrightarrow> url_permitted cfg u"
  by (auto simp: check_url_def url_permitted_def split: option.splits if_splits)

text \<open>The policy for one request: every contact permitted, and no more requests than the cap.\<close>

definition trace_permitted :: "ProxyCacheConfig \<Rightarrow> contact list \<Rightarrow> bool" where
  "trace_permitted cfg tr \<longleftrightarrow> list_all (contact_permitted cfg) tr \<and>
     int (length (filter is_request tr)) \<le> redirect_limit cfg \<and>
     \<not> (AllowRedirects cfg = Some False \<and> length (filter is_request tr) > 1)"

lemma fetch_and_store_permitted:
  assumes "url_permitted (ca_cfg c) u"
  shows "trace_permitted (ca_cfg c) (snd (fst (fetch_and_store net raw u t2 c w)))"
proof -
  obtain r tr w' where g: "client_get net (ca_cfg c) u 0 w = ((r, tr), w')"
    by (cases "client_get net (ca_cfg c) u 0 w") auto
  have "snd (fst (fetch_and_store net raw u t2 c w)) = tr"
    by (auto simp: fetch_and_store_def g split: sum.split)
  then show ?thesis
    using client_get_permitted [OF assms _ g] redirect_limit_pos [of "ca_cfg c"]
    by (auto simp: trace_permitted_def)
qed


text \<open>Allowlist enforcement comes before any network activity: a URL the checks refuse is refused
  with no contact, no change of the world and no change of the cache, even when a response for it
  is cached.\<close>

theorem refused_without_traffic:
  assumes "\<And>u. url_parse net raw = Some u \<Longrightarrow> \<not> url_permitted (ca_cfg c) u"
  shows "\<exists>e. FetchResponse net raw t1 t2 c w = ((Inl e, []), c, w)"
proof -
  have "\<exists>e. check_url net (ca_cfg c) raw = Inl e"
    using assms by (cases "url_parse net raw") (auto simp: check_url_def url_permitted_def)
  then show ?thesis by (auto simp: FetchResponse_def)
qed

text \<open>The redirect policy: a redirect is followed iff redirects are not switched off, its target is
  permitted, and fewer requests than the cap were made; a cap of zero or less is a cap of ten (it
  does not disable redirects), and a cap of \<open>n\<close> allows \<open>n - 1\<close> redirects.\<close>

theorem redirect_policy:
  "checkRedirect cfg u via = Follow \<longleftrightarrow>
     AllowRedirects cfg \<noteq> Some False \<and> url_permitted cfg u \<and>
     int via < (if MaxRedirects cfg \<le> 0 then 10 else MaxRedirects cfg)"
  by (auto simp: checkRedirect_follow redirect_limit_def DefaultMaxRedirects_def)

subsection \<open>The cache\<close>

definition response_ok :: "ProxyCacheConfig \<Rightarrow> Response \<Rightarrow> bool" where
  "response_ok cfg r \<longleftrightarrow> int (length (rs_Body r)) \<le> sint (maxResponseBytes cfg) \<and>
     list_all (\<lambda>k. rs_Header r k = None) hop_keys"

definition cache_ok :: "Cache \<Rightarrow> bool" where
  "cache_ok c \<longleftrightarrow> (\<forall>raw e. ca_entries c raw = Some e \<longrightarrow> response_ok (ca_cfg c) (ce_resp e))"

lemma capture_ok: "capture cfg resp = Inr r \<Longrightarrow> response_ok cfg r"
  by (auto simp: capture_def Let_def response_ok_def strip_app list_all_iff split: prod.splits if_splits)

lemma fetch_and_store_ok:
  assumes "cache_ok c" "fetch_and_store net raw u t2 c w = ((r, tr), c', w')"
  shows "cache_ok c' \<and> ca_cfg c' = ca_cfg c \<and> (\<forall>x. r = Inr x \<longrightarrow> response_ok (ca_cfg c) x)"
proof -
  obtain g tr' w2 where g: "client_get net (ca_cfg c) u 0 w = ((g, tr'), w2)"
    by (cases "client_get net (ca_cfg c) u 0 w") auto
  show ?thesis
  proof (cases g)
    case (Inr resp)
    show ?thesis
    proof (cases "capture (ca_cfg c) resp")
      case k: (Inr x)
      with assms g Inr capture_ok [OF k] show ?thesis
        by (auto simp: fetch_and_store_def cache_ok_def split: if_splits)
    qed (use assms g Inr in \<open>auto simp: fetch_and_store_def\<close>)
  qed (use assms g in \<open>auto simp: fetch_and_store_def\<close>)
qed


text \<open>A response that was fetched is served again, without contacting anything, for exactly 24 hours
  after it was stored, whatever \<open>ttl\<close> the configuration names.\<close>

theorem cached_for_a_day:
  assumes "FetchResponse net raw t1 t2 c w = ((Inr x, tr), c', w')" "tr \<noteq> []"
    and "t2 \<le> t3" "t3 \<le> t2 + 86400 * 1000000000"
  shows "FetchResponse net raw t3 t4 c' w2 = ((Inr x, []), c', w2)"
proof -
  obtain u where u: "check_url net (ca_cfg c) raw = Inr u"
    using assms(1) by (cases "check_url net (ca_cfg c) raw") (auto simp: FetchResponse_def)
  have "fetch_and_store net raw u t2 c w = ((Inr x, tr), c', w')"
    using assms(1,2) u by (auto simp: FetchResponse_def split: option.splits if_splits)
  then have "ca_entries c' raw = Some \<lparr>ce_resp = x, ce_fetchedAt = t2, ce_ttl = parseTTL\<rparr> \<and> ca_cfg c' = ca_cfg c"
    by (auto simp: fetch_and_store_def split: prod.splits sum.splits)
  with u assms(4) show ?thesis by (simp add: FetchResponse_def expired_def parseTTL_def)
qed

subsection \<open>Size limits\<close>

definition unit_values :: "(string \<times> nat) list" where
  "unit_values =
     [('''', 1), (''b'', 1), (''k'', 1024), (''kb'', 1000), (''kib'', 1024), (''m'', 1048576), (''mb'', 1000000),
      (''mib'', 1048576), (''g'', 1073741824), (''gb'', 1000000000), (''gib'', 1073741824)]"

lemma size_digits_value:
  "list_all is_digit s \<Longrightarrow>
   size_digits (word_of_nat k) s = Some (word_of_nat (foldl (\<lambda>n c. n * 10 + digit_val c) k s))"
proof (induction s arbitrary: k)
  case (Cons c s)
  have "word_of_nat k * 10 + word_of_nat (digit_val c) = (word_of_nat (k * 10 + digit_val c) :: 64 word)" by simp
  with Cons show ?case by (simp del: of_nat_add of_nat_mult)
qed simp

lemma HasSuffix_digits:
  assumes "list_all is_digit ds" "list_all (\<lambda>c. \<not> is_digit c) v"
  shows "HasSuffix (ds @ u) v \<longleftrightarrow> HasSuffix u v"
proof
  assume "HasSuffix (ds @ u) v"
  then obtain x where x: "ds @ u = x @ v" by (auto simp: HasSuffix_iff)
  then obtain y where "ds @ y = x \<and> u = y @ v \<or> ds = x @ y \<and> y @ u = v"
    by (metis append_eq_append_conv2)
  moreover have "y = []" if "ds = x @ y" "y @ u = v"
    using that assms by (cases y) auto
  ultimately show "HasSuffix u v" by (auto simp: HasSuffix_iff)
qed (auto simp: HasSuffix_iff)

lemma cut_unit_digits:
  assumes "list_all is_digit ds" "(u, m) \<in> set unit_values"
  shows "cut_unit size_units (ds @ u) = (if u = [] then ds else TrimSpace ds, word_of_nat m)"
proof -
  have nd: "list_all (\<lambda>c. \<not> is_digit c) v" if "v \<in> set (map fst size_units)" for v
    using that by (auto simp: size_units_def is_digit_def)
  have s: "HasSuffix (ds @ u) v = HasSuffix u v" if "v \<in> set (map fst size_units)" for v
    by (rule HasSuffix_digits [OF assms(1) nd [OF that]])
  have s': "HasSuffix (ds @ u) ''gib'' = HasSuffix u ''gib''" "HasSuffix (ds @ u) ''mib'' = HasSuffix u ''mib''"
    "HasSuffix (ds @ u) ''kib'' = HasSuffix u ''kib''" "HasSuffix (ds @ u) ''gb'' = HasSuffix u ''gb''"
    "HasSuffix (ds @ u) ''mb'' = HasSuffix u ''mb''" "HasSuffix (ds @ u) ''kb'' = HasSuffix u ''kb''"
    "HasSuffix (ds @ u) ''g'' = HasSuffix u ''g''" "HasSuffix (ds @ u) ''m'' = HasSuffix u ''m''"
    "HasSuffix (ds @ u) ''k'' = HasSuffix u ''k''" "HasSuffix (ds @ u) ''b'' = HasSuffix u ''b''"
    by (rule s, simp add: size_units_def)+
  have "cut_unit size_units (ds @ u) =
    (if HasSuffix u ''gib'' then (TrimSpace (take (length (ds @ u) - length ''gib'') (ds @ u)), 2 ^ 30)
     else if HasSuffix u ''mib'' then (TrimSpace (take (length (ds @ u) - length ''mib'') (ds @ u)), 2 ^ 20)
     else if HasSuffix u ''kib'' then (TrimSpace (take (length (ds @ u) - length ''kib'') (ds @ u)), 2 ^ 10)
     else if HasSuffix u ''gb'' then (TrimSpace (take (length (ds @ u) - length ''gb'') (ds @ u)), 1000 * 1000 * 1000)
     else if HasSuffix u ''mb'' then (TrimSpace (take (length (ds @ u) - length ''mb'') (ds @ u)), 1000 * 1000)
     else if HasSuffix u ''kb'' then (TrimSpace (take (length (ds @ u) - length ''kb'') (ds @ u)), 1000)
     else if HasSuffix u ''g'' then (TrimSpace (take (length (ds @ u) - length ''g'') (ds @ u)), 2 ^ 30)
     else if HasSuffix u ''m'' then (TrimSpace (take (length (ds @ u) - length ''m'') (ds @ u)), 2 ^ 20)
     else if HasSuffix u ''k'' then (TrimSpace (take (length (ds @ u) - length ''k'') (ds @ u)), 2 ^ 10)
     else if HasSuffix u ''b'' then (TrimSpace (take (length (ds @ u) - length ''b'') (ds @ u)), 1)
     else (ds @ u, 1))"
    by (simp only: size_units_def cut_unit.simps s')
  then show ?thesis
    using assms(2) unfolding unit_values_def list.set insert_iff empty_iff prod.inject
    by (elim disjE conjE FalseE) (simp_all add: HasSuffix_def)
qed

lemma ToLower_digits: "list_all is_digit ds \<Longrightarrow> ToLower (ds @ s) = ds @ ToLower s"
proof -
  have "lower_char c = c" if "is_digit c" for c
  proof -
    have "c \<notin> set upper_letters" using that by (auto simp: is_digit_def upper_letters_def)
    then have "map_of (zip upper_letters lower_letters) c = None"
      by (simp add: map_of_eq_None_iff upper_letters_def lower_letters_def)
    then show ?thesis by (simp add: lower_char_def)
  qed
  then have "list_all is_digit ds \<Longrightarrow> map lower_char ds = ds" by (induction ds) simp_all
  moreover have "list_all is_digit ds \<Longrightarrow> list_all ascii ds" by (auto simp: list_all_iff is_digit_plain)
  ultimately show "list_all is_digit ds \<Longrightarrow> ToLower (ds @ s) = ds @ ToLower s" by (simp add: ToLower_append)
qed

lemma trimmed_digits:
  assumes "list_all is_digit ds" "ds \<noteq> []" "(u, m) \<in> set unit_values"
  shows "trimmed (ds @ u)" and "trimmed ds"
proof -
  have "is_digit (hd ds)" "is_digit (last ds)" using assms(1,2) by (simp_all add: list_all_iff)
  moreover have "u \<noteq> [] \<Longrightarrow> \<not> is_space (last u) \<and> ascii (last u)"
    using assms(3) by (auto simp: unit_values_def is_space_def ascii_def)
  ultimately show "trimmed (ds @ u)" "trimmed ds"
    using assms(2) by (auto simp: is_digit_plain last_append intro!: trimmed_ascii split: if_splits)
qed

lemma parseSize_printed:
  assumes "(ToLower suf, m) \<in> set unit_values"
  shows "parseSize (show_nat n @ suf) = (word_of_nat (n * m), 0 < sint (word_of_nat n :: 64 word))"
proof -
  note d = show_nat_digits [of n]
  have l: "ToLower (show_nat n @ suf) = show_nat n @ ToLower suf"
    by (rule ToLower_digits [OF d])
  have t: "TrimSpace (show_nat n @ ToLower suf) = show_nat n @ ToLower suf" "TrimSpace (show_nat n) = show_nat n"
    using trimmed_digits [OF d _ assms] by (simp_all add: TrimSpace_trimmed)
  have "size_digits 0 (show_nat n) = Some (word_of_nat n)"
    using size_digits_value [OF d, of 0] dec_value_show_nat [of n] by (simp add: dec_value_def)
  then show ?thesis
    by (simp add: parseSize_def Let_def l t cut_unit_digits [OF d assms])
qed

lemma sint_small: "k < 2 ^ 63 \<Longrightarrow> sint (word_of_nat k :: 64 word) = int k"
  by (simp add: signed_of_nat signed_take_bit_int_eq_self)


lemma show_nat_of: "rev (dec_rev n) = s \<Longrightarrow> show_nat n = s"
  by (simp add: show_nat_def)


text \<open>With the largest size that can be written, \<open>9223372036854775807\<close>, the bound that is read up to
  (\<open>limit + 1\<close>) wraps around to a negative number: every upstream body is then replaced by the empty
  one, and delivered as a success.\<close>

theorem largest_size_empties_bodies:
  assumes "MaxSize cfg = show_nat (2 ^ 63 - 1)"
  shows "capture cfg resp = Inr \<lparr>rs_StatusCode = hr_StatusCode resp, rs_Status = hr_Status resp,
    rs_Header = strip_hop_by_hop (hr_Header resp), rs_Body = []\<rparr>"
proof -
  have u: "(ToLower [], 1) \<in> set unit_values" by (simp add: unit_values_def ToLower_def)
  have "parseSize (MaxSize cfg) = (word_of_nat (2 ^ 63 - 1), 0 < sint (word_of_nat (2 ^ 63 - 1) :: 64 word))"
    using parseSize_printed [OF u, of "2 ^ 63 - 1"] assms by simp
  moreover have "sint (word_of_nat (2 ^ 63 - 1) :: 64 word) = 2 ^ 63 - 1"
    by (subst sint_small) (simp_all add: of_nat_diff)
  ultimately have l: "maxResponseBytes cfg = word_of_nat (2 ^ 63 - 1)" by (simp add: maxResponseBytes_def)
  have "sint (maxResponseBytes cfg + 1) \<le> 0" "0 \<le> sint (maxResponseBytes cfg)"
    unfolding l by simp_all
  then show ?thesis by (simp add: capture_def Let_def read_limited_def)
qed

subsection \<open>A small network\<close>

text \<open>One server that answers every request: \<open>/\<close> is not looked at, the body is \<open>hi\<close>.\<close>

definition demo_url :: "string \<Rightarrow> URL" where
  "demo_url s = \<lparr>u_Scheme = ''http'', u_User = None, u_Host = drop 7 s, u_Hostname = drop 7 s\<rparr>"

definition demo_resp :: http_resp where
  "demo_resp = \<lparr>hr_StatusCode = 200, hr_Status = ''200 OK'', hr_Header = [''Connection'' \<mapsto> [''close'']],
     hr_Body = ''hi'', hr_BodyOk = True\<rparr>"

definition demo_net :: "nat net_lib" where
  "demo_net = \<lparr>url_parse = (\<lambda>s. if HasPrefix s ''http://'' then Some (demo_url s) else None),
     url_resolve = (\<lambda>u l. None), parse_ip = (\<lambda>s. None),
     resolve = (\<lambda>w h. ([[127, 0, 0, 1], [8, 8, 8, 8]], Suc w)), connect_to = (\<lambda>w i. (True, Suc w)),
     exchange = (\<lambda>w u i. (Some demo_resp, Suc w))\<rparr>"

definition demo_cfg :: ProxyCacheConfig where
  "demo_cfg = zero_ProxyCacheConfig\<lparr>AllowedOrigins := [''a.org'']\<rparr>"

definition demo_response :: Response where
  "demo_response = \<lparr>rs_StatusCode = 200, rs_Status = ''200 OK'', rs_Header = strip_hop_by_hop [''Connection'' \<mapsto> [''close'']],
     rs_Body = ''hi''\<rparr>"

lemma demo_limit: "maxResponseBytes demo_cfg = 67108864"
  by (simp add: maxResponseBytes_def parseSize_def demo_cfg_def zero_ProxyCacheConfig_def ToLower_def
      DefaultMaxResponseBytes_def)

lemma demo_capture: "capture demo_cfg demo_resp = Inr demo_response"
  by (simp add: capture_def Let_def demo_limit read_limited_def demo_resp_def demo_response_def)

lemma demo_check: "check_url demo_net demo_cfg ''http://a.org'' = Inr (demo_url ''http://a.org'')"
  by (simp add: check_url_def demo_net_def HasPrefix_def demo_url_def isAllowed_def demo_cfg_def zero_ProxyCacheConfig_def)

lemma demo_get: "client_get demo_net demo_cfg u 0 w =
    ((Inr demo_resp, [Attempt u [8, 8, 8, 8], Request u [8, 8, 8, 8]]), Suc (Suc (Suc w)))"
proof -
  have d: "dial_vetoed demo_cfg [127, 0, 0, 1]" "\<not> dial_vetoed demo_cfg [8, 8, 8, 8]"
    by (simp_all add: dial_vetoed_def isBlocked_v4 v4_blocked_def demo_cfg_def zero_ProxyCacheConfig_def)
  have g: "guarded_dial demo_net demo_cfg u w = ((Some [8, 8, 8, 8], [Attempt u [8, 8, 8, 8]]), Suc (Suc w))"
    using d by (simp add: guarded_dial_def demo_net_def)
  have x: "exchange demo_net (Suc (Suc w)) u [8, 8, 8, 8] = (Some demo_resp, Suc (Suc (Suc w)))"
    "redirect_target demo_net u demo_resp = None"
    by (simp_all add: demo_net_def redirect_target_def demo_resp_def)
  show ?thesis by (subst client_get.simps) (simp add: g x)
qed

lemma demo_fetch: "FetchResponse demo_net ''http://a.org'' 0 5 (NewCache demo_cfg) 0 =
    ((Inr demo_response, [Attempt (demo_url ''http://a.org'') [8, 8, 8, 8], Request (demo_url ''http://a.org'') [8, 8, 8, 8]]),
     NewCache demo_cfg\<lparr>ca_entries := [''http://a.org'' \<mapsto>
       \<lparr>ce_resp = demo_response, ce_fetchedAt = 5, ce_ttl = parseTTL\<rparr>]\<rparr>, 3)"
  by (simp add: FetchResponse_def NewCache_def demo_check fetch_and_store_def demo_get demo_capture)

theorem refused_without_traffic_witness:
  "\<exists>e. FetchResponse demo_net ''http://b.org'' 0 5 (NewCache demo_cfg) 0 = ((Inl e, []), NewCache demo_cfg, 0)"
  by (rule refused_without_traffic) (auto simp: demo_net_def url_permitted_def demo_url_def NewCache_def demo_cfg_def
    isAllowed_def zero_ProxyCacheConfig_def HasPrefix_def HasSuffix_def split: if_splits)


theorem cached_for_a_day_witness:
  "\<exists>c'. FetchResponse demo_net ''http://a.org'' 3600000000005 9 c' 3 = ((Inr demo_response, []), c', 3)"
  by (rule exI, rule cached_for_a_day [OF demo_fetch]) simp_all

theorem largest_size_empties_bodies_witness:
  "\<exists>h. capture (demo_cfg\<lparr>MaxSize := show_nat (2 ^ 63 - 1)\<rparr>) demo_resp =
    Inr \<lparr>rs_StatusCode = 200, rs_Status = ''200 OK'', rs_Header = h, rs_Body = []\<rparr>"
  using largest_size_empties_bodies [of "demo_cfg\<lparr>MaxSize := show_nat (2 ^ 63 - 1)\<rparr>" demo_resp]
  by (simp add: demo_resp_def)

end
