(* ===== verification/Handler.thy ===== *)
theory Handler
  imports Discovery Backend Proxy_Props
begin

text \<open>
  The command handler of \<open>internal/commands/handler.go\<close>: authorisation, dispatch and the commands
  that have effects.  What the handler calls is the record \<open>env\<close> of parameters on the state \<open>'w\<close> of
  the outside world; the channel it writes to is an \<open>io_write\<close> on a state \<open>'s\<close>.  The result is
  \<open>None\<close> when the handler waits for the MCP server forever.
\<close>

subsection \<open>State and environment\<close>

record Handler =
  hd_cfg :: Config
  hd_siteIdx :: nat
  hd_backend :: "Backend option"
  hd_proxy :: "Cache option"
  hd_mcp :: "Proxy option"

record SessionInfo =
  si_Tier :: string
  si_Fingerprint :: string
  si_PublicKey :: string

text \<open>\<open>ev_clock\<close> gives the two clock readings of a fetch, \<open>ev_order\<close> the order in which the runtime
  iterates over a header map.\<close>

record 'w env =
  ev_net :: "'w net_lib"
  ev_http :: "'w http_lib"
  ev_mcp :: "'w mcp_lib"
  ev_fs :: "'w \<Rightarrow> fs"
  ev_deflate :: "bytes \<Rightarrow> bytes option"
  ev_clock :: "'w \<Rightarrow> int \<times> int"
  ev_order :: "'w \<Rightarrow> Header \<Rightarrow> string list"
  ev_status_text :: "int \<Rightarrow> string"
  ev_float_text :: "string \<Rightarrow> string option"

datatype handler_error =
    SiteIndexOutOfRange
  | SettingUpBackend backend_error
  | StartingMcp mcp_error
  | PermissionDenied string string
  | UnknownCommand string
  | ContentFailed content_error
  | NoContentNoBackend
  | BackendFailed backend_error
  | ReadingBackendResponse
  | NoFeed string
  | UsageMcp
  | NoMcpServer
  | BadMcpArgument string
  | McpFailed mcp_error
  | UsageApiCall
  | RouteNotConfigured string string
  | NoApiBackend
  | ApiBackendError int backend_error bytes
  | UsageProxyCall
  | OnlyGET
  | NoProxyCache
  | FetchFailed fetch_error
  | PackFailed pack_error
  | ChannelWrite

definition NewHandlerForSite :: "'w env \<Rightarrow> Config \<Rightarrow> int \<Rightarrow> 'w \<Rightarrow> ((handler_error + Handler) \<times> 'w) option" where
  "NewHandlerForSite ev cfg siteIdx w =
     (if siteIdx < 0 \<or> siteIdx \<ge> int (length (Sites cfg)) then Some (Inl SiteIndexOutOfRange, w)
      else let site = Sites cfg ! nat siteIdx in
        (case backend_New (ev_http ev) (SiteConfig.Backend site) of
           Inl e \<Rightarrow> Some (Inl (SettingUpBackend e), w)
         | Inr b \<Rightarrow>
             let pc = (if AllowedOrigins (ProxyCache site) \<noteq> [] then Some (NewCache (ProxyCache site)) else None);
                 made = (\<lambda>mp. \<lparr>hd_cfg = cfg, hd_siteIdx = nat siteIdx, hd_backend = b, hd_proxy = pc, hd_mcp = mp\<rparr>)
             in (case MCP site of
                   Some m \<Rightarrow>
                     if mc_Transport m = ''stdio'' then
                       (case Start (ev_mcp ev) (mc_Command m) w of
                          None \<Rightarrow> None
                        | Some (Inl e, w') \<Rightarrow> Some (Inl (StartingMcp e), w')
                        | Some (Inr p, w') \<Rightarrow> Some (Inr (made (Some p)), w'))
                     else Some (Inr (made None), w)
                 | None \<Rightarrow> Some (Inr (made None), w))))"

definition NewHandler :: "'w env \<Rightarrow> Config \<Rightarrow> 'w \<Rightarrow> ((handler_error + Handler) \<times> 'w) option" where
  "NewHandler ev cfg w = NewHandlerForSite ev cfg 0 w"

definition site :: "Handler \<Rightarrow> SiteConfig" where
  "site h = Sites (hd_cfg h) ! hd_siteIdx h"

subsection \<open>The commands\<close>

definition apiCall :: "'w env \<Rightarrow> Handler \<Rightarrow> string list \<Rightarrow> SessionInfo \<Rightarrow> 'w \<Rightarrow> (handler_error + string) \<times> 'w" where
  "apiCall ev h args sess w =
     (case args of
        m # path # rest \<Rightarrow>
          let meth = ToUpper m in
          if \<not> routeAllowed (site h) ''api-call'' meth path then (Inl (RouteNotConfigured meth path), w)
          else (case hd_backend h of
              None \<Rightarrow> (Inl NoApiBackend, w)
            | Some b \<Rightarrow>
                let body = (if rest \<noteq> [] then Join rest '' '' else []) in
                (case APICall (ev_http ev) b meth path body (si_Tier sess) (si_Fingerprint sess) (si_PublicKey sess) w of
                   ((resp, status, Some e), w') \<Rightarrow> (Inl (ApiBackendError status e resp), w')
                 | ((resp, status, None), w') \<Rightarrow> (Inr resp, w')))
      | _ \<Rightarrow> (Inl UsageApiCall, w))"

text \<open>The checks the two forms of \<open>proxy-call\<close> share: the cache and the URL.\<close>

definition proxy_args :: "Handler \<Rightarrow> string list \<Rightarrow> handler_error + (Cache \<times> string)" where
  "proxy_args h args =
     (case args of
        m # rawURL # rest \<Rightarrow>
          if ToUpper m \<noteq> ''GET'' then Inl OnlyGET
          else (case hd_proxy h of None \<Rightarrow> Inl NoProxyCache | Some c \<Rightarrow> Inr (c, rawURL))
      | _ \<Rightarrow> Inl UsageProxyCall)"

definition proxyCall :: "'w env \<Rightarrow> Handler \<Rightarrow> string list \<Rightarrow> 'w \<Rightarrow> (handler_error + string) \<times> Handler \<times> 'w" where
  "proxyCall ev h args w =
     (case proxy_args h args of
        Inl e \<Rightarrow> (Inl e, h, w)
      | Inr (c, rawURL) \<Rightarrow>
          (case Fetch (ev_net ev) rawURL (fst (ev_clock ev w)) (snd (ev_clock ev w)) c w of
             ((Inl e, tr), c', w') \<Rightarrow> (Inl (FetchFailed e), h\<lparr>hd_proxy := Some c'\<rparr>, w')
           | ((Inr data, tr), c', w') \<Rightarrow> (Inr data, h\<lparr>hd_proxy := Some c'\<rparr>, w')))"

text \<open>The response is the cached object itself, and so are its headers: setting one changes the cache.\<close>

definition set_cached_header :: "string \<Rightarrow> Header \<Rightarrow> Cache \<Rightarrow> Cache" where
  "set_cached_header rawURL hdr c =
     c\<lparr>ca_entries := (ca_entries c)(rawURL :=
       map_option (\<lambda>e. e\<lparr>ce_resp := (ce_resp e)\<lparr>rs_Header := hdr\<rparr>\<rparr>) (ca_entries c rawURL))\<rparr>"

definition proxyCallBinary :: "'w env \<Rightarrow> 's io_write \<Rightarrow> Handler \<Rightarrow> string list \<Rightarrow> 'w \<Rightarrow> 's \<Rightarrow>
    (handler_error + unit) \<times> Handler \<times> 'w \<times> 's" where
  "proxyCallBinary ev write h args w s =
     (case proxy_args h args of
        Inl e \<Rightarrow> (Inl e, h, w, s)
      | Inr (c, rawURL) \<Rightarrow>
          (case FetchResponse (ev_net ev) rawURL (fst (ev_clock ev w)) (snd (ev_clock ev w)) c w of
             ((Inl e, tr), c', w') \<Rightarrow> (Inl (FetchFailed e), h\<lparr>hd_proxy := Some c'\<rparr>, w', s)
           | ((Inr resp, tr), c', w') \<Rightarrow>
               let status = (if rs_Status resp = [] then ev_status_text ev (rs_StatusCode resp) else rs_Status resp) in
               (case write s (status_line (rs_StatusCode resp) (statusTextOnly status)) of
                  ((n, False), s1) \<Rightarrow> (Inl ChannelWrite, h\<lparr>hd_proxy := Some c'\<rparr>, w', s1)
                | ((n, True), s1) \<Rightarrow>
                    let hdr = framed (rs_Header resp) (rs_Body resp);
                        h' = h\<lparr>hd_proxy := Some (set_cached_header rawURL hdr c')\<rparr>;
                        (ok, s2) = write_chunks write
                          (header_chunks hdr (ev_order ev w' hdr) @ [CRLF, rs_Body resp]) s1
                    in (if ok then Inr () else Inl ChannelWrite, h', w', s2))))"

text \<open>The \<open>key=value\<close> pairs of \<open>mcp\<close>; a later pair overwrites an earlier one.\<close>

fun mcp_arguments :: "string list \<Rightarrow> (string \<times> json) list \<Rightarrow> handler_error + (string \<times> json) list" where
  "mcp_arguments [] acc = Inr acc"
| "mcp_arguments (kv # kvs) acc =
     (case IndexByte kv CHR ''='' of
        None \<Rightarrow> Inl (BadMcpArgument kv)
      | Some eq \<Rightarrow>
          if eq = 0 then Inl (BadMcpArgument kv)
          else mcp_arguments kvs (AList.update (take eq kv) (JStr (drop (eq + 1) kv)) acc))"

definition mcp :: "'w env \<Rightarrow> Handler \<Rightarrow> string list \<Rightarrow> SessionInfo \<Rightarrow> 'w \<Rightarrow>
    ((handler_error + string) \<times> Handler \<times> 'w) option" where
  "mcp ev h args sess w =
     (case args of
        [] \<Rightarrow> Some (Inl UsageMcp, h, w)
      | toolName # kvs \<Rightarrow>
          (case hd_mcp h of
             None \<Rightarrow> Some (Inl NoMcpServer, h, w)
           | Some p \<Rightarrow>
               (case mcp_arguments kvs [] of
                  Inl e \<Rightarrow> Some (Inl e, h, w)
                | Inr arguments \<Rightarrow>
                    (case CallTool (ev_mcp ev) toolName arguments p w of
                       None \<Rightarrow> None
                     | Some (Inl e, p', w') \<Rightarrow> Some (Inl (McpFailed e), h\<lparr>hd_mcp := Some p'\<rparr>, w')
                     | Some (Inr out, p', w') \<Rightarrow> Some (Inr out, h\<lparr>hd_mcp := Some p'\<rparr>, w')))))"

text \<open>The backend form of \<open>receive-pack\<close>.\<close>

definition backend_resource :: "'w env \<Rightarrow> 's io_write \<Rightarrow> Backend \<Rightarrow> string list \<Rightarrow> SessionInfo \<Rightarrow> 'w \<Rightarrow> 's \<Rightarrow>
    (handler_error + unit) \<times> 'w \<times> 's" where
  "backend_resource ev write b args sess w s =
     (let path = (case args of [] \<Rightarrow> ''/'' | a # _ \<Rightarrow> a) in
      case FetchResource (ev_http ev) b path (si_Tier sess) (si_Fingerprint sess) (si_PublicKey sess) w of
        (Inl e, w') \<Rightarrow> (Inl (BackendFailed e), w', s)
      | (Inr resp, w') \<Rightarrow>
          if \<not> hr_BodyOk resp then (Inl ReadingBackendResponse, w', s)
          else
            let hdr = framed (strip_hop_by_hop (hr_Header resp)) (hr_Body resp);
                (ok, s') = write_chunks write
                  (response_chunks (hr_StatusCode resp) (statusTextOnly (hr_Status resp)) hdr (ev_order ev w' hdr)
                    (hr_Body resp)) s
            in (if ok then Inr () else Inl ChannelWrite, w', s'))"

definition receivePackBinary :: "'w env \<Rightarrow> 's io_write \<Rightarrow> Handler \<Rightarrow> string list \<Rightarrow> SessionInfo \<Rightarrow> 'w \<Rightarrow> 's \<Rightarrow>
    (handler_error + unit) \<times> 'w \<times> 's" where
  "receivePackBinary ev write h args sess w s =
     (let fallback = (\<lambda>e. case hd_backend h of
            None \<Rightarrow> (Inl e, w, s) | Some b \<Rightarrow> backend_resource ev write b args sess w s)
      in if Root (site h) \<noteq> [] then
           (case buildPackfile (ev_fs ev w) (site h) args of
              Inr pw \<Rightarrow>
                (case WriteTo (ev_deflate ev) write pw s of
                   ((n, Inl e), s') \<Rightarrow> (Inl (PackFailed e), w, s')
                 | ((n, Inr _), s') \<Rightarrow> (Inr (), w, s'))
            | Inl e \<Rightarrow> fallback (ContentFailed e))
         else fallback NoContentNoBackend)"

subsection \<open>Dispatch\<close>

definition denied :: "Handler \<Rightarrow> string \<Rightarrow> string list \<Rightarrow> SessionInfo \<Rightarrow> bool" where
  "denied h cmd args sess \<longleftrightarrow>
     cmd \<noteq> ''capabilities'' \<and> \<not> IsCommandAllowed (si_Tier sess) (joinCommand cmd args) (Auth (site h))"

definition Execute :: "'w env \<Rightarrow> Handler \<Rightarrow> string \<Rightarrow> string list \<Rightarrow> SessionInfo \<Rightarrow> 'w \<Rightarrow>
    ((handler_error + string) \<times> Handler \<times> 'w) option" where
  "Execute ev h cmd args sess w =
     (if denied h cmd args sess then Some (Inl (PermissionDenied (joinCommand cmd args) (si_Tier sess)), h, w)
      else if cmd = ''capabilities'' then
        Some (Inr (capabilities (ev_float_text ev) (site h) (map_option Tools (hd_mcp h))), h, w)
      else if cmd = ''receive-pack'' then
        Some (map_sum ContentFailed (\<lambda>x. x) (receivePack (ev_deflate ev) (ev_fs ev w) (site h) args), h, w)
      else if cmd = ''api-call'' then (case apiCall ev h args sess w of (r, w') \<Rightarrow> Some (r, h, w'))
      else if cmd = ''proxy-call'' then Some (proxyCall ev h args w)
      else if cmd = ''rss-feed'' then Some (map_sum NoFeed (\<lambda>x. x) (rssFeed (ev_fs ev w) (site h) args), h, w)
      else if cmd = ''sitemap'' then Some (Inr (sitemap (ev_fs ev w) (site h)), h, w)
      else if cmd = ''robots'' then Some (Inr (robots (site h)), h, w)
      else if cmd = ''mcp'' then mcp ev h args sess w
      else Some (Inl (UnknownCommand cmd), h, w))"

definition ExecuteBinary :: "'w env \<Rightarrow> 's io_write \<Rightarrow> Handler \<Rightarrow> string \<Rightarrow> string list \<Rightarrow> SessionInfo \<Rightarrow> 'w \<Rightarrow> 's \<Rightarrow>
    ((handler_error + unit) \<times> Handler \<times> 'w \<times> 's) option" where
  "ExecuteBinary ev write h cmd args sess w s =
     (if denied h cmd args sess then Some (Inl (PermissionDenied (joinCommand cmd args) (si_Tier sess)), h, w, s)
      else if cmd = ''receive-pack'' then
        (case receivePackBinary ev write h args sess w s of (r, w', s') \<Rightarrow> Some (r, h, w', s'))
      else if cmd = ''proxy-call'' then Some (proxyCallBinary ev write h args w s)
      else (case Execute ev h cmd args sess w of
          None \<Rightarrow> None
        | Some (Inl e, h', w') \<Rightarrow> Some (Inl e, h', w', s)
        | Some (Inr resp, h', w') \<Rightarrow>
            (case write s resp of ((n, ok), s') \<Rightarrow> Some (if ok then Inr () else Inl ChannelWrite, h', w', s'))))"

end
