(* ===== verification/Handler_Props.thy ===== *)
theory Handler_Props
  imports Handler
begin

text \<open>
  The guarantees of the command handler: requests that are not granted leave no trace, what a
  session can make the server send to the backend and to the network, the wire form of responses,
  and what the configuration of MCP tools does and does not control.
\<close>

subsection \<open>Nothing changes the configuration\<close>

definition same_config :: "Handler \<Rightarrow> Handler \<Rightarrow> bool" where
  "same_config h h' \<longleftrightarrow> hd_cfg h' = hd_cfg h \<and> hd_siteIdx h' = hd_siteIdx h \<and> hd_backend h' = hd_backend h"

lemma same_config_refl [simp]: "same_config h h"
  by (simp add: same_config_def)

lemma same_config_site: "same_config h h' \<Longrightarrow> site h' = site h"
  by (simp add: same_config_def site_def)

lemma same_config_trans: "same_config h h' \<Longrightarrow> same_config h' h'' \<Longrightarrow> same_config h h''"
  by (simp add: same_config_def)

lemma proxyCall_config: "same_config h (fst (snd (proxyCall ev h args w)))"
  by (auto simp: proxyCall_def same_config_def split: sum.split prod.split)

lemma proxyCallBinary_config: "same_config h (fst (snd (proxyCallBinary ev write h args w s)))"
  by (auto simp: proxyCallBinary_def same_config_def Let_def split: sum.split prod.split bool.split)

lemma mcp_config: "mcp ev h args sess w = Some (r, h', w') \<Longrightarrow> same_config h h'"
  by (auto simp: mcp_def same_config_def split: list.splits option.splits sum.splits prod.splits)

lemma Execute_config: "Execute ev h cmd args sess w = Some (r, h', w') \<Longrightarrow> same_config h h'"
  using proxyCall_config [of h ev args w] mcp_config [of ev h args sess w r h' w']
  by (auto simp: Execute_def split: if_splits prod.splits)

lemma ExecuteBinary_config: "ExecuteBinary ev write h cmd args sess w s = Some (r, h', w', s') \<Longrightarrow> same_config h h'"
  using proxyCallBinary_config [of h ev "write" args w s]
  by (auto simp: ExecuteBinary_def intro: Execute_config split: if_splits prod.splits option.splits sum.splits)

subsection \<open>Denied requests\<close>

text \<open>The requests of a site in the order in which they are served.\<close>

fun serve :: "'w env \<Rightarrow> 's io_write \<Rightarrow> (string \<times> string list \<times> SessionInfo) list \<Rightarrow> Handler \<Rightarrow> 'w \<Rightarrow> 's \<Rightarrow>
    (Handler \<times> 'w \<times> 's) option" where
  "serve ev write [] h w s = Some (h, w, s)"
| "serve ev write ((cmd, args, sess) # rs) h w s =
     (case ExecuteBinary ev write h cmd args sess w s of
        None \<Rightarrow> None
      | Some (r, h', w', s') \<Rightarrow> serve ev write rs h' w' s')"

text \<open>What the site's configuration grants to a session, by the specification of the tiers.\<close>

definition granted :: "SiteConfig \<Rightarrow> string \<times> string list \<times> SessionInfo \<Rightarrow> bool" where
  "granted st r = (case r of (cmd, args, sess) \<Rightarrow> cmd = ''capabilities'' \<or>
     (\<exists>t\<in>{Anonymous, Identified, Trusted}. si_Tier sess = tier_name t \<and>
        spec_allowed (Auth st) t (joinCommand cmd args)))"

lemma denied_granted: "denied h cmd args sess \<longleftrightarrow> \<not> granted (site h) (cmd, args, sess)"
proof -
  have "IsCommandAllowed t c a \<longleftrightarrow> (\<exists>u\<in>{Anonymous, Identified, Trusted}. t = tier_name u \<and> spec_allowed a u c)" for t c a
    using IsCommandAllowed_spec [of _ c a] IsCommandAllowed_known_tier [of t c a]
    by (auto simp: tier_name.simps [symmetric] simp del: tier_name.simps)
  then show ?thesis by (simp add: denied_def granted_def)
qed

lemma serve_filter:
  "site h = st \<Longrightarrow> serve ev write rs h w s = serve ev write (filter (granted st) rs) h w s"
proof (induction rs arbitrary: h w s)
  case (Cons q rs)
  obtain cmd args sess where q: "q = (cmd, args, sess)" by (cases q) auto
  show ?case
  proof (cases "granted st q")
    case True
    have "serve ev write rs h' w' s' = serve ev write (filter (granted st) rs) h' w' s'"
      if "ExecuteBinary ev write h cmd args sess w s = Some (r, h', w', s')" for r h' w' s'
      using Cons.IH same_config_site [OF ExecuteBinary_config [OF that]] Cons.prems by simp
    with True q show ?thesis by (auto split: option.split)
  next
    case False
    then have "ExecuteBinary ev write h cmd args sess w s =
        Some (Inl (PermissionDenied (joinCommand cmd args) (si_Tier sess)), h, w, s)"
      using Cons.prems q by (simp add: ExecuteBinary_def denied_granted)
    with False Cons q show ?thesis by simp
  qed
qed simp

text \<open>C1: A request that the configuration does not grant to the tier of its session leaves no trace:
  over any sequence of requests of any sessions, leaving all such requests out leads to the same
  handler, the same outside world and the same bytes on the channel.\<close>

theorem denied_requests_leave_no_trace:
  "serve ev write rs h w s = serve ev write (filter (granted (site h)) rs) h w s"
  by (rule serve_filter) simp

subsection \<open>What reaches the backend\<close>

text \<open>The requests an api-call of a session may cause: the method and the path belong to a route the
  site declares, in the sense of route patterns, and the identity headers are the session's.\<close>

definition declared_request :: "SiteConfig \<Rightarrow> Backend \<Rightarrow> SessionInfo \<Rightarrow> http_req \<Rightarrow> bool" where
  "declared_request st b sess req \<longleftrightarrow>
     (\<exists>cmd\<in>set (Commands st). \<exists>meth path body.
        cc_Type cmd = ''api-call'' \<and> EqualFold (cc_Method cmd) meth \<and>
        (cc_Route cmd = path \<or> pattern_covers (segments (cc_Route cmd)) (segments (drop_query path))) \<and>
        req = api_request b meth path body (si_Tier sess) (si_Fingerprint sess) (si_PublicKey sess))"

lemma routeMatches_iff: "routeMatches pattern path \<longleftrightarrow>
    pattern = path \<or> pattern_covers (segments pattern) (segments (drop_query path))"
  using route_loop_covers [of "[]" "segments (drop_query path)" "segments pattern"]
  by (simp add: routeMatches_def Let_def)

lemma routeAllowed_declared:
  "routeAllowed st ''api-call'' meth path \<Longrightarrow>
   declared_request st b sess (api_request b meth path body (si_Tier sess) (si_Fingerprint sess) (si_PublicKey sess))"
  by (auto simp: routeAllowed_def commands_allow_iff routeMatches_iff declared_request_def)


lemma fetch_request_sent:
  assumes "\<not> denied h ''receive-pack'' [path] sess" "Root (site h) = [] \<or> \<not> is_ok (buildPackfile (ev_fs ev w) (site h) [path])"
    and "hd_backend h = Some b" "request_ok (ev_http ev) ''GET'' (BaseURL b @ path)"
    and "ExecuteBinary ev write h ''receive-pack'' [path] sess w s = Some (r, h', w', s')"
  shows "w' = snd (client_do (ev_http ev) w (fetch_request b path (si_Tier sess) (si_Fingerprint sess) (si_PublicKey sess)))"
proof -
  have "receivePackBinary ev write h [path] sess w s = backend_resource ev write b [path] sess w s"
    using assms(2,3) by (auto simp: receivePackBinary_def Let_def split: sum.split)
  then show ?thesis
    using assms(1,4,5)
    by (auto simp: ExecuteBinary_def backend_resource_def FetchResource_def Let_def fetch_request_def
      split: prod.splits option.splits if_splits sum.splits)
qed

text \<open>C34: \<open>receive-pack\<close> has no such guard.  When the site has a backend and the content root does not
  deliver the route (there is no root, or building the packfile fails for whatever reason), the
  route is appended to the backend's URL unchecked: a session that may run \<open>receive-pack\<close> makes the
  server send a GET with the session's identity headers to any host it names after an at-sign.\<close>

theorem receive_pack_reaches_any_host:
  assumes "granted (site h) (''receive-pack'', [''@'' @ evil @ ''/'' @ rest], sess)"
    and "Root (site h) = [] \<or> \<not> is_ok (buildPackfile (ev_fs ev w) (site h) [''@'' @ evil @ ''/'' @ rest])"
    and "hd_backend h = Some b" "BaseURL b = base_url ''http'' auth" "list_all (\<lambda>c. c \<notin> set ''/?#'') auth"
    and "list_all (\<lambda>c. c \<notin> set ''/?#@'') evil"
    and "request_ok (ev_http ev) ''GET'' (BaseURL b @ ''@'' @ evil @ ''/'' @ rest)"
    and "ExecuteBinary ev write h ''receive-pack'' [''@'' @ evil @ ''/'' @ rest] sess w s = Some (r, h', w', s')"
  shows "\<exists>req. w' = snd (client_do (ev_http ev) w req) \<and> target_host (rq_Target req) = evil \<and>
    identity_of req = (si_Tier sess, si_Fingerprint sess, si_PublicKey sess)"
proof -
  let ?path = "''@'' @ evil @ ''/'' @ rest"
  let ?req = "fetch_request b ?path (si_Tier sess) (si_Fingerprint sess) (si_PublicKey sess)"
  have "\<not> denied h ''receive-pack'' [?path] sess" using assms(1) by (simp add: denied_granted)
  from fetch_request_sent [OF this assms(2,3,7,8)] have "w' = snd (client_do (ev_http ev) w ?req)" .
  moreover have "target_host (rq_Target ?req) = evil"
    using path_selects_host [of "''http''" auth b ?path _ _ _ _ _ evil rest] assms(4-6) by simp
  ultimately show ?thesis by (intro exI [of _ ?req]) simp
qed

subsection \<open>The wire form of responses\<close>

text \<open>The runtime iterates over every name of a header map once.\<close>

definition lists_names :: "'w env \<Rightarrow> 'w \<Rightarrow> Header \<Rightarrow> bool" where
  "lists_names ev w h \<longleftrightarrow> distinct (ev_order ev w h) \<and> set (ev_order ev w h) = dom h"

lemma header_pairs_set: "set order = dom h \<Longrightarrow> (k, v) \<in> set (header_pairs h order) \<longleftrightarrow> v \<in> set (header_values h k)"
proof -
  assume d: "set order = dom h"
  have "(k, v) \<in> set (header_pairs h order) \<longleftrightarrow> k \<in> set order \<and> v \<in> set (header_values h k)"
    by (auto simp: header_pairs_def)
  moreover have "v \<in> set (header_values h k) \<Longrightarrow> k \<in> dom h" by (cases "h k") (auto simp: header_values_def)
  ultimately show ?thesis using d by blast
qed

lemma statusTextOnly_no_CR: "CR \<notin> set s \<Longrightarrow> CR \<notin> set (statusTextOnly s)"
  by (auto simp: statusTextOnly_def SplitN2_def split: option.split dest: in_set_dropD)

text \<open>The header lines of a framed response: the two the server sets, and those of the response that
  are neither hop-by-hop nor the length.\<close>

definition framed_pairs :: "Header \<Rightarrow> bytes \<Rightarrow> (string \<times> string) set" where
  "framed_pairs h body =
     {(''Connection'', ''close''), (''Content-Length'', show_int (int (length body)))} \<union>
     {(k, v). k \<notin> set hop_keys \<and> k \<noteq> ''Content-Length'' \<and> v \<in> set (header_values h k)}"

lemma framed_values:
  "{(k, v). v \<in> set (header_values (framed (strip_hop_by_hop h) body) k)} = framed_pairs h body"
proof -
  have "header_values (framed (strip_hop_by_hop h) body) k =
      (if k = ''Connection'' then [''close''] else if k = ''Content-Length'' then [show_int (int (length body))]
       else if k \<in> set hop_keys then [] else header_values h k)" for k
    by (simp add: header_values_def framed_app strip_app)
  moreover have "''Connection'' \<in> set hop_keys" "(''Connection'' :: string) \<noteq> ''Content-Length''" by (simp_all add: hop_keys_names)
  ultimately show ?thesis unfolding framed_pairs_def by (auto simp del: char.inject split: if_splits)
qed

text \<open>A reader of the wire form finds the status line, exactly these header lines, and the body.\<close>

definition on_wire :: "bytes \<Rightarrow> int \<Rightarrow> string \<Rightarrow> (string \<times> string) set \<Rightarrow> bytes \<Rightarrow> bool" where
  "on_wire out code status pairs body \<longleftrightarrow>
     (\<exists>kvs. read_response out = Some (''HTTP/1.1 '' @ show_int code @ '' '' @ status, kvs, body) \<and> set kvs = pairs)"

lemma response_on_wire:
  assumes "header_ok h" "CR \<notin> set status" "set order = dom (framed (strip_hop_by_hop h) body)"
  shows "on_wire (concat (response_chunks code (statusTextOnly status) (framed (strip_hop_by_hop h) body) order body))
    code (statusTextOnly status) (framed_pairs h body) body"
proof -
  have "set (header_pairs (framed (strip_hop_by_hop h) body) order) = framed_pairs h body"
    unfolding framed_values [symmetric] using header_pairs_set [OF assms(3)] by auto
  then show ?thesis
    using read_response_chunks [OF header_ok_framed [OF header_ok_strip [OF assms(1)]] statusTextOnly_no_CR [OF assms(2)]]
    by (simp add: on_wire_def)
qed

text \<open>C27: What the backend answers arrives: when \<open>receive-pack\<close> falls back to the backend, a reader of
  HTTP/1.1 recovers from the bytes on the channel the status, the body, and the headers of the
  answer, with every hop-by-hop header replaced by one \<open>Connection: close\<close> and the length set to
  the length of the body.\<close>

theorem backend_response_on_wire:
  assumes "granted (site h) (''receive-pack'', args, sess)"
    and "lists_names ev w' (framed (strip_hop_by_hop (hr_Header resp)) (hr_Body resp))" "hd_backend h = Some b"
    and "Root (site h) = [] \<or> \<not> is_ok (buildPackfile (ev_fs ev w) (site h) args)"
    and "FetchResource (ev_http ev) b (case args of [] \<Rightarrow> ''/'' | a # _ \<Rightarrow> a) (si_Tier sess) (si_Fingerprint sess)
      (si_PublicKey sess) w = (Inr resp, w')"
    and "hr_BodyOk resp" "header_ok (hr_Header resp)" "CR \<notin> set (hr_Status resp)"
  shows "\<exists>out. ExecuteBinary ev buffer_write h ''receive-pack'' args sess w [] = Some (Inr (), h, w', out) \<and>
    on_wire out (hr_StatusCode resp) (statusTextOnly (hr_Status resp)) (framed_pairs (hr_Header resp) (hr_Body resp))
      (hr_Body resp)"
proof -
  let ?hdr = "framed (strip_hop_by_hop (hr_Header resp)) (hr_Body resp)"
  let ?out = "concat (response_chunks (hr_StatusCode resp) (statusTextOnly (hr_Status resp)) ?hdr
    (ev_order ev w' ?hdr) (hr_Body resp))"
  have "receivePackBinary ev buffer_write h args sess w [] = backend_resource ev buffer_write b args sess w []"
    using assms(3,4) by (auto simp: receivePackBinary_def Let_def split: sum.split)
  also have "\<dots> = (Inr (), w', ?out)"
    using assms(5,6) by (simp add: backend_resource_def Let_def)
  finally have "ExecuteBinary ev buffer_write h ''receive-pack'' args sess w [] = Some (Inr (), h, w', ?out)"
    using assms(1) by (simp add: ExecuteBinary_def denied_granted)
  moreover have "set (ev_order ev w' ?hdr) = dom ?hdr" using assms(2) by (simp add: lists_names_def)
  ultimately show ?thesis using response_on_wire [OF assms(7,8)] by blast
qed

subsection \<open>Responses from the cache\<close>

lemma FetchResponse_entry:
  assumes "FetchResponse net raw t1 t2 c w = ((Inr x, tr), c', w')"
  obtains u e where "check_url net (ca_cfg c') raw = Inr u" "ca_entries c' raw = Some e" "ce_resp e = x" "ca_cfg c' = ca_cfg c"
proof -
  obtain u where u: "check_url net (ca_cfg c) raw = Inr u"
    using assms by (cases "check_url net (ca_cfg c) raw") (auto simp: FetchResponse_def)
  have "\<exists>e. ca_entries c' raw = Some e \<and> ce_resp e = x \<and> ca_cfg c' = ca_cfg c"
    using assms u by (auto simp: FetchResponse_def fetch_and_store_def split: option.splits if_splits sum.splits prod.splits)
  with u that show thesis by metis
qed

lemma FetchResponse_hit:
  assumes "check_url net (ca_cfg c) raw = Inr u" "ca_entries c raw = Some e" "\<not> expired e t1"
  shows "FetchResponse net raw t1 t2 c w = ((Inr (ce_resp e), []), c, w)"
  using assms by (simp add: FetchResponse_def)

definition wire_status :: "'w env \<Rightarrow> Response \<Rightarrow> string" where
  "wire_status ev r = statusTextOnly (if rs_Status r = [] then ev_status_text ev (rs_StatusCode r) else rs_Status r)"

text \<open>One \<open>proxy-call\<close> into a buffer, once the response is there.\<close>

lemma proxyCallBinary_buffer:
  assumes "proxy_args h args = Inr (c, raw)"
    and "FetchResponse (ev_net ev) raw (fst (ev_clock ev w)) (snd (ev_clock ev w)) c w = ((Inr r, tr), c', w')"
  shows "proxyCallBinary ev buffer_write h args w s =
    (let hdr = framed (rs_Header r) (rs_Body r) in
     (Inr (), h\<lparr>hd_proxy := Some (set_cached_header raw hdr c')\<rparr>, w',
      s @ concat (response_chunks (rs_StatusCode r) (wire_status ev r) hdr (ev_order ev w' hdr) (rs_Body r))))"
  using assms
  by (simp add: proxyCallBinary_def Let_def wire_status_def response_chunks_def
    buffer_write_app [of s "status_line x y" for x y])

lemma set_cached_header_idem: "ca_entries c raw = Some e \<Longrightarrow> rs_Header (ce_resp e) = hdr \<Longrightarrow> set_cached_header raw hdr c = c"
  by (cases c) (auto simp: set_cached_header_def fun_eq_iff)

definition header_lines :: "Header \<Rightarrow> (string \<times> string) set" where
  "header_lines h = {(k, v). v \<in> set (header_values h k)}"

lemma proxy_on_wire:
  assumes "header_ok h" "CR \<notin> set status" "set order = dom (framed h body)"
  shows "on_wire (concat (response_chunks code status (framed h body) order body)) code status
    (header_lines (framed h body)) body"
proof -
  have "set (header_pairs (framed h body) order) = header_lines (framed h body)"
    using header_pairs_set [OF assms(3)] by (auto simp: header_lines_def)
  then show ?thesis
    using read_response_chunks [OF header_ok_framed [OF assms(1)] assms(2)] by (simp add: on_wire_def)
qed

text \<open>C30: \<open>proxy-call\<close> answers the same from the cache as from the network: the first call writes the
  upstream status, headers and body, with the connection and length headers of the server's own;
  that changes the cached response itself (its header map is shared), but for as long as the entry
  has not expired every further call writes the same message, contacts nothing and leaves the
  handler as it is.\<close>

theorem proxy_call_repeats:
  assumes "granted (site h) (''proxy-call'', args, sess)"
    and "\<And>u. u \<in> {w', v} \<Longrightarrow> lists_names ev u (framed (rs_Header r) (rs_Body r))" "proxy_args h args = Inr (c, raw)"
    and "FetchResponse (ev_net ev) raw (fst (ev_clock ev w)) (snd (ev_clock ev w)) c w = ((Inr r, tr), c', w')"
    and "header_ok (rs_Header r)" "CR \<notin> set (wire_status ev r)"
    and "\<And>e. ca_entries c' raw = Some e \<Longrightarrow> \<not> expired e (fst (ev_clock ev v))"
  shows "\<exists>h' out out'. ExecuteBinary ev buffer_write h ''proxy-call'' args sess w [] = Some (Inr (), h', w', out) \<and>
    ExecuteBinary ev buffer_write h' ''proxy-call'' args sess v [] = Some (Inr (), h', v, out') \<and>
    (\<forall>o' \<in> {out, out'}. on_wire o' (rs_StatusCode r) (wire_status ev r)
       (header_lines (framed (rs_Header r) (rs_Body r))) (rs_Body r))"
proof -
  let ?hdr = "framed (rs_Header r) (rs_Body r)"
  let ?c = "set_cached_header raw ?hdr c'" and ?r = "r\<lparr>rs_Header := framed (rs_Header r) (rs_Body r)\<rparr>"
  let ?h = "h\<lparr>hd_proxy := Some ?c\<rparr>"
  let ?out = "\<lambda>u. concat (response_chunks (rs_StatusCode r) (wire_status ev r) ?hdr (ev_order ev u ?hdr) (rs_Body r))"
  obtain u e where e: "check_url (ev_net ev) (ca_cfg c') raw = Inr u" "ca_entries c' raw = Some e" "ce_resp e = r"
    by (rule FetchResponse_entry [OF assms(4)])
  have c: "check_url (ev_net ev) (ca_cfg ?c) raw = Inr u" "ca_entries ?c raw = Some (e\<lparr>ce_resp := ?r\<rparr>)"
    "\<not> expired (e\<lparr>ce_resp := ?r\<rparr>) (fst (ev_clock ev v))"
    using e assms(7) by (simp_all add: set_cached_header_def expired_def)
  have pa: "proxy_args ?h args = Inr (?c, raw)"
    using assms(3) by (auto simp: proxy_args_def split: list.splits if_splits option.splits)
  have idem: "set_cached_header raw ?hdr ?c = ?c" by (rule set_cached_header_idem [OF c(2)]) simp
  have x1: "proxyCallBinary ev buffer_write h args w [] = (Inr (), ?h, w', ?out w')"
    using proxyCallBinary_buffer [OF assms(3,4)] by (simp add: Let_def)
  have x2: "proxyCallBinary ev buffer_write ?h args v [] = (Inr (), ?h, v, ?out v)"
    using proxyCallBinary_buffer [OF pa FetchResponse_hit [OF c]] idem by (simp add: Let_def wire_status_def)
  have "granted (site ?h) (''proxy-call'', args, sess)" using assms(1) by (simp add: site_def)
  then have "ExecuteBinary ev buffer_write h ''proxy-call'' args sess w [] = Some (Inr (), ?h, w', ?out w')"
    "ExecuteBinary ev buffer_write ?h ''proxy-call'' args sess v [] = Some (Inr (), ?h, v, ?out v)"
    using assms(1) x1 x2 by (simp_all add: ExecuteBinary_def denied_granted)
  moreover have "on_wire (?out x) (rs_StatusCode r) (wire_status ev r) (header_lines ?hdr) (rs_Body r)" if "x \<in> {w', v}" for x
    by (rule proxy_on_wire [OF assms(5,6)]) (use assms(2) that in \<open>simp add: lists_names_def\<close>)
  ultimately show ?thesis by blast
qed

subsection \<open>The tiers of MCP tools\<close>

text \<open>A handler with other tool lists in the \<open>mcp\<close> blocks of its configuration.\<close>

definition with_tool_tiers :: "MCPAuthConfig \<Rightarrow> Handler \<Rightarrow> Handler" where
  "with_tool_tiers a h =
     h\<lparr>hd_cfg := \<lparr>Sites = map (\<lambda>s. s\<lparr>MCP := map_option (\<lambda>m. m\<lparr>mc_Auth := a\<rparr>) (MCP s)\<rparr>) (Sites (hd_cfg h))\<rparr>\<rparr>"

lemma with_tool_tiers_fields [simp]:
  "hd_siteIdx (with_tool_tiers a h) = hd_siteIdx h" "hd_backend (with_tool_tiers a h) = hd_backend h"
  "hd_proxy (with_tool_tiers a h) = hd_proxy h" "hd_mcp (with_tool_tiers a h) = hd_mcp h"
  "with_tool_tiers a (h\<lparr>hd_proxy := p\<rparr>) = (with_tool_tiers a h)\<lparr>hd_proxy := p\<rparr>"
  "with_tool_tiers a (h\<lparr>hd_mcp := m\<rparr>) = (with_tool_tiers a h)\<lparr>hd_mcp := m\<rparr>"
  by (simp_all add: with_tool_tiers_def)

definition site_valid :: "Handler \<Rightarrow> bool" where
  "site_valid h \<longleftrightarrow> hd_siteIdx h < length (Sites (hd_cfg h))"

lemma with_tool_tiers_site: "site_valid h \<Longrightarrow>
    site (with_tool_tiers a h) = (site h)\<lparr>MCP := map_option (\<lambda>m. m\<lparr>mc_Auth := a\<rparr>) (MCP (site h))\<rparr>"
  by (simp add: site_valid_def site_def with_tool_tiers_def)

lemma mcp_field_unused:
  "buildPackfile f (st\<lparr>MCP := x\<rparr>) args = buildPackfile f st args"
  "receivePack d f (st\<lparr>MCP := x\<rparr>) args = receivePack d f st args"
  "routeAllowed (st\<lparr>MCP := x\<rparr>) ty m p = routeAllowed st ty m p"
  "rssFeed f (st\<lparr>MCP := x\<rparr>) args = rssFeed f st args"
  "sitemap f (st\<lparr>MCP := x\<rparr>) = sitemap f st"
  "robots (st\<lparr>MCP := x\<rparr>) = robots st"
  by (simp_all add: buildPackfile_def receivePack_def routeAllowed_def rssFeed_def sitemap_def sitemap_entries_def
    robots_def Let_def split: option.split)

lemma tool_tiers_denied: "site_valid h \<Longrightarrow> denied (with_tool_tiers a h) cmd args sess = denied h cmd args sess"
  by (simp add: denied_def with_tool_tiers_site)

lemma tool_tiers_apiCall: "site_valid h \<Longrightarrow> apiCall ev (with_tool_tiers a h) args sess w = apiCall ev h args sess w"
  by (simp add: apiCall_def with_tool_tiers_site mcp_field_unused Let_def split: list.split)

lemma tool_tiers_proxy_args: "proxy_args (with_tool_tiers a h) args = proxy_args h args"
  by (simp add: proxy_args_def split: list.split)

abbreviation retier :: "MCPAuthConfig \<Rightarrow> 'r \<times> Handler \<times> 'x \<Rightarrow> 'r \<times> Handler \<times> 'x" where
  "retier a \<equiv> (\<lambda>(r, h, x). (r, with_tool_tiers a h, x))"

lemma tool_tiers_proxyCall: "proxyCall ev (with_tool_tiers a h) args w = retier a (proxyCall ev h args w)"
  by (auto simp: proxyCall_def tool_tiers_proxy_args split: sum.split prod.split)

lemma tool_tiers_proxyCallBinary:
  "proxyCallBinary ev write (with_tool_tiers a h) args w s = retier a (proxyCallBinary ev write h args w s)"
  by (auto simp: proxyCallBinary_def tool_tiers_proxy_args Let_def split: sum.split prod.split bool.split)

lemma tool_tiers_mcp: "mcp ev (with_tool_tiers a h) args sess w = map_option (retier a) (mcp ev h args sess w)"
  by (auto simp: mcp_def split: list.split option.split sum.split prod.split)

lemma tool_tiers_receivePackBinary: "site_valid h \<Longrightarrow>
    receivePackBinary ev write (with_tool_tiers a h) args sess w s = receivePackBinary ev write h args sess w s"
  by (simp add: receivePackBinary_def with_tool_tiers_site mcp_field_unused)

lemma tool_tiers_Execute:
  assumes "site_valid h" "cmd \<noteq> ''capabilities''"
  shows "Execute ev (with_tool_tiers a h) cmd args sess w = map_option (retier a) (Execute ev h cmd args sess w)"
  unfolding Execute_def tool_tiers_denied [OF assms(1)] tool_tiers_apiCall [OF assms(1)] tool_tiers_proxyCall
    tool_tiers_mcp with_tool_tiers_site [OF assms(1)] mcp_field_unused
  using assms(2) by (simp split: prod.split)


subsection \<open>A small site\<close>

text \<open>A site with a content root, a backend, a proxy allowlist and an MCP server; the network and the
  backend answer every request, the world counts what they are asked.\<close>

definition demo_http :: "nat http_lib" where
  "demo_http = \<lparr>base_ok = (\<lambda>s. True), request_ok = (\<lambda>m t. True), client_do = (\<lambda>w r. (Some demo_resp, Suc w))\<rparr>"

definition demo_env :: "nat env" where
  "demo_env = \<lparr>ev_net = demo_net, ev_http = demo_http,
     ev_mcp = \<lparr>mcp_spawn = (\<lambda>w ps. (Some StartFailed, w)), mcp_write = (\<lambda>w b. (False, w)),
       mcp_read_line = (\<lambda>w. (None, w)), mcp_close = (\<lambda>w. w)\<rparr>,
     ev_fs = (\<lambda>w. demo_fs), ev_deflate = (\<lambda>d. Some (mark d)), ev_clock = (\<lambda>w. (0, 5)),
     ev_order = (\<lambda>w h. filter (\<lambda>k. h k \<noteq> None) [''Connection'', ''Content-Length'', ''Content-Type'']),
     ev_status_text = (\<lambda>c. ''OK''), ev_float_text = (\<lambda>n. None)\<rparr>"

definition demo_handler :: Handler where
  "demo_handler = \<lparr>hd_cfg = \<lparr>Sites = [demo_api_site\<lparr>ProxyCache := demo_cfg\<rparr>]\<rparr>, hd_siteIdx = 0,
     hd_backend = Some \<lparr>BaseURL = ''http://127.0.0.1:8080''\<rparr>, hd_proxy = Some (NewCache demo_cfg), hd_mcp = None\<rparr>"

definition demo_session :: SessionInfo where
  "demo_session = \<lparr>si_Tier = ''identified'', si_Fingerprint = ''SHA256:ab'', si_PublicKey = []\<rparr>"

lemma demo_handler_site [simp]: "site demo_handler = demo_api_site\<lparr>ProxyCache := demo_cfg\<rparr>"
  "hd_backend demo_handler = Some \<lparr>BaseURL = ''http://127.0.0.1:8080''\<rparr>"
  by (simp_all add: demo_handler_def site_def)

lemma demo_granted:
  "cmd \<in> {''receive-pack'', ''proxy-call''} \<Longrightarrow> granted (site demo_handler) (cmd, args, demo_session)"
proof -
  assume c: "cmd \<in> {''receive-pack'', ''proxy-call''}"
  let ?es = "[''receive-pack'', ''proxy-call'', ''api-call GET'']"
  have w: "is_word cmd" using c by (auto simp: is_word_def is_space_def ascii_def)
  have v: "hd (splitCommand (joinCommand cmd args)) = cmd"
    using Fields_word [OF w] Fields_word_space [OF w, of "Join args '' ''"]
    by (auto simp: splitCommand_def joinCommand_def)
  have "entry_grants cmd (joinCommand cmd args)"
  proof -
    have "TrimSpace cmd = cmd" "\<not> HasSuffix cmd ''*''" "cmd \<noteq> []"
      using c TrimSpace_trimmed [OF is_word_trimmed [OF w]] by (auto simp: HasSuffix_def)
    moreover have "take 1 (splitCommand (joinCommand cmd args)) = [cmd]"
      using v splitCommand_nonempty [of "joinCommand cmd args"] by (cases "splitCommand (joinCommand cmd args)") auto
    ultimately show ?thesis by (simp add: entry_grants_def Let_def Fields_word [OF w])
  qed
  then have "spec_allowed (Auth (site demo_handler)) Identified (joinCommand cmd args)"
    using c by (auto simp: spec_allowed_def demo_api_site_def less_eq_tier_def)
  then show ?thesis by (auto simp: granted_def demo_session_def TierIdentified_def)
qed


theorem receive_pack_reaches_any_host_witness:
  "\<exists>req. (1 :: nat) = snd (client_do demo_http 0 req) \<and> target_host (rq_Target req) = ''evil.example'' \<and>
    identity_of req = (''identified'', ''SHA256:ab'', [])"
proof -
  let ?path = "''@'' @ ''evil.example'' @ ''/'' @ ''x''" and ?b = "\<lparr>BaseURL = ''http://127.0.0.1:8080''\<rparr>"
  have g: "granted (site demo_handler) (''receive-pack'', [?path], demo_session)" by (rule demo_granted) simp
  have r: "Root (site demo_handler) = []" by (simp add: demo_api_site_def zero_SiteConfig_def)
  have "client_do demo_http 0 x = (Some demo_resp, Suc 0)" "request_ok demo_http = (\<lambda>m t. True)" for x
    by (simp_all add: demo_http_def)
  moreover have "ev_http demo_env = demo_http" by (simp add: demo_env_def)
  ultimately obtain s' where e: "ExecuteBinary demo_env buffer_write demo_handler ''receive-pack'' [?path] demo_session 0 [] =
      Some (Inr (), demo_handler, Suc 0, s')"
    using g r by (simp add: ExecuteBinary_def denied_granted receivePackBinary_def backend_resource_def FetchResource_def
      Let_def demo_resp_def del: demo_handler_site(1))
  have b: "BaseURL ?b = base_url ''http'' ''127.0.0.1:8080''" by (simp add: base_url_def)
  have "\<exists>req. Suc 0 = snd (client_do (ev_http demo_env) 0 req) \<and> target_host (rq_Target req) = ''evil.example'' \<and>
    identity_of req = (si_Tier demo_session, si_Fingerprint demo_session, si_PublicKey demo_session)"
    by (rule receive_pack_reaches_any_host [OF g disjI1 [OF r] demo_handler_site(2) b _ _ _ e])
      (simp_all add: demo_env_def demo_http_def)
  then show ?thesis by (simp add: demo_env_def demo_session_def)
qed

lemma demo_framed_dom: "h \<in> {framed (strip_hop_by_hop (hr_Header demo_resp)) b, framed (rs_Header demo_response) b} \<Longrightarrow>
    lists_names demo_env w h"
proof -
  assume "h \<in> {framed (strip_hop_by_hop (hr_Header demo_resp)) b, framed (rs_Header demo_response) b}"
  moreover have "hr_Header demo_resp k = None" if "k \<notin> set hop_keys" for k
    using that by (auto simp: demo_resp_def hop_keys_names)
  ultimately have h: "h k = framed Map.empty b k" for k
    by (auto simp: framed_app strip_app demo_response_def demo_resp_def hop_keys_names)
  then show ?thesis by (auto simp: lists_names_def demo_env_def framed_app dom_def split: if_splits)
qed

lemma demo_header_ok: "header_ok (hr_Header demo_resp)" "header_ok (rs_Header demo_response)"
  by (auto simp: header_ok_def demo_resp_def demo_response_def strip_app split: if_splits)

theorem backend_response_on_wire_witness:
  "\<exists>out. ExecuteBinary demo_env buffer_write demo_handler ''receive-pack'' [] demo_session 0 [] =
     Some (Inr (), demo_handler, 1, out) \<and>
   on_wire out 200 ''OK'' (framed_pairs (hr_Header demo_resp) ''hi'') ''hi''"
proof -
  have f: "FetchResource (ev_http demo_env) \<lparr>BaseURL = ''http://127.0.0.1:8080''\<rparr> (case [] of [] \<Rightarrow> ''/'' | a # _ \<Rightarrow> a)
      (si_Tier demo_session) (si_Fingerprint demo_session) (si_PublicKey demo_session) 0 = (Inr demo_resp, Suc 0)"
    by (simp add: FetchResource_def demo_env_def demo_http_def Let_def)
  have r: "Root (site demo_handler) = []" by (simp add: demo_api_site_def zero_SiteConfig_def)
  have g: "granted (site demo_handler) (''receive-pack'', [], demo_session)" by (rule demo_granted) simp
  have st: "statusTextOnly ''200 OK'' = ''OK''" by code_simp
  have "lists_names demo_env (Suc 0) (framed (strip_hop_by_hop (hr_Header demo_resp)) (hr_Body demo_resp))"
    using demo_framed_dom [of _ "hr_Body demo_resp"] by simp
  from backend_response_on_wire [OF g this demo_handler_site(2) disjI1 [OF r] f _ demo_header_ok(1)]
  show ?thesis using st by (simp add: demo_resp_def)
qed

theorem proxy_call_repeats_witness:
  "\<exists>h' out out'. ExecuteBinary demo_env buffer_write demo_handler ''proxy-call'' [''get'', ''http://a.org''] demo_session 0 [] =
      Some (Inr (), h', 3, out) \<and>
    ExecuteBinary demo_env buffer_write h' ''proxy-call'' [''get'', ''http://a.org''] demo_session 3 [] =
      Some (Inr (), h', 3, out') \<and>
    (\<forall>o' \<in> {out, out'}. on_wire o' 200 ''OK'' (header_lines (framed (rs_Header demo_response) ''hi'')) ''hi'')"
proof -
  have g: "granted (site demo_handler) (''proxy-call'', [''get'', ''http://a.org''], demo_session)" by (rule demo_granted) simp
  have "ToUpper ''get'' = ''GET''" by code_simp
  then have pa: "proxy_args demo_handler [''get'', ''http://a.org''] = Inr (NewCache demo_cfg, ''http://a.org'')"
    by (simp add: proxy_args_def demo_handler_def)
  have f: "FetchResponse (ev_net demo_env) ''http://a.org'' (fst (ev_clock demo_env 0)) (snd (ev_clock demo_env 0))
      (NewCache demo_cfg) 0 = ((Inr demo_response, [Attempt (demo_url ''http://a.org'') [8, 8, 8, 8],
        Request (demo_url ''http://a.org'') [8, 8, 8, 8]]),
     NewCache demo_cfg\<lparr>ca_entries := [''http://a.org'' \<mapsto>
       \<lparr>ce_resp = demo_response, ce_fetchedAt = 5, ce_ttl = parseTTL\<rparr>]\<rparr>, 3)"
    using demo_fetch by (simp add: demo_env_def)
  have st: "wire_status demo_env demo_response = ''OK''"
  proof -
    have "statusTextOnly ''200 OK'' = ''OK''" by code_simp
    then show ?thesis by (simp add: wire_status_def demo_response_def)
  qed
  have l: "u \<in> {3, 3} \<Longrightarrow> lists_names demo_env u (framed (rs_Header demo_response) (rs_Body demo_response))" for u
    using demo_framed_dom [of _ "rs_Body demo_response"] by simp
  have c: "CR \<notin> set (wire_status demo_env demo_response)" by (simp add: st)
  have "\<not> expired e (fst (ev_clock demo_env 3))"
    if "ca_entries (NewCache demo_cfg\<lparr>ca_entries := [''http://a.org'' \<mapsto>
       \<lparr>ce_resp = demo_response, ce_fetchedAt = 5, ce_ttl = parseTTL\<rparr>]\<rparr>) ''http://a.org'' = Some e" for e
    using that by (auto simp: expired_def demo_env_def parseTTL_def)
  from proxy_call_repeats [OF g l pa f demo_header_ok(2) c this, unfolded st] show ?thesis
    by (simp add: demo_response_def)
qed


end
