(* ===== verification/Proxy_Shared.thy ===== *)
theory Proxy_Shared
  imports Handler_Props
begin

text \<open>
  Concurrent \<open>proxy-call\<close>s.  The cache of a site is shared by its sessions, and unlike the other
  shared parts its lock is not held over a call: \<open>FetchResponse\<close> takes it for the lookup and again
  for the store, and the response it returns is a pointer to the cached object, whose header map
  \<open>proxyCallBinary\<close> changes and iterates over with no lock at all.  Here the responses live in a
  heap, the entries of the cache point into it, and the calls interleave between these points.
\<close>

subsection \<open>The code\<close>

text \<open>Where a call is: before the checks of the URL, before the lookup, before the fetch, before the
  store; with the response in hand, between the two headers it sets, before it writes the headers
  and the body; and the two ends.\<close>

datatype call_pc =
    Checking
  | Looking URL
  | Fetching URL
  | Storing Response
  | Holding nat
  | Framing nat
  | Sending nat
  | Finished bytes
  | Failed fetch_error

record entry_ref =
  er_obj :: nat
  er_fetchedAt :: int
  er_ttl :: int

record 'w proxy_sys =
  px_cfg :: ProxyCacheConfig
  px_heap :: "Response list"
  px_entries :: "string \<rightharpoonup> entry_ref"
  px_world :: 'w
  px_calls :: "nat \<rightharpoonup> string \<times> call_pc"

datatype proxy_event = Internal | Fetched string "contact list" "fetch_error + http_resp"

definition stale :: "entry_ref \<Rightarrow> int \<Rightarrow> bool" where
  "stale e now \<longleftrightarrow> now - er_fetchedAt e > er_ttl e"

definition set_object_header :: "nat \<Rightarrow> string \<Rightarrow> string \<Rightarrow> 'w proxy_sys \<Rightarrow> 'w proxy_sys" where
  "set_object_header a k v s =
     s\<lparr>px_heap := (px_heap s)[a := (px_heap s ! a)\<lparr>rs_Header := header_Set (rs_Header (px_heap s ! a)) k v\<rparr>]\<rparr>"

definition message_text :: "'w env \<Rightarrow> 'w \<Rightarrow> Response \<Rightarrow> bytes" where
  "message_text ev w r =
     concat (response_chunks (rs_StatusCode r) (wire_status ev r) (rs_Header r) (ev_order ev w (rs_Header r)) (rs_Body r))"

text \<open>The steps of \<open>FetchResponse\<close> at time \<open>t\<close>, up to the pointer it returns.\<close>

fun fetch_turn :: "'w env \<Rightarrow> int \<Rightarrow> string \<Rightarrow> call_pc \<Rightarrow> 'w proxy_sys \<Rightarrow> proxy_event \<times> call_pc \<times> 'w proxy_sys" where
  "fetch_turn ev t raw Checking s =
     (Internal, case check_url (ev_net ev) (px_cfg s) raw of Inl e \<Rightarrow> Failed e | Inr u \<Rightarrow> Looking u, s)"
| "fetch_turn ev t raw (Looking u) s =
     (Internal,
      case px_entries s raw of
        Some e \<Rightarrow> if \<not> stale e t then Holding (er_obj e) else Fetching u
      | None \<Rightarrow> Fetching u, s)"
| "fetch_turn ev t raw (Fetching u) s =
     (case client_get (ev_net ev) (px_cfg s) u 0 (px_world s) of
        ((res, tr), w) \<Rightarrow>
          (Fetched raw tr res,
           case res of
             Inl e \<Rightarrow> Failed e
           | Inr resp \<Rightarrow> (case capture (px_cfg s) resp of Inl e \<Rightarrow> Failed e | Inr r \<Rightarrow> Storing r),
           s\<lparr>px_world := w\<rparr>))"
| "fetch_turn ev t raw (Storing r) s =
     (Internal, Holding (length (px_heap s)),
      s\<lparr>px_heap := px_heap s @ [r],
        px_entries := (px_entries s)(raw \<mapsto> \<lparr>er_obj = length (px_heap s), er_fetchedAt = t, er_ttl = parseTTL\<rparr>)\<rparr>)"
| "fetch_turn ev t raw pc s = (Internal, pc, s)"

text \<open>The steps of \<open>proxyCallBinary\<close> once it has the pointer; the last one stands for all its writes.\<close>

fun reply_turn :: "'w env \<Rightarrow> call_pc \<Rightarrow> 'w proxy_sys \<Rightarrow> call_pc \<times> 'w proxy_sys" where
  "reply_turn ev (Holding a) s =
     (Framing a, set_object_header a ''Content-Length'' (show_int (int (length (rs_Body (px_heap s ! a))))) s)"
| "reply_turn ev (Framing a) s = (Sending a, set_object_header a ''Connection'' ''close'' s)"
| "reply_turn ev (Sending a) s = (Finished (message_text ev (px_world s) (px_heap s ! a)), s)"
| "reply_turn ev pc s = (pc, s)"

fun has_pointer :: "call_pc \<Rightarrow> bool" where
  "has_pointer (Holding a) = True"
| "has_pointer (Framing a) = True"
| "has_pointer (Sending a) = True"
| "has_pointer pc = False"

definition turn :: "'w env \<Rightarrow> int \<Rightarrow> string \<Rightarrow> call_pc \<Rightarrow> 'w proxy_sys \<Rightarrow> proxy_event \<times> call_pc \<times> 'w proxy_sys" where
  "turn ev t raw pc s = (if has_pointer pc then (Internal, reply_turn ev pc s) else fetch_turn ev t raw pc s)"

text \<open>Any call may begin, move or disappear (its channel failed) at any time, and the
  world changes on its own.\<close>

inductive proxy_step :: "'w env \<Rightarrow> 'w proxy_sys \<Rightarrow> proxy_event \<Rightarrow> 'w proxy_sys \<Rightarrow> bool" for ev where
  begins: "px_calls s i = None \<Longrightarrow>
    proxy_step ev s Internal (s\<lparr>px_calls := (px_calls s)(i \<mapsto> (raw, Checking))\<rparr>)"
| moves: "px_calls s i = Some (raw, pc) \<Longrightarrow> turn ev t raw pc s = (e, pc', s') \<Longrightarrow>
    proxy_step ev s e (s'\<lparr>px_calls := (px_calls s')(i \<mapsto> (raw, pc'))\<rparr>)"
| breaks: "px_calls s i = Some x \<Longrightarrow> proxy_step ev s Internal (s\<lparr>px_calls := (px_calls s)(i := None)\<rparr>)"
| elsewhere: "proxy_step ev s Internal (s\<lparr>px_world := w\<rparr>)"

inductive proxy_run :: "'w env \<Rightarrow> 'w proxy_sys \<Rightarrow> proxy_event list \<Rightarrow> 'w proxy_sys \<Rightarrow> bool" for ev s0 where
  stop: "proxy_run ev s0 [] s0"
| more: "proxy_run ev s0 es s \<Longrightarrow> proxy_step ev s e s' \<Longrightarrow> proxy_run ev s0 (es @ [e]) s'"

definition fresh_proxy :: "ProxyCacheConfig \<Rightarrow> 'w \<Rightarrow> 'w proxy_sys" where
  "fresh_proxy cfg w = \<lparr>px_cfg = cfg, px_heap = [], px_entries = Map.empty, px_world = w, px_calls = Map.empty\<rparr>"

text \<open>A turn, by the place of the call.\<close>

lemma turn_eqs [simp]:
  "turn ev t raw Checking s = fetch_turn ev t raw Checking s"
  "turn ev t raw (Looking u) s = fetch_turn ev t raw (Looking u) s"
  "turn ev t raw (Fetching u) s = fetch_turn ev t raw (Fetching u) s"
  "turn ev t raw (Storing r) s = fetch_turn ev t raw (Storing r) s"
  "turn ev t raw (Holding a) s = (Internal, reply_turn ev (Holding a) s)"
  "turn ev t raw (Framing a) s = (Internal, reply_turn ev (Framing a) s)"
  "turn ev t raw (Sending a) s = (Internal, reply_turn ev (Sending a) s)"
  "turn ev t raw (Finished out) s = (Internal, Finished out, s)"
  "turn ev t raw (Failed e) s = (Internal, Failed e, s)"
  by (simp_all add: turn_def)

subsection \<open>Setting the headers\<close>

text \<open>Two responses that read the same once the server's own headers are set.\<close>

definition alike :: "Response \<Rightarrow> Response \<Rightarrow> bool" where
  "alike r x \<longleftrightarrow> rs_StatusCode x = rs_StatusCode r \<and> rs_Status x = rs_Status r \<and> rs_Body x = rs_Body r \<and>
     (\<forall>k. k \<noteq> ''Content-Length'' \<longrightarrow> k \<noteq> ''Connection'' \<longrightarrow> rs_Header x k = rs_Header r k)"

definition has_length :: "Response \<Rightarrow> bool" where
  "has_length x \<longleftrightarrow> rs_Header x ''Content-Length'' = Some [show_int (int (length (rs_Body x)))]"

definition has_close :: "Response \<Rightarrow> bool" where
  "has_close x \<longleftrightarrow> rs_Header x ''Connection'' = Some [''close'']"

lemma alike_refl [simp]: "alike r r"
  by (simp add: alike_def)

lemma alike_final: "alike r x \<Longrightarrow> has_length x \<Longrightarrow> has_close x \<Longrightarrow> x = r\<lparr>rs_Header := framed (rs_Header r) (rs_Body r)\<rparr>"
proof -
  assume a: "alike r x" and l: "has_length x" and c: "has_close x"
  then have "rs_Header x = framed (rs_Header r) (rs_Body r)"
    by (auto simp: fun_eq_iff framed_app has_length_def has_close_def alike_def)
  with a show ?thesis by (simp add: alike_def)
qed

definition with_length :: "Response \<Rightarrow> Response" where
  "with_length x = x\<lparr>rs_Header := header_Set (rs_Header x) ''Content-Length'' (show_int (int (length (rs_Body x))))\<rparr>"

definition with_close :: "Response \<Rightarrow> Response" where
  "with_close x = x\<lparr>rs_Header := header_Set (rs_Header x) ''Connection'' ''close''\<rparr>"

lemma header_Set_app: "k \<in> {''Content-Length'', ''Connection''} \<Longrightarrow> header_Set h k v j = (if j = k then Some [v] else h j)"
  by (auto simp: header_Set_def framing_keys)

lemma with_headers:
  "alike r x \<Longrightarrow> alike r (with_length x)" "alike r x \<Longrightarrow> alike r (with_close x)"
  "has_length (with_length x)" "has_close (with_close x)"
  "has_close x \<Longrightarrow> has_close (with_length x)" "has_length x \<Longrightarrow> has_length (with_close x)"
  by (simp_all add: alike_def with_length_def with_close_def has_length_def has_close_def header_Set_app
      fun_eq_iff framed_app)


subsection \<open>The invariant of all interleavings\<close>

text \<open>What was fetched for a URL in a history of events.\<close>

definition came_for :: "ProxyCacheConfig \<Rightarrow> proxy_event list \<Rightarrow> string \<Rightarrow> Response \<Rightarrow> bool" where
  "came_for cfg es raw r \<longleftrightarrow> (\<exists>tr hr. Fetched raw tr (Inr hr) \<in> set es \<and> capture cfg hr = Inr r)"

definition object_for :: "ProxyCacheConfig \<Rightarrow> proxy_event list \<Rightarrow> 'w proxy_sys \<Rightarrow> string \<Rightarrow> nat \<Rightarrow> bool" where
  "object_for cfg es s raw a \<longleftrightarrow> a < length (px_heap s) \<and> (\<exists>r. came_for cfg es raw r \<and> alike r (px_heap s ! a))"

fun call_ok :: "'w env \<Rightarrow> ProxyCacheConfig \<Rightarrow> proxy_event list \<Rightarrow> 'w proxy_sys \<Rightarrow> string \<Rightarrow> call_pc \<Rightarrow> bool" where
  "call_ok ev cfg es s raw (Looking u) \<longleftrightarrow> check_url (ev_net ev) cfg raw = Inr u"
| "call_ok ev cfg es s raw (Fetching u) \<longleftrightarrow> check_url (ev_net ev) cfg raw = Inr u"
| "call_ok ev cfg es s raw (Storing r) \<longleftrightarrow> came_for cfg es raw r"
| "call_ok ev cfg es s raw (Holding a) \<longleftrightarrow> object_for cfg es s raw a"
| "call_ok ev cfg es s raw (Framing a) \<longleftrightarrow> object_for cfg es s raw a \<and> has_length (px_heap s ! a)"
| "call_ok ev cfg es s raw (Sending a) \<longleftrightarrow>
     object_for cfg es s raw a \<and> has_length (px_heap s ! a) \<and> has_close (px_heap s ! a)"
| "call_ok ev cfg es s raw (Finished out) \<longleftrightarrow>
     (\<exists>r w. came_for cfg es raw r \<and> out = message_text ev w (r\<lparr>rs_Header := framed (rs_Header r) (rs_Body r)\<rparr>))"
| "call_ok ev cfg es s raw pc \<longleftrightarrow> True"

definition shared_ok :: "'w env \<Rightarrow> ProxyCacheConfig \<Rightarrow> proxy_event list \<Rightarrow> 'w proxy_sys \<Rightarrow> bool" where
  "shared_ok ev cfg es s \<longleftrightarrow> px_cfg s = cfg \<and>
     (\<forall>raw e. px_entries s raw = Some e \<longrightarrow> object_for cfg es s raw (er_obj e)) \<and>
     (\<forall>i raw pc. px_calls s i = Some (raw, pc) \<longrightarrow> call_ok ev cfg es s raw pc) \<and>
     (\<forall>raw tr res. Fetched raw tr res \<in> set es \<longrightarrow> trace_permitted cfg tr)"

text \<open>What a call relies on is kept when the history grows and objects only gain the two headers.\<close>

definition grows :: "'w proxy_sys \<Rightarrow> 'w proxy_sys \<Rightarrow> bool" where
  "grows s s' \<longleftrightarrow> length (px_heap s) \<le> length (px_heap s') \<and>
     (\<forall>a < length (px_heap s). let x = px_heap s ! a; y = px_heap s' ! a in
        y = x \<or> y = with_length x \<or> y = with_close x)"

lemma grows_same [simp]: "px_heap s' = px_heap s \<Longrightarrow> grows s s'"
  by (simp add: grows_def)

lemma came_for_mono: "came_for cfg es raw r \<Longrightarrow> set es \<subseteq> set es' \<Longrightarrow> came_for cfg es' raw r"
  by (auto simp: came_for_def)

lemma grows_object:
  assumes "grows s s'" "a < length (px_heap s)"
  shows "alike r (px_heap s ! a) \<Longrightarrow> alike r (px_heap s' ! a)"
    "has_length (px_heap s ! a) \<Longrightarrow> has_length (px_heap s' ! a)"
    "has_close (px_heap s ! a) \<Longrightarrow> has_close (px_heap s' ! a)"
  using assms by (auto simp: grows_def Let_def with_headers dest!: spec [of _ a])

lemma object_for_mono:
  "object_for cfg es s raw a \<Longrightarrow> grows s s' \<Longrightarrow> set es \<subseteq> set es' \<Longrightarrow> object_for cfg es' s' raw a"
proof -
  assume o: "object_for cfg es s raw a" and g: "grows s s'" and e: "set es \<subseteq> set es'"
  from o obtain r where a: "a < length (px_heap s)" and r: "came_for cfg es raw r" "alike r (px_heap s ! a)"
    by (auto simp: object_for_def)
  have "a < length (px_heap s')" using a g by (simp add: grows_def)
  with came_for_mono [OF r(1) e] grows_object(1) [OF g a r(2)] show ?thesis by (auto simp: object_for_def)
qed

lemma call_ok_mono:
  assumes "call_ok ev cfg es s raw pc" "grows s s'" "set es \<subseteq> set es'"
  shows "call_ok ev cfg es' s' raw pc"
proof (cases pc)
  case (Finished out)
  with assms(1) obtain r w where r: "came_for cfg es raw r"
    "out = message_text ev w (r\<lparr>rs_Header := framed (rs_Header r) (rs_Body r)\<rparr>)" by auto
  from came_for_mono [OF r(1) assms(3)] r(2) Finished show ?thesis by auto
next
  case (Framing a)
  with assms(1) have "a < length (px_heap s)" by (simp add: object_for_def)
  with Framing assms show ?thesis using object_for_mono grows_object by auto
next
  case (Sending a)
  with assms(1) have "a < length (px_heap s)" by (simp add: object_for_def)
  with Sending assms show ?thesis using object_for_mono grows_object by auto
qed (use assms object_for_mono came_for_mono in auto)

lemma update_nth: "b < length xs \<Longrightarrow> xs[a := f (xs ! a)] ! b = xs ! b \<or> xs[a := f (xs ! a)] ! b = f (xs ! b)"
  by (cases "a = b") simp_all

lemma set_object_header_grows:
  "grows s (set_object_header a ''Content-Length'' (show_int (int (length (rs_Body (px_heap s ! a))))) s)"
  "grows s (set_object_header a ''Connection'' ''close'' s)"
  using update_nth [of _ "px_heap s" a with_length] update_nth [of _ "px_heap s" a with_close]
  by (auto simp: grows_def set_object_header_def Let_def with_length_def with_close_def)

lemma turn_grows:
  assumes "turn ev t raw pc s = (e, pc', s')"
  shows "grows s s'"
proof (cases pc)
  case (Storing r)
  with assms show ?thesis by (auto simp: grows_def nth_append Let_def)
qed (use assms set_object_header_grows in \<open>auto split: prod.splits\<close>)

lemma turn_rest:
  assumes "turn ev t raw pc s = (e, pc', s')"
  shows "px_calls s' = px_calls s" "px_cfg s' = px_cfg s"
    "px_entries s' raw' = Some en \<Longrightarrow> px_entries s raw' = Some en \<or> raw' = raw \<and> pc' = Holding (er_obj en) \<and> (\<exists>r. pc = Storing r)"
  using assms by (cases pc; auto simp: set_object_header_def split: prod.splits if_splits)+

lemma turn_event:
  assumes "turn ev t raw pc s = (Fetched x tr res, pc', s')" "call_ok ev (px_cfg s) es s raw pc"
  shows "trace_permitted (px_cfg s) tr"
proof -
  obtain u w where u: "pc = Fetching u" "client_get (ev_net ev) (px_cfg s) u 0 (px_world s) = ((res, tr), w)"
    using assms(1) by (cases pc) (auto split: prod.splits)
  then have "url_permitted (px_cfg s) u" using assms(2) by (auto dest: check_url_permitted)
  from client_get_permitted [OF this _ u(2)] redirect_limit_pos [of "px_cfg s"] show ?thesis
    by (auto simp: trace_permitted_def)
qed

lemma alike_message:
  assumes "came_for cfg es raw r" "alike r x" "has_length x" "has_close x"
  shows "\<exists>r w'. came_for cfg es raw r \<and> message_text ev w x = message_text ev w' (r\<lparr>rs_Header := framed (rs_Header r) (rs_Body r)\<rparr>)"
  using assms alike_final [OF assms(2-4)] by blast

lemma turn_call_ok:
  assumes "turn ev t raw pc s = (e, pc', s')" "call_ok ev (px_cfg s) es s raw pc"
    and "\<And>en. px_entries s raw = Some en \<Longrightarrow> object_for (px_cfg s) es s raw (er_obj en)"
  shows "call_ok ev (px_cfg s) (es @ [e]) s' raw pc'"
proof (cases pc)
  case Checking
  with assms(1) show ?thesis by (auto split: sum.split)
next
  case (Looking u)
  with assms show ?thesis by (auto split: option.split simp: object_for_def came_for_def)
next
  case (Fetching u)
  with assms(1) show ?thesis by (auto split: prod.splits sum.splits simp: came_for_def) blast
next
  case (Storing r)
  with assms(1,2) have "came_for (px_cfg s) (es @ [e]) raw r" by (auto simp: came_for_def)
  with Storing assms(1) show ?thesis by (auto simp: object_for_def intro!: exI [of _ r])
next
  case (Holding a)
  with assms(2) have o: "object_for (px_cfg s) es s raw a" and a: "a < length (px_heap s)" by (simp_all add: object_for_def)
  have "object_for (px_cfg s) (es @ [e]) s' raw a" by (rule object_for_mono [OF o turn_grows [OF assms(1)]]) auto
  with Holding assms(1) a show ?thesis by (auto simp: set_object_header_def has_length_def header_Set_app)
next
  case (Framing a)
  with assms(2) have o: "object_for (px_cfg s) es s raw a" "has_length (px_heap s ! a)" and a: "a < length (px_heap s)"
    by (simp_all add: object_for_def)
  note g = turn_grows [OF assms(1)]
  have "object_for (px_cfg s) (es @ [e]) s' raw a" by (rule object_for_mono [OF o(1) g]) auto
  with Framing assms(1) a grows_object(2) [OF g a o(2)] show ?thesis
    by (auto simp: set_object_header_def has_close_def header_Set_app)
next
  case (Sending a)
  with assms(2) obtain r where r: "came_for (px_cfg s) es raw r" "alike r (px_heap s ! a)"
    "has_length (px_heap s ! a)" "has_close (px_heap s ! a)" by (auto simp: object_for_def)
  have "came_for (px_cfg s) (es @ [e]) raw r" by (rule came_for_mono [OF r(1)]) auto
  from alike_message [OF this r(2-4)] Sending assms(1) show ?thesis by auto
qed (use assms in \<open>auto simp: came_for_def\<close>)

lemma shared_okI:
  assumes "shared_ok ev cfg es s" "px_cfg s' = px_cfg s" "grows s s'" "set es \<subseteq> set es'"
    and "\<And>raw en. px_entries s' raw = Some en \<Longrightarrow> px_entries s raw = Some en \<or> object_for cfg es' s' raw (er_obj en)"
    and "\<And>i raw pc. px_calls s' i = Some (raw, pc) \<Longrightarrow> px_calls s i = Some (raw, pc) \<or> call_ok ev cfg es' s' raw pc"
    and "\<And>raw tr res. Fetched raw tr res \<in> set es' \<Longrightarrow> Fetched raw tr res \<in> set es \<or> trace_permitted cfg tr"
  shows "shared_ok ev cfg es' s'"
  using assms unfolding shared_ok_def by (metis object_for_mono call_ok_mono)

lemma proxy_step_ok:
  assumes "proxy_step ev s e s'" "shared_ok ev cfg es s"
  shows "shared_ok ev cfg (es @ [e]) s'"
  using assms
proof (induction rule: proxy_step.induct)
  case (moves s i raw pc t e pc' s')
  have c: "px_cfg s = cfg" "call_ok ev cfg es s raw pc" using moves(1,3) by (auto simp: shared_ok_def)
  have en: "px_entries s raw = Some en \<Longrightarrow> object_for (px_cfg s) es s raw (er_obj en)" for en
    using moves(3) by (auto simp: shared_ok_def)
  have k: "call_ok ev cfg (es @ [e]) s' raw pc'" using turn_call_ok [OF moves(2) _ en] c by simp
  note rest = turn_rest [OF moves(2)] and g = turn_grows [OF moves(2)]
  let ?s = "s'\<lparr>px_calls := (px_calls s')(i \<mapsto> (raw, pc'))\<rparr>"
  have same: "call_ok ev cfg es' s' r p \<Longrightarrow> call_ok ev cfg es' ?s r p"
    "object_for cfg es' s' r a \<Longrightarrow> object_for cfg es' ?s r a" for es' r p a
    using call_ok_mono [of ev cfg es' s' r p ?s es'] by (simp_all add: object_for_def)
  show ?case
  proof (rule shared_okI [OF moves(3)])
    show "grows s ?s" using g by (simp add: grows_def)
    show "px_cfg ?s = px_cfg s" by (simp add: rest)
    show "set es \<subseteq> set (es @ [e])" by auto
    show "px_entries s raw' = Some en \<or> object_for cfg (es @ [e]) ?s raw' (er_obj en)"
      if "px_entries ?s raw' = Some en" for raw' en
      using rest(3) [of raw' en] that k same(2) by auto
    show "px_calls s j = Some (raw', p) \<or> call_ok ev cfg (es @ [e]) ?s raw' p" if "px_calls ?s j = Some (raw', p)" for j raw' p
      using that rest(1) k same(1) by (auto split: if_splits)
    show "Fetched x tr res \<in> set es \<or> trace_permitted cfg tr" if "Fetched x tr res \<in> set (es @ [e])" for x tr res
      using that turn_event [of ev t raw pc s x tr res pc' s'] moves(2) c by auto
  qed
qed (rule shared_okI; (assumption | auto split: if_splits))+

lemma proxy_run_ok: "proxy_run ev (fresh_proxy cfg w) es s \<Longrightarrow> shared_ok ev cfg es s"
proof (induction rule: proxy_run.induct)
  case stop
  show ?case by (simp add: shared_ok_def fresh_proxy_def)
next
  case (more es s e s')
  then show ?case using proxy_step_ok by blast
qed


subsection \<open>One call at a time\<close>

text \<open>The cache as the sequential definitions see it.\<close>

definition view :: "'w proxy_sys \<Rightarrow> Cache" where
  "view s = \<lparr>ca_cfg = px_cfg s, ca_entries = (\<lambda>raw. map_option (\<lambda>e.
     \<lparr>ce_resp = px_heap s ! er_obj e, ce_fetchedAt = er_fetchedAt e, ce_ttl = er_ttl e\<rparr>) (px_entries s raw))\<rparr>"

fun turns :: "'w env \<Rightarrow> int list \<Rightarrow> string \<Rightarrow> call_pc \<Rightarrow> 'w proxy_sys \<Rightarrow> call_pc \<times> 'w proxy_sys" where
  "turns ev [] raw pc s = (pc, s)"
| "turns ev (t # ts) raw pc s = (case turn ev t raw pc s of (e, pc', s') \<Rightarrow> turns ev ts raw pc' s')"

text \<open>Each entry has an object of its own.\<close>

definition no_alias :: "'w proxy_sys \<Rightarrow> bool" where
  "no_alias s \<longleftrightarrow> (\<forall>raw e. px_entries s raw = Some e \<longrightarrow> er_obj e < length (px_heap s) \<and>
     (\<forall>raw' e'. px_entries s raw' = Some e' \<longrightarrow> er_obj e' = er_obj e \<longrightarrow> raw' = raw))"

lemma turn_no_alias: "turn ev t raw pc s = (e, pc', s') \<Longrightarrow> no_alias s \<Longrightarrow> no_alias s'"
proof (cases pc)
  case (Storing r)
  assume "turn ev t raw pc s = (e, pc', s')" "no_alias s"
  with Storing show ?thesis
    unfolding no_alias_def by (auto split: if_splits) (metis less_SucI less_irrefl_nat)+
qed (auto simp: no_alias_def set_object_header_def split: prod.splits)

lemma proxy_run_no_alias: "proxy_run ev (fresh_proxy cfg w) es s \<Longrightarrow> no_alias s"
proof (induction rule: proxy_run.induct)
  case (more es s e s')
  from more.hyps(2) more.IH show ?case
  proof (induction rule: proxy_step.induct)
    case (moves s i raw pc t e pc' s')
    from turn_no_alias [OF moves(2,3)] show ?case by (simp add: no_alias_def)
  qed (simp_all add: no_alias_def)
qed (simp add: no_alias_def fresh_proxy_def)

lemma turns_ended [simp]: "turns ev ts raw (Failed e) s = (Failed e, s)" "turns ev ts raw (Finished out) s = (Finished out, s)"
  by (induction ts) simp_all

lemma view_set_headers:
  assumes "no_alias s" "px_entries s raw = Some e" "px_heap s' = (px_heap s)[er_obj e := (px_heap s ! er_obj e)\<lparr>rs_Header := hdr\<rparr>]"
    and "px_entries s' = px_entries s" "px_cfg s' = px_cfg s"
  shows "view s' = set_cached_header raw hdr (view s)"
proof -
  have "er_obj e < length (px_heap s)" "\<And>raw' e'. px_entries s raw' = Some e' \<Longrightarrow> raw' \<noteq> raw \<Longrightarrow> er_obj e \<noteq> er_obj e'"
    using assms(1,2) unfolding no_alias_def by metis+
  then have "ca_entries (view s') x = ca_entries (set_cached_header raw hdr (view s)) x" for x
    using assms(2-5) by (cases "x = raw"; cases "px_entries s x") (simp_all add: view_def set_cached_header_def)
  then have "ca_entries (view s') = ca_entries (set_cached_header raw hdr (view s))" by (rule ext)
  with assms(5) show ?thesis by (simp add: view_def set_cached_header_def)
qed

lemma turns_framing:
  assumes "no_alias s" "px_entries s raw = Some e"
  defines "x \<equiv> px_heap s ! er_obj e"
  shows "\<exists>s'. turns ev (t # t' # t'' # ts) raw (Holding (er_obj e)) s =
      (Finished (message_text ev (px_world s) (x\<lparr>rs_Header := framed (rs_Header x) (rs_Body x)\<rparr>)), s') \<and>
    view s' = set_cached_header raw (framed (rs_Header x) (rs_Body x)) (view s) \<and> px_world s' = px_world s"
proof -
  let ?a = "er_obj e"
  define s1 where "s1 = set_object_header ?a ''Content-Length'' (show_int (int (length (rs_Body x)))) s"
  define s2 where "s2 = set_object_header ?a ''Connection'' ''close'' s1"
  have a: "?a < length (px_heap s)" using assms(1,2) by (auto simp: no_alias_def)
  then have h: "px_heap s2 = (px_heap s)[?a := x\<lparr>rs_Header := framed (rs_Header x) (rs_Body x)\<rparr>]"
    by (simp add: s1_def s2_def set_object_header_def framed_def x_def)
  have rest: "px_world s2 = px_world s" "px_entries s2 = px_entries s" "px_cfg s2 = px_cfg s"
    by (simp_all add: s1_def s2_def set_object_header_def)
  have "view s2 = set_cached_header raw (framed (rs_Header x) (rs_Body x)) (view s)"
    by (rule view_set_headers [OF assms(1,2)]) (use h rest in \<open>simp_all add: x_def\<close>)
  moreover have "turns ev (t # t' # t'' # ts) raw (Holding ?a) s = (Finished (message_text ev (px_world s2) (px_heap s2 ! ?a)), s2)"
    by (simp add: s1_def s2_def x_def)
  ultimately show ?thesis using a by (simp add: h rest)
qed

lemma view_entries: "ca_entries (view s) raw = map_option (\<lambda>e.
    \<lparr>ce_resp = px_heap s ! er_obj e, ce_fetchedAt = er_fetchedAt e, ce_ttl = er_ttl e\<rparr>) (px_entries s raw)"
  "ca_cfg (view s) = px_cfg s"
  by (simp_all add: view_def)

lemma view_store:
  assumes "no_alias s"
  shows "view (snd (snd (turn ev t raw (Storing r) s))) =
    (view s)\<lparr>ca_entries := (ca_entries (view s))(raw \<mapsto> \<lparr>ce_resp = r, ce_fetchedAt = t, ce_ttl = parseTTL\<rparr>)\<rparr>"
proof -
  let ?s = "snd (snd (turn ev t raw (Storing r) s))"
  have "ca_entries (view ?s) x = ((ca_entries (view s))(raw \<mapsto> \<lparr>ce_resp = r, ce_fetchedAt = t, ce_ttl = parseTTL\<rparr>)) x" for x
    using assms by (cases "px_entries s x") (auto simp: view_entries no_alias_def nth_append)
  then have "ca_entries (view ?s) = (ca_entries (view s))(raw \<mapsto> \<lparr>ce_resp = r, ce_fetchedAt = t, ce_ttl = parseTTL\<rparr>)"
    by (rule ext)
  then show ?thesis by (simp add: view_def)
qed

lemma turns_answer:
  assumes "no_alias s" "px_entries s raw = Some e" "px_heap s ! er_obj e = x"
    and "proxy_args h args = Inr (c, raw)" "FetchResponse (ev_net ev) raw t1 t2 c w = ((Inr x, tr), view s, px_world s)"
    and "ev_clock ev w = (t1, t2)"
  shows "\<exists>out s'. turns ev (t # t' # t'' # ts) raw (Holding (er_obj e)) s = (Finished out, s') \<and>
    proxyCallBinary ev buffer_write h args w [] = (Inr (), h\<lparr>hd_proxy := Some (view s')\<rparr>, px_world s', out)"
proof -
  obtain s' where s': "turns ev (t # t' # t'' # ts) raw (Holding (er_obj e)) s =
      (Finished (message_text ev (px_world s) (x\<lparr>rs_Header := framed (rs_Header x) (rs_Body x)\<rparr>)), s')"
    "view s' = set_cached_header raw (framed (rs_Header x) (rs_Body x)) (view s)" "px_world s' = px_world s"
    using turns_framing [OF assms(1,2), of ev t t' t'' ts] assms(3) by auto
  show ?thesis
    using proxyCallBinary_buffer [OF assms(4), of ev w x tr "view s" "px_world s" "[]"] assms(5,6) s'
    by (auto simp: Let_def message_text_def wire_status_def)
qed

text \<open>The miss path: what \<open>fetch_and_store\<close> does are the two steps of fetching and storing.\<close>

lemma fetch_steps:
  fixes ev :: "'w env" and u :: URL and t2 :: int and raw :: string
  assumes "no_alias s"
  defines "F \<equiv> fetch_and_store (ev_net ev) raw u t2 (view s) (px_world s)"
  obtains e tr w' g where "F = ((Inl e, tr), view s, w')"
      "turn ev t1 raw (Fetching u) s = (Fetched raw tr g, Failed e, s\<lparr>px_world := w'\<rparr>)"
    | r tr w' g s2 where "F = ((Inr r, tr), view s2, px_world s2)" "no_alias s2"
      "turn ev t1 raw (Fetching u) s = (Fetched raw tr g, Storing r, s\<lparr>px_world := w'\<rparr>)"
      "turn ev t2 raw (Storing r) (s\<lparr>px_world := w'\<rparr>) = (Internal, Holding (length (px_heap s)), s2)"
      "px_entries s2 raw = Some \<lparr>er_obj = length (px_heap s), er_fetchedAt = t2, er_ttl = parseTTL\<rparr>"
      "px_heap s2 ! length (px_heap s) = r"
proof -
  obtain g tr w' where g: "client_get (ev_net ev) (px_cfg s) u 0 (px_world s) = ((g, tr), w')"
    by (cases "client_get (ev_net ev) (px_cfg s) u 0 (px_world s)") auto
  let ?s = "s\<lparr>px_world := w'\<rparr>"
  have v: "view ?s = view s" "no_alias ?s" using assms(1) by (simp_all add: view_def no_alias_def)
  consider e where "F = ((Inl e, tr), view s, w')" "turn ev t1 raw (Fetching u) s = (Fetched raw tr g, Failed e, ?s)"
    | r where "F = ((Inr r, tr), view (snd (snd (turn ev t2 raw (Storing r) ?s))), w')"
      "turn ev t1 raw (Fetching u) s = (Fetched raw tr g, Storing r, ?s)"
  proof (cases "\<exists>hr r. g = Inr hr \<and> capture (px_cfg s) hr = Inr r")
    case True
    then obtain hr r where "g = Inr hr" "capture (px_cfg s) hr = Inr r" by blast
    with g that(2) show thesis
      by (simp add: F_def fetch_and_store_def view_entries view_store [OF v(2)] v(1) del: turn_eqs(4))
  next
    case False
    with g that(1) show thesis
      by (cases g; cases "capture (px_cfg s) (projr g)") (auto simp: F_def fetch_and_store_def view_entries)
  qed
  then show thesis
  proof cases
    case (2 r)
    define s2 where "s2 = snd (snd (turn ev t2 raw (Storing r) ?s))"
    have s2: "turn ev t2 raw (Storing r) ?s = (Internal, Holding (length (px_heap s)), s2)" by (simp add: s2_def)
    have "px_world s2 = w'" by (simp add: s2_def)
    with 2(1) have "F = ((Inr r, tr), view s2, px_world s2)" by (simp add: s2_def)
    from that(2) [OF this turn_no_alias [OF s2 v(2)] 2(2) s2] show thesis by (simp add: s2_def)
  qed (rule that(1))
qed

lemma call_alone:
  assumes "no_alias s" "proxy_args h args = Inr (view s, raw)" "ev_clock ev (px_world s) = (t1, t2)"
  shows "\<exists>pc s'. turns ev [t1, t1, t1, t2, t2, t2, t2] raw Checking s = (pc, s') \<and>
    (\<exists>res out. proxyCallBinary ev buffer_write h args (px_world s) [] =
        (res, h\<lparr>hd_proxy := Some (view s')\<rparr>, px_world s', out) \<and>
      (pc = Finished out \<and> res = Inr () \<or> (\<exists>e. pc = Failed e \<and> res = Inl (FetchFailed e) \<and> out = [])))"
proof -
  let ?w = "px_world s" and ?F = "FetchResponse (ev_net ev) raw t1 t2 (view s) (px_world s)"
  have failed: "proxyCallBinary ev buffer_write h args ?w [] = (Inl (FetchFailed e), h\<lparr>hd_proxy := Some c'\<rparr>, w', [])"
    if "?F = ((Inl e, tr), c', w')" for e tr c' w'
    using that assms(2,3) by (simp add: proxyCallBinary_def)
  show ?thesis
  proof (cases "check_url (ev_net ev) (px_cfg s) raw")
    case (Inl e)
    then have "?F = ((Inl e, []), view s, ?w)" by (simp add: FetchResponse_def view_entries)
    from failed [OF this] Inl show ?thesis by simp
  next
    case (Inr u)
    show ?thesis
    proof (cases "\<exists>e. px_entries s raw = Some e \<and> \<not> stale e t1")
      case True
      then obtain e where e: "px_entries s raw = Some e" "\<not> stale e t1" by blast
      then have "?F = ((Inr (px_heap s ! er_obj e), []), view s, ?w)"
        using Inr by (simp add: FetchResponse_def view_entries expired_def stale_def)
      from turns_answer [OF assms(1) e(1) refl assms(2) this assms(3)] Inr e show ?thesis by fastforce
    next
      case False
      then have f: "?F = fetch_and_store (ev_net ev) raw u t2 (view s) ?w"
        using Inr by (auto simp: FetchResponse_def view_entries expired_def stale_def split: option.split)
      have l: "turn ev t1 raw (Looking u) s = (Internal, Fetching u, s)" using False by (auto split: option.split)
      show ?thesis
      proof (rule fetch_steps [OF assms(1), of ev raw u t2 t1])
        fix e tr w' g
        assume k: "fetch_and_store (ev_net ev) raw u t2 (view s) ?w = ((Inl e, tr), view s, w')"
          "turn ev t1 raw (Fetching u) s = (Fetched raw tr g, Failed e, s\<lparr>px_world := w'\<rparr>)"
        have "view (s\<lparr>px_world := w'\<rparr>) = view s" by (simp add: view_def)
        with failed [of e tr "view s" w'] f k Inr l show ?thesis by simp
      next
        fix r tr w' g s2
        assume k: "fetch_and_store (ev_net ev) raw u t2 (view s) ?w = ((Inr r, tr), view s2, px_world s2)" "no_alias s2"
          and t: "turn ev t1 raw (Fetching u) s = (Fetched raw tr g, Storing r, s\<lparr>px_world := w'\<rparr>)"
            "turn ev t2 raw (Storing r) (s\<lparr>px_world := w'\<rparr>) = (Internal, Holding (length (px_heap s)), s2)"
          and e: "px_entries s2 raw = Some \<lparr>er_obj = length (px_heap s), er_fetchedAt = t2, er_ttl = parseTTL\<rparr>"
            "px_heap s2 ! length (px_heap s) = r"
        from turns_answer [OF k(2) e(1) _ assms(2), of r ev t1 t2 ?w tr] assms(3) e(2) f k(1) Inr l t show ?thesis
          by (fastforce simp del: turn_eqs(2,3,4))
      qed
    qed
  qed
qed


subsection \<open>The race on the header map\<close>

text \<open>Two calls use the header map of one object at the same time, and one of them writes to it.\<close>

definition racing :: "'w proxy_sys \<Rightarrow> bool" where
  "racing s \<longleftrightarrow> (\<exists>i j a raw raw'. i \<noteq> j \<and> px_calls s i = Some (raw, Framing a) \<and> px_calls s j = Some (raw', Sending a))"

lemma turn_calls: "turn ev t raw pc s = (e, pc', s') \<Longrightarrow>
    turn ev t raw pc (s\<lparr>px_calls := cs\<rparr>) = (e, pc', s'\<lparr>px_calls := cs\<rparr>)"
  by (cases pc) (auto simp: set_object_header_def split: prod.splits sum.splits)

lemma proxy_run_trans: "proxy_run ev s1 es' s2 \<Longrightarrow> proxy_run ev s0 es s1 \<Longrightarrow> proxy_run ev s0 (es @ es') s2"
proof (induction rule: proxy_run.induct)
  case (more es' s e s')
  then show ?case using proxy_run.more [of ev s0 "es @ es'" s e s'] by simp
qed simp

lemma turns_calls: "turns ev ts raw pc s = (pc', s') \<Longrightarrow>
    turns ev ts raw pc (s\<lparr>px_calls := cs\<rparr>) = (pc', s'\<lparr>px_calls := cs\<rparr>)"
proof (induction ts arbitrary: pc s)
  case (Cons t ts)
  obtain e p u where t: "turn ev t raw pc s = (e, p, u)" by (cases "turn ev t raw pc s")
  with Cons turn_calls [OF t] show ?case by simp
qed simp

text \<open>The turns of one call are steps of the system.\<close>

lemma turns_run:
  "turns ev ts raw pc s = (pc', s') \<Longrightarrow> px_calls s i = Some (raw, pc) \<Longrightarrow>
   \<exists>es. proxy_run ev s es (s'\<lparr>px_calls := (px_calls s)(i \<mapsto> (raw, pc'))\<rparr>)"
proof (induction ts arbitrary: pc s s')
  case Nil
  then have "s'\<lparr>px_calls := (px_calls s)(i \<mapsto> (raw, pc'))\<rparr> = s" by (simp add: map_upd_triv)
  then show ?case using proxy_run.stop [of ev s] by metis
next
  case (Cons t ts)
  obtain e pc1 s1 where t: "turn ev t raw pc s = (e, pc1, s1)" by (cases "turn ev t raw pc s")
  let ?s1 = "s1\<lparr>px_calls := (px_calls s1)(i \<mapsto> (raw, pc1))\<rparr>"
  have c: "px_calls s1 = px_calls s" by (rule turn_rest(1) [OF t])
  have one: "proxy_run ev s [e] ?s1"
    using proxy_run.more [OF proxy_run.stop proxy_step.moves [where s = s, OF Cons.prems(2) t]] by simp
  have "turns ev ts raw pc1 s1 = (pc', s')" using Cons.prems(1) t by simp
  note ih = Cons.IH [OF turns_calls [OF this], of "(px_calls s1)(i \<mapsto> (raw, pc1))"]
  have "\<exists>es. proxy_run ev ?s1 es (s'\<lparr>px_calls := (px_calls s1)(i \<mapsto> (raw, pc'))\<rparr>)"
    using ih by (simp del: fun_upd_apply add: fun_upd_same)
  then obtain es where "proxy_run ev ?s1 es (s'\<lparr>px_calls := (px_calls s1)(i \<mapsto> (raw, pc'))\<rparr>)" ..
  from proxy_run_trans [OF this one, unfolded c] show ?case by blast
qed

text \<open>A call that begins and takes some turns.\<close>

lemma call_run:
  assumes "px_calls s i = None" "turns ev ts raw Checking s = (pc, s')"
  shows "\<exists>es. proxy_run ev s es (s'\<lparr>px_calls := (px_calls s)(i \<mapsto> (raw, pc))\<rparr>)"
proof -
  let ?s = "s\<lparr>px_calls := (px_calls s)(i \<mapsto> (raw, Checking))\<rparr>"
  have b: "proxy_run ev s [Internal] ?s"
    using proxy_run.more [OF proxy_run.stop proxy_step.begins [where s = s and i = i, OF assms(1)]] by simp
  have "turns ev ts raw Checking ?s = (pc, s'\<lparr>px_calls := (px_calls s)(i \<mapsto> (raw, Checking))\<rparr>)"
    by (rule turns_calls [OF assms(2)])
  from turns_run [OF this, of i] obtain es where
    "proxy_run ev ?s es (s'\<lparr>px_calls := (px_calls s)(i \<mapsto> (raw, pc))\<rparr>)" by auto
  from proxy_run_trans [OF this b] show ?thesis by blast
qed

lemma cached_turns:
  assumes "check_url (ev_net ev) (px_cfg s) raw = Inr u" "px_entries s raw = Some e" "\<not> stale e t"
  obtains s1 s2 where
    "turns ev [t, t, t] raw Checking s = (Framing (er_obj e), s1)" "px_cfg s1 = px_cfg s" "px_entries s1 = px_entries s"
    "turns ev [t, t, t, t] raw Checking s = (Sending (er_obj e), s2)"
proof -
  have "px_cfg (set_object_header a k v s') = px_cfg s'" "px_entries (set_object_header a k v s') = px_entries s'"
    for a k v and s' :: "'a proxy_sys"
    by (simp_all add: set_object_header_def)
  with assms that show thesis by simp
qed

text \<open>C22: The race is real: whenever a response is cached, two sessions that ask for it can be brought to a
  state in which one of them is setting headers of the very map that the other one iterates over,
  with no lock held (an access Go's runtime aborts the whole process for), and no network activity
  is needed.\<close>

theorem header_map_race:
  assumes "check_url (ev_net ev) (px_cfg s) raw = Inr u" "px_entries s raw = Some e" "\<not> stale e t"
    and "px_calls s i = None" "px_calls s j = None" "i \<noteq> j"
  shows "\<exists>es s'. proxy_run ev s es s' \<and> racing s'"
proof -
  obtain s1 where s1: "turns ev [t, t, t] raw Checking s = (Framing (er_obj e), s1)" "px_cfg s1 = px_cfg s"
    "px_entries s1 = px_entries s"
    by (rule cached_turns [OF assms(1-3)])
  let ?s1 = "s1\<lparr>px_calls := (px_calls s)(i \<mapsto> (raw, Framing (er_obj e)))\<rparr>"
  obtain es where es: "proxy_run ev s es ?s1" using call_run [OF assms(4) s1(1)] by blast
  have c: "check_url (ev_net ev) (px_cfg ?s1) raw = Inr u" "px_entries ?s1 raw = Some e"
    using s1 assms(1,2) by simp_all
  obtain s2 where s2: "turns ev [t, t, t, t] raw Checking ?s1 = (Sending (er_obj e), s2)"
    by (rule cached_turns [OF c assms(3)])
  let ?s2 = "s2\<lparr>px_calls := (px_calls ?s1)(j \<mapsto> (raw, Sending (er_obj e)))\<rparr>"
  have "px_calls ?s1 j = None" using assms(5,6) by simp
  then obtain es' where "proxy_run ev ?s1 es' ?s2" using call_run [OF _ s2] by blast
  from proxy_run_trans [OF this es] have r: "proxy_run ev s (es @ es') ?s2" .
  have "racing ?s2" using assms(6) unfolding racing_def
    by (intro exI [of _ i] exI [of _ j] exI [of _ "er_obj e"] exI [of _ raw]) simp
  with r show ?thesis by blast
qed

subsection \<open>Witnesses\<close>

lemma demo_turns: "\<exists>out s'. turns demo_env [0, 0, 0, 5, 5, 5, 5] ''http://a.org'' Checking (fresh_proxy demo_cfg 0) = (Finished out, s') \<and>
    px_cfg s' = demo_cfg \<and> px_entries s' ''http://a.org'' = Some \<lparr>er_obj = 0, er_fetchedAt = 5, er_ttl = parseTTL\<rparr>"
proof -
  have "ev_net demo_env = demo_net" by (simp add: demo_env_def)
  then show ?thesis
    by (simp add: fresh_proxy_def demo_check demo_get demo_capture set_object_header_def)
qed

lemma demo_run: "\<exists>es s out. proxy_run demo_env (fresh_proxy demo_cfg 0) es s \<and> px_cfg s = demo_cfg \<and>
    px_calls s 0 = Some (''http://a.org'', Finished out) \<and> (\<forall>k. k \<noteq> 0 \<longrightarrow> px_calls s k = None) \<and>
    px_entries s ''http://a.org'' = Some \<lparr>er_obj = 0, er_fetchedAt = 5, er_ttl = parseTTL\<rparr>"
proof -
  obtain out s' where t: "turns demo_env [0, 0, 0, 5, 5, 5, 5] ''http://a.org'' Checking (fresh_proxy demo_cfg 0) = (Finished out, s')"
    and s: "px_cfg s' = demo_cfg" "px_entries s' ''http://a.org'' = Some \<lparr>er_obj = 0, er_fetchedAt = 5, er_ttl = parseTTL\<rparr>"
    using demo_turns by blast
  have "px_calls (fresh_proxy demo_cfg (0 :: nat)) 0 = None" by (simp add: fresh_proxy_def)
  from call_run [OF this t] obtain es where r: "proxy_run demo_env (fresh_proxy demo_cfg 0) es
    (s'\<lparr>px_calls := (px_calls (fresh_proxy demo_cfg (0 :: nat)))(0 \<mapsto> (''http://a.org'', Finished out))\<rparr>)" by blast
  show ?thesis by (rule exI, rule exI, rule exI, rule conjI, rule r) (simp add: s fresh_proxy_def)
qed



theorem header_map_race_witness:
  "\<exists>es s es' s'. proxy_run demo_env (fresh_proxy demo_cfg 0) es s \<and> proxy_run demo_env s es' s' \<and> racing s'"
proof -
  obtain es s where s: "proxy_run demo_env (fresh_proxy demo_cfg 0) es s" "px_cfg s = demo_cfg"
    "\<And>k. k \<noteq> 0 \<Longrightarrow> px_calls s k = None"
    "px_entries s ''http://a.org'' = Some \<lparr>er_obj = 0, er_fetchedAt = 5, er_ttl = parseTTL\<rparr>"
    using demo_run by blast
  have "check_url (ev_net demo_env) (px_cfg s) ''http://a.org'' = Inr (demo_url ''http://a.org'')"
    using demo_check by (simp add: s demo_env_def)
  moreover have "\<not> stale \<lparr>er_obj = 0, er_fetchedAt = 5, er_ttl = parseTTL\<rparr> 7" by (simp add: stale_def parseTTL_def)
  moreover have "px_calls s 1 = None" "px_calls s 2 = None" "(1 :: nat) \<noteq> 2" using s(3) by simp_all
  ultimately show ?thesis using header_map_race [OF _ s(4), of demo_env _ 7 1 2] s(1) by blast
qed

end
