(* ===== verification/Key_Store.thy ===== *)
theory Key_Store
  imports Auth_Tiers
begin

text \<open>
  The authorized-keys store of \<open>internal/auth/auth.go\<close>: loading and reloading the file, tier
  and comment lookup, and \<open>ClassifyKey\<close>.  The SSH library's functions are the fields of an
  \<open>ssh_lib\<close> argument, the file is what opening and reading it yields.  The read-write lock only
  orders the two map assignments of a reload, which the model makes in one step.
\<close>

subsection \<open>The environment: SSH library and file\<close>

record 'key ssh_lib =
  ParseAuthorizedKey :: "string \<Rightarrow> ('key \<times> string) option"
  FingerprintSHA256 :: "'key \<Rightarrow> string"
  MarshalAuthorizedKey :: "'key \<Rightarrow> string"

text \<open>\<open>Contents b err\<close>: the bytes read, and whether reading then failed.\<close>

datatype file_data = OpenError | Contents string bool

text \<open>\<open>bufio.Scanner\<close> with \<open>ScanLines\<close>: lines without their newline; an empty last line is no
  line; a line longer than the 64 KiB buffer less its delimiter ends the scan with an error.\<close>

definition raw_lines :: "string \<Rightarrow> string list" where
  "raw_lines b = (let ls = Split b LF in if last ls = [] then butlast ls else ls)"

definition dropCR :: "string \<Rightarrow> string" where
  "dropCR l = (if l \<noteq> [] \<and> last l = CR then butlast l else l)"

definition max_line :: nat where "max_line = 65535"

subsection \<open>The code\<close>

record AuthorizedKeys =
  ak_entries :: "string \<rightharpoonup> string"
  ak_comments :: "string \<rightharpoonup> string"
  ak_path :: string

datatype ak_error =
    AK_Opening string
  | AK_TierWithoutKey nat
  | AK_UnknownTier nat string
  | AK_BadKey nat
  | AK_Reading

text \<open>The tier prefix of a line: the tier and the rest of the line.\<close>

definition line_tier :: "nat \<Rightarrow> string \<Rightarrow> ak_error + (string \<times> string)" where
  "line_tier lineNo line =
     (if HasPrefix line ''tier='' then
        (let fs = SplitN2 line SPC in
         if length fs \<noteq> 2 then Inl (AK_TierWithoutKey lineNo)
         else let tierField = TrimPrefix (fs ! 0) ''tier='' in
           if tierField = TierIdentified \<or> tierField = TierTrusted then Inr (tierField, fs ! 1)
           else Inl (AK_UnknownTier lineNo tierField))
      else Inr (TierIdentified, line))"

fun load_lines :: "'key ssh_lib \<Rightarrow> nat \<Rightarrow> string list \<Rightarrow> (string \<rightharpoonup> string) \<Rightarrow> (string \<rightharpoonup> string)
    \<Rightarrow> ak_error + ((string \<rightharpoonup> string) \<times> (string \<rightharpoonup> string))" where
  "load_lines lib lineNo [] entries comments = Inr (entries, comments)"
| "load_lines lib lineNo (raw # ls) entries comments =
     (if length raw > max_line then Inl AK_Reading
      else let lineNo = lineNo + 1; line = TrimSpace (dropCR raw) in
        if line = [] \<or> HasPrefix line ''#'' then load_lines lib lineNo ls entries comments
        else (case line_tier lineNo line of
            Inl e \<Rightarrow> Inl e
          | Inr (tier, rest) \<Rightarrow>
              (case ParseAuthorizedKey lib rest of
                 None \<Rightarrow> Inl (AK_BadKey lineNo)
               | Some (key, comment) \<Rightarrow>
                   let fp = FingerprintSHA256 lib key in
                   load_lines lib lineNo ls (entries(fp \<mapsto> tier))
                     (if comment \<noteq> [] then comments(fp \<mapsto> comment) else comments))))"

definition loadFromDisk :: "'key ssh_lib \<Rightarrow> file_data \<Rightarrow> AuthorizedKeys \<Rightarrow> ak_error + AuthorizedKeys" where
  "loadFromDisk lib f a =
     (case f of
        OpenError \<Rightarrow> Inl (AK_Opening (ak_path a))
      | Contents b err \<Rightarrow>
          (case load_lines lib 0 (raw_lines b) Map.empty Map.empty of
             Inl e \<Rightarrow> Inl e
           | Inr (entries, comments) \<Rightarrow>
               if err then Inl AK_Reading
               else Inr (a\<lparr>ak_entries := entries, ak_comments := comments\<rparr>)))"

definition LoadAuthorizedKeys :: "'key ssh_lib \<Rightarrow> (string \<Rightarrow> file_data) \<Rightarrow> string \<Rightarrow> ak_error + AuthorizedKeys" where
  "LoadAuthorizedKeys lib fs path =
     (let ak = \<lparr>ak_entries = Map.empty, ak_comments = Map.empty, ak_path = path\<rparr> in
      if path = [] then Inr ak else loadFromDisk lib (fs path) ak)"

definition Reload :: "'key ssh_lib \<Rightarrow> (string \<Rightarrow> file_data) \<Rightarrow> AuthorizedKeys option \<Rightarrow> AuthorizedKeys option" where
  "Reload lib fs ak =
     (case ak of
        None \<Rightarrow> None
      | Some a \<Rightarrow> if ak_path a = [] then Some a
          else (case loadFromDisk lib (fs (ak_path a)) a of Inl e \<Rightarrow> Some a | Inr a' \<Rightarrow> Some a'))"

definition Tier :: "'key ssh_lib \<Rightarrow> AuthorizedKeys option \<Rightarrow> 'key option \<Rightarrow> string" where
  "Tier lib ak key =
     (case (ak, key) of
        (Some a, Some k) \<Rightarrow> (case ak_entries a (FingerprintSHA256 lib k) of None \<Rightarrow> [] | Some t \<Rightarrow> t)
      | _ \<Rightarrow> [])"

definition Comment :: "'key ssh_lib \<Rightarrow> AuthorizedKeys option \<Rightarrow> 'key option \<Rightarrow> string" where
  "Comment lib ak key =
     (case (ak, key) of
        (Some a, Some k) \<Rightarrow> (case ak_comments a (FingerprintSHA256 lib k) of None \<Rightarrow> [] | Some c \<Rightarrow> c)
      | _ \<Rightarrow> [])"

definition ClassifyKey :: "'key ssh_lib \<Rightarrow> 'key option \<Rightarrow> AuthConfig \<Rightarrow> AuthorizedKeys option \<Rightarrow> string" where
  "ClassifyKey lib key authCfg ak =
     (if key = None then TierAnonymous
      else let t = Tier lib ak key in if t \<noteq> [] then t else TierIdentified)"


subsection \<open>Invariant and soundness of loading\<close>

text \<open>A store only ever records the two tiers a file can name.\<close>

definition tiers_ok :: "(string \<rightharpoonup> string) \<Rightarrow> bool" where
  "tiers_ok es \<longleftrightarrow> (\<forall>fp t. es fp = Some t \<longrightarrow> t = TierIdentified \<or> t = TierTrusted)"

definition store_ok :: "AuthorizedKeys option \<Rightarrow> bool" where
  "store_ok s \<longleftrightarrow> (case s of None \<Rightarrow> True | Some a \<Rightarrow> tiers_ok (ak_entries a))"

text \<open>The line of a file that puts a fingerprint into a tier.\<close>

definition tier_line :: "'key ssh_lib \<Rightarrow> string \<Rightarrow> string \<Rightarrow> string \<Rightarrow> bool" where
  "tier_line lib raw fp t \<longleftrightarrow>
     (\<exists>n rest key comment. line_tier n (TrimSpace (dropCR raw)) = Inr (t, rest) \<and>
        ParseAuthorizedKey lib rest = Some (key, comment) \<and> FingerprintSHA256 lib key = fp)"

lemma line_tier_known: "line_tier n line = Inr (t, rest) \<Longrightarrow> t = TierIdentified \<or> t = TierTrusted"
  by (auto simp: line_tier_def Let_def split: if_splits)

lemma line_tier_trusted:
  assumes "line_tier n line = Inr (TierTrusted, rest)"
  shows "line = ''tier=trusted '' @ rest"
proof -
  from assms have p: "HasPrefix line ''tier=''" and n: "length (SplitN2 line SPC) = 2"
    and f: "TrimPrefix (SplitN2 line SPC ! 0) ''tier='' = TierTrusted" and r: "rest = SplitN2 line SPC ! 1"
    by (auto simp: line_tier_def Let_def split: if_splits)
  from n obtain i where i: "IndexByte line SPC = Some i"
    by (auto simp: SplitN2_def split: option.splits)
  then have s: "SplitN2 line SPC ! 0 = take i line" "rest = drop (Suc i) line"
    using r by (simp_all add: SplitN2_def)
  have "take i line = ''tier='' @ TierTrusted"
  proof (cases "HasPrefix (take i line) ''tier=''")
    case True
    then obtain u where u: "take i line = ''tier='' @ u" by (auto simp: HasPrefix_iff)
    have "u = TierTrusted"
      using f TrimPrefix_append [of "''tier=''" u] unfolding s(1) u by (rule trans [OF sym, rotated])
    with u show ?thesis by simp
  next
    case False
    with f s have "take i line = ''trusted''" by (simp add: TrimPrefix_def TierTrusted_def)
    with p have False
      using IndexByte_split [OF i] by (auto simp: HasPrefix_iff)
    then show ?thesis ..
  qed
  with s IndexByte_split [OF i] show ?thesis by (simp add: TierTrusted_def)
qed

lemma load_lines_source:
  "load_lines lib n ls es cs = Inr (es', cs') \<Longrightarrow> es' fp = Some t \<Longrightarrow>
     es fp = Some t \<or> (\<exists>raw \<in> set ls. tier_line lib raw fp t)"
proof (induction lib n ls es cs rule: load_lines.induct)
  case (2 lib n raw ls es cs)
  let ?line = "TrimSpace (dropCR raw)"
  from "2.prems"(1) have short: "\<not> length raw > max_line" by auto
  show ?case
  proof (cases "?line = [] \<or> HasPrefix ?line ''#''")
    case True
    with "2.prems" short "2.IH"(1) [OF short refl refl] show ?thesis by (auto simp: Let_def)
  next
    case False
    with "2.prems"(1) short obtain tr rest where lt: "line_tier (n + 1) ?line = Inr (tr, rest)"
      by (auto simp: Let_def split: sum.splits)
    with "2.prems"(1) short False obtain key c where k: "ParseAuthorizedKey lib rest = Some (key, c)"
      by (auto simp: Let_def split: option.splits)
    let ?fp = "FingerprintSHA256 lib key"
    let ?cs = "if c \<noteq> [] then cs(?fp \<mapsto> c) else cs"
    have rec: "load_lines lib (n + 1) ls (es(?fp \<mapsto> tr)) ?cs = Inr (es', cs')"
      using "2.prems"(1) short False lt k by (simp add: Let_def)
    have "(es(?fp \<mapsto> tr)) fp = Some t \<or> (\<exists>raw \<in> set ls. tier_line lib raw fp t)"
      by (rule "2.IH"(2) [OF short refl refl False lt refl k refl refl rec "2.prems"(2)])
    moreover have "tier_line lib raw ?fp tr"
      using lt k unfolding tier_line_def by blast
    ultimately show ?thesis by (auto split: if_splits)
  qed
qed auto

lemma tiers_ok_empty [simp]: "tiers_ok Map.empty"
  by (simp add: tiers_ok_def)

lemma tiers_ok_lookup: "tiers_ok es \<Longrightarrow> es fp = Some t \<Longrightarrow> t = TierIdentified \<or> t = TierTrusted"
  by (simp add: tiers_ok_def)

lemma load_lines_tiers_ok:
  "load_lines lib n ls es cs = Inr (es', cs') \<Longrightarrow> tiers_ok es \<Longrightarrow> tiers_ok es'"
  unfolding tiers_ok_def
  by (meson line_tier_known load_lines_source tier_line_def)

lemma loadFromDisk_ok: "loadFromDisk lib f a = Inr a' \<Longrightarrow> tiers_ok (ak_entries a')"
  by (auto simp: loadFromDisk_def split: file_data.splits sum.splits if_splits prod.splits
      intro: load_lines_tiers_ok)

lemma loadFromDisk_path: "loadFromDisk lib f a = Inr a' \<Longrightarrow> ak_path a' = ak_path a"
  by (auto simp: loadFromDisk_def split: file_data.splits sum.splits if_splits prod.splits)

lemma Tier_known: "store_ok s \<Longrightarrow> Tier lib s k \<in> {[], TierIdentified, TierTrusted}"
  by (auto simp: Tier_def store_ok_def split: option.splits dest!: tiers_ok_lookup)

lemma Reload_ok: "store_ok s \<Longrightarrow> store_ok (Reload lib fs s)"
  by (auto simp: Reload_def store_ok_def loadFromDisk_ok split: option.splits sum.splits)

lemma LoadAuthorizedKeys_ok: "LoadAuthorizedKeys lib fs path = Inr a \<Longrightarrow> store_ok (Some a)"
  by (auto simp: LoadAuthorizedKeys_def store_ok_def Let_def
      split: if_splits intro: loadFromDisk_ok)

subsection \<open>The interface the server's public-key callback relies on\<close>

locale tier_store =
  fixes tier_of :: "'s \<Rightarrow> 'k option \<Rightarrow> string"
    and reload :: "'fs \<Rightarrow> 's \<Rightarrow> 's"
    and good :: "'s \<Rightarrow> bool"
  assumes no_key: "tier_of s None = []"
    and known: "good s \<Longrightarrow> tier_of s k \<in> {[], TierIdentified, TierTrusted}"
    and reload_good: "good s \<Longrightarrow> good (reload f s)"
begin

lemma reloads_good: "good s \<Longrightarrow> good (fold reload fs s)"
  by (induction fs arbitrary: s) (auto intro: reload_good)

text \<open>Whatever the file holds when the key is presented, a key that is not nil gets one of the
  two upper tiers, and the trusted one only if the store says so.\<close>

lemma classify:
  assumes "good s" and "c = (if tier_of (fold reload fs s) (Some k) \<noteq> []
      then tier_of (fold reload fs s) (Some k) else TierIdentified)"
  shows "c \<in> {TierIdentified, TierTrusted}"
    and "c = TierTrusted \<longleftrightarrow> tier_of (fold reload fs s) (Some k) = TierTrusted"
  using known [OF reloads_good [OF assms(1)], of fs "Some k"] assms(2) by (auto split: if_splits)

end

interpretation keys: tier_store "Tier lib" "Reload lib" store_ok for lib :: "'key ssh_lib"
  by unfold_locales (rule Tier_known Reload_ok | assumption | simp add: Tier_def split: option.splits)+


subsection \<open>Properties\<close>


definition demo_ssh :: "string ssh_lib" where
  "demo_ssh = \<lparr>ParseAuthorizedKey = (\<lambda>s. if s = [] then None else Some (s, [])),
     FingerprintSHA256 = (\<lambda>k. k), MarshalAuthorizedKey = (\<lambda>k. k)\<rparr>"

definition demo_keys :: "string \<Rightarrow> file_data" where
  "demo_keys path = Contents ''tier=trusted AAA
ssh BBB'' False"


text \<open>C40: A key is classified as anonymous exactly when none was presented; a presented key is
  identified or trusted, however often the file was reloaded in between and whatever it held
  then.\<close>

theorem classification_total:
  assumes "LoadAuthorizedKeys lib fs0 path = Inr a"
  shows "ClassifyKey lib key cfg (fold (Reload lib) fss (Some a)) =
           (if key = None then TierAnonymous
            else if Tier lib (fold (Reload lib) fss (Some a)) key = TierTrusted then TierTrusted
            else TierIdentified)"
  using keys.reloads_good [OF LoadAuthorizedKeys_ok [OF assms], of lib fss]
    keys.known [of "fold (Reload lib) fss (Some a)" lib key]
  by (auto simp: ClassifyKey_def Let_def)

theorem classification_total_witness:
  "ClassifyKey demo_ssh (Some ''AAA'') zero_AuthConfig (fold (Reload demo_ssh) [demo_keys]
     (Some \<lparr>ak_entries = Map.empty, ak_comments = Map.empty, ak_path = []\<rparr>)) = TierIdentified"
proof -
  have "LoadAuthorizedKeys demo_ssh demo_keys [] =
      Inr \<lparr>ak_entries = Map.empty, ak_comments = Map.empty, ak_path = []\<rparr>"
    by (simp add: LoadAuthorizedKeys_def)
  from classification_total [OF this, of "Some ''AAA''" zero_AuthConfig "[demo_keys]"]
  show ?thesis by (simp add: Reload_def Tier_def)
qed

text \<open>Reloading is atomic: the store becomes exactly what loading the file afresh gives, or,
  when any line is bad or the file cannot be read, it keeps every old entry and comment.\<close>

theorem reload_atomic:
  "Reload lib fs (Some a) =
     (if ak_path a = [] then Some a
      else case LoadAuthorizedKeys lib fs (ak_path a) of Inl e \<Rightarrow> Some a | Inr b \<Rightarrow> Some b)"
proof -
  have "loadFromDisk lib f a = loadFromDisk lib f (\<lparr>ak_entries = Map.empty, ak_comments = Map.empty, ak_path = ak_path a\<rparr>)" for f
    by (cases a) (auto simp: loadFromDisk_def split: file_data.splits sum.splits prod.splits)
  then show ?thesis
    by (simp add: Reload_def LoadAuthorizedKeys_def Let_def)
qed

end
