(* ===== verification/Float64.thy ===== *)
theory Float64
  imports Complex_Main "HOL-Library.Log_Nat"
begin

text \<open>
  IEEE 754 binary64 arithmetic as the rate limiter uses it: a float is a rational number, an
  operation is the exact rational operation followed by \<open>f64\<close>, rounding to 53 significant
  bits, ties to even.  The exponent range is not bounded: the limiter's numbers lie between
  \<open>2 ^ -60\<close> and \<open>2 ^ 110\<close>, far inside it.
\<close>

definition pow2 :: "int \<Rightarrow> rat" where
  "pow2 e = (if 0 \<le> e then 2 ^ nat e else 1 / 2 ^ nat (- e))"

text \<open>The exponent \<open>e\<close> with \<open>pow2 e \<le> x < pow2 (e + 1)\<close>, from the bit lengths of a fraction.\<close>

definition ilog2 :: "rat \<Rightarrow> int" where
  "ilog2 x =
     (let (n, d) = quotient_of x;
          e = int (floorlog 2 (nat n)) - int (floorlog 2 (nat d))
      in if pow2 e \<le> x then e else e - 1)"

definition round_even :: "rat \<Rightarrow> int" where
  "round_even q =
     (let f = \<lfloor>q\<rfloor>; r = q - of_int f in
      if r < 1 / 2 then f else if 1 / 2 < r then f + 1 else if even f then f else f + 1)"

definition f64_pos :: "rat \<Rightarrow> rat" where
  "f64_pos x = (let e = ilog2 x - 52 in of_int (round_even (x / pow2 e)) * pow2 e)"

definition f64 :: "rat \<Rightarrow> rat" where
  "f64 x = (if x = 0 then 0 else if 0 < x then f64_pos x else - f64_pos (- x))"

subsection \<open>Powers of two and exponents\<close>

lemma pow2_powi: "pow2 e = 2 powi e"
  by (simp add: pow2_def power_int_def power_one_over inverse_eq_divide)

lemma pow2_pos [simp]: "0 < pow2 e"
  by (simp add: pow2_def)

lemma pow2_nonneg [simp]: "0 \<le> pow2 e"
  using pow2_pos [of e] by linarith

lemma pow2_neq0 [simp]: "pow2 e \<noteq> 0"
  using pow2_pos [of e] by linarith

lemma pow2_add: "pow2 (a + b) = pow2 a * pow2 b"
  by (simp add: pow2_powi power_int_add)

lemma pow2_nat: "pow2 (int n) = 2 ^ n"
  by (simp add: pow2_def)

lemma pow2_mono: "a \<le> b \<Longrightarrow> pow2 a \<le> pow2 b"
  by (simp add: pow2_powi power_int_increasing)

lemma pow2_strict_mono: "a < b \<Longrightarrow> pow2 a < pow2 b"
  by (simp add: pow2_powi power_int_strict_increasing)

lemma pow2_less_iff: "pow2 a < pow2 b \<longleftrightarrow> a < b"
  using pow2_strict_mono [of a b] pow2_mono [of b a] by (meson leD leI)

lemma pow2_diff: "pow2 (a - b) = pow2 a / pow2 b"
  by (simp add: pow2_powi power_int_diff)

lemma pow2_shift: "2 ^ n * pow2 e = pow2 (int n + e)"
  by (simp add: pow2_add pow2_nat)

lemma pow2_binade: "2 ^ 52 * pow2 (e - 52) = pow2 e" "2 ^ 53 * pow2 (e - 52) = pow2 (e + 1)"
  using pow2_shift [of 52 "e - 52"] pow2_shift [of 53 "e - 52"] by (simp_all add: add.commute)

lemma floorlog2_bounds:
  assumes "0 < n"
  shows "2 ^ floorlog 2 n \<le> 2 * n" and "n < 2 ^ floorlog 2 n"
  using floorlog_bounds [of n 2] assms
  by (cases "floorlog 2 n"; simp)+

lemma floorlog2_rat:
  assumes "0 < n"
  shows "(2::rat) ^ floorlog 2 (nat n) \<le> 2 * of_int n" and "of_int n < (2::rat) ^ floorlog 2 (nat n)"
proof -
  have n: "(of_int n :: rat) = of_nat (nat n)" using assms by simp
  have "(of_nat (2 ^ floorlog 2 (nat n)) :: rat) \<le> of_nat (2 * nat n)"
    "(of_nat (nat n) :: rat) < of_nat (2 ^ floorlog 2 (nat n))"
    using floorlog2_bounds [of "nat n"] assms by (simp_all only: of_nat_le_iff of_nat_less_iff zero_less_nat_eq)
  then show "(2::rat) ^ floorlog 2 (nat n) \<le> 2 * of_int n" "of_int n < (2::rat) ^ floorlog 2 (nat n)"
    unfolding n by simp_all
qed

lemma ilog2_bounds:
  assumes "0 < x"
  shows "pow2 (ilog2 x) \<le> x" and "x < pow2 (ilog2 x + 1)"
proof -
  obtain n d where q: "quotient_of x = (n, d)" by force
  have d: "0 < d" using quotient_of_denom_pos [OF q] .
  have x: "x = of_int n / of_int d" using quotient_of_div [OF q] .
  then have n: "0 < n" using assms d by (simp add: zero_less_divide_iff)
  let ?a = "floorlog 2 (nat n)" and ?b = "floorlog 2 (nat d)"
  let ?e = "int ?a - int ?b"
  note na = floorlog2_rat [OF n] and db = floorlog2_rat [OF d]
  have pe: "pow2 ?e = 2 ^ ?a / 2 ^ ?b" by (simp add: pow2_diff pow2_nat)
  have dr: "(0::rat) < of_int d" using d by simp
  have up: "x < pow2 (?e + 1)"
  proof -
    have "of_int n * (2::rat) ^ ?b \<le> of_int n * (2 * of_int d)"
      using db(1) n by (intro mult_left_mono) auto
    also have "\<dots> < 2 ^ ?a * (2 * of_int d)"
      using na(2) dr by (intro mult_strict_right_mono) auto
    finally show ?thesis
      using dr unfolding x pow2_add [of ?e] pe by (simp add: pow2_nat [of 1, simplified] field_simps)
  qed
  have lo: "pow2 (?e - 1) < x"
  proof -
    have "(2::rat) ^ ?a * of_int d \<le> 2 * of_int n * of_int d"
      using na(1) dr by (intro mult_right_mono) auto
    also have "\<dots> < 2 * of_int n * 2 ^ ?b"
      using db(2) n by (intro mult_strict_left_mono) auto
    finally show ?thesis
      using dr unfolding x pow2_diff [of ?e] pe by (simp add: pow2_nat [of 1, simplified] field_simps)
  qed
  show "pow2 (ilog2 x) \<le> x" and "x < pow2 (ilog2 x + 1)"
    using up lo by (auto simp: ilog2_def q Let_def)
qed

lemma ilog2_unique:
  assumes "0 < x" "pow2 e \<le> x" "x < pow2 (e + 1)"
  shows "ilog2 x = e"
proof -
  have "pow2 (ilog2 x) < pow2 (e + 1)" "pow2 e < pow2 (ilog2 x + 1)"
    using ilog2_bounds [OF assms(1)] assms by linarith+
  then show ?thesis by (simp add: pow2_less_iff)
qed

lemma ilog2_mono: "0 < x \<Longrightarrow> x \<le> y \<Longrightarrow> ilog2 x \<le> ilog2 y"
proof -
  assume "0 < x" "x \<le> y"
  then have "pow2 (ilog2 x) < pow2 (ilog2 y + 1)"
    using ilog2_bounds(1) [of x] ilog2_bounds(2) [of y] by linarith
  then show ?thesis by (simp add: pow2_less_iff)
qed


subsection \<open>Rounding\<close>

lemma round_even_of_int [simp]: "round_even (of_int z) = z"
  by (simp add: round_even_def)

lemma round_even_bounds: "\<lfloor>q\<rfloor> \<le> round_even q" "round_even q \<le> \<lceil>q\<rceil>"
proof -
  show "\<lfloor>q\<rfloor> \<le> round_even q" by (simp add: round_even_def Let_def)
  show "round_even q \<le> \<lceil>q\<rceil>"
  proof (cases "q = of_int \<lfloor>q\<rfloor>")
    case True
    then show ?thesis by (metis ceiling_of_int order_refl round_even_of_int)
  next
    case False
    then have "\<lceil>q\<rceil> = \<lfloor>q\<rfloor> + 1" by (simp add: ceiling_altdef)
    then show ?thesis by (simp add: round_even_def Let_def)
  qed
qed

lemma round_even_mono:
  assumes "p \<le> q"
  shows "round_even p \<le> round_even q"
proof (cases "\<lfloor>p\<rfloor> = \<lfloor>q\<rfloor>")
  case True
  then show ?thesis using assms by (auto simp: round_even_def Let_def)
next
  case False
  then have "\<lfloor>p\<rfloor> + 1 \<le> \<lfloor>q\<rfloor>" using floor_mono [OF assms] by simp
  moreover have "\<lceil>p\<rceil> \<le> \<lfloor>p\<rfloor> + 1" by (simp add: ceiling_altdef)
  ultimately show ?thesis using round_even_bounds [of p] round_even_bounds [of q] by linarith
qed

lemma round_even_ge: "of_int z \<le> q \<Longrightarrow> z \<le> round_even q"
  using round_even_mono [of "of_int z" q] by simp

lemma round_even_le: "q \<le> of_int z \<Longrightarrow> round_even q \<le> z"
  using round_even_mono [of q "of_int z"] by simp

lemma f64_zero [simp]: "f64 0 = 0"
  by (simp add: f64_def)

lemma f64_pos_eq: "0 < x \<Longrightarrow> f64 x = f64_pos x"
  by (simp add: f64_def)

lemma quotient_in_binade:
  assumes "0 < x"
  shows "2 ^ 52 \<le> x / pow2 (ilog2 x - 52)" and "x / pow2 (ilog2 x - 52) < 2 ^ 53"
proof -
  note p = pow2_binade [of "ilog2 x"]
  show "2 ^ 52 \<le> x / pow2 (ilog2 x - 52)"
    using ilog2_bounds(1) [OF assms] p(1) by (simp add: pos_le_divide_eq)
  show "x / pow2 (ilog2 x - 52) < 2 ^ 53"
    using ilog2_bounds(2) [OF assms] p(2) by (simp add: pos_divide_less_eq mult.commute)
qed

text \<open>The significand of a rounded number lies between \<open>2 ^ 52\<close> and \<open>2 ^ 53\<close>.\<close>

lemma f64_significand:
  assumes "0 < x"
  obtains r where "f64 x = of_int r * pow2 (ilog2 x - 52)" "2 ^ 52 \<le> r" "r \<le> 2 ^ 53"
proof
  let ?q = "x / pow2 (ilog2 x - 52)"
  show "f64 x = of_int (round_even ?q) * pow2 (ilog2 x - 52)"
    using assms by (simp add: f64_pos_eq f64_pos_def Let_def)
  show "2 ^ 52 \<le> round_even ?q"
    by (rule round_even_ge) (use quotient_in_binade(1) [OF assms] in simp)
  show "round_even ?q \<le> 2 ^ 53"
    by (rule round_even_le) (use quotient_in_binade(2) [OF assms] in simp)
qed

lemma f64_binade:
  assumes "0 < x"
  shows "pow2 (ilog2 x) \<le> f64 x" and "f64 x \<le> pow2 (ilog2 x + 1)"
proof -
  obtain r where r: "f64 x = of_int r * pow2 (ilog2 x - 52)" "2 ^ 52 \<le> r" "r \<le> 2 ^ 53"
    by (rule f64_significand [OF assms])
  note p = pow2_binade [of "ilog2 x"]
  have "(2 ^ 52 :: rat) \<le> of_int r" "of_int r \<le> (2 ^ 53 :: rat)"
    using r(2,3) by (metis of_int_le_iff of_int_numeral of_int_power)+
  then show "pow2 (ilog2 x) \<le> f64 x" and "f64 x \<le> pow2 (ilog2 x + 1)"
    unfolding r(1) p [symmetric] by (simp_all add: mult_right_mono)
qed

lemma f64_pos_pos: "0 < x \<Longrightarrow> 0 < f64 x"
  using f64_binade(1) [of x] pow2_pos [of "ilog2 x"] by linarith

lemma f64_nonneg [simp]: "0 \<le> x \<Longrightarrow> 0 \<le> f64 x"
  using f64_pos_pos [of x] by (cases "x = 0") auto

lemma f64_mono_pos:
  assumes "0 < x" "x \<le> y"
  shows "f64 x \<le> f64 y"
proof (cases "ilog2 x = ilog2 y")
  case True
  have "round_even (x / pow2 (ilog2 y - 52)) \<le> round_even (y / pow2 (ilog2 y - 52))"
    by (intro round_even_mono divide_right_mono assms) simp
  then show ?thesis
    using assms True by (simp add: f64_pos_eq f64_pos_def Let_def mult_right_mono)
next
  case False
  then have "ilog2 x + 1 \<le> ilog2 y" using ilog2_mono [OF assms] by simp
  then have "pow2 (ilog2 x + 1) \<le> pow2 (ilog2 y)" by (rule pow2_mono)
  then show ?thesis
    using f64_binade(2) [of x] f64_binade(1) [of y] assms by linarith
qed

lemma f64_mono:
  assumes "0 \<le> x" "x \<le> y"
  shows "f64 x \<le> f64 y"
  using assms f64_mono_pos [of x y] f64_nonneg [of y] by (cases "x = 0") auto

text \<open>A number with at most 53 significant bits is not changed.\<close>

lemma f64_exact:
  assumes "0 \<le> m" "m \<le> 2 ^ 53"
  shows "f64 (of_int m * pow2 k) = of_int m * pow2 k"
proof (cases "m = 0")
  case False
  let ?x = "of_int m * pow2 k"
  have x: "0 < ?x" using False assms(1) by simp
  have "\<exists>z. ?x / pow2 (ilog2 ?x - 52) = of_int z"
  proof (cases "m = 2 ^ 53")
    case True
    then have xp: "?x = pow2 (53 + k)" using pow2_shift [of 53 k] by simp
    then have "ilog2 ?x = 53 + k"
      by (intro ilog2_unique x) (simp_all add: pow2_less_iff)
    then have "?x / pow2 (ilog2 ?x - 52) = pow2 52"
      using pow2_diff [of "53 + k" "1 + k"] by (simp add: xp)
    then show ?thesis by (intro exI [of _ "2 ^ 52"]) (simp add: pow2_def)
  next
    case False
    with assms(2) have "m < 2 ^ 53" by simp
    then have "(of_int m :: rat) < 2 ^ 53" by (metis of_int_less_iff of_int_numeral of_int_power)
    then have "?x < 2 ^ 53 * pow2 k" by (rule mult_strict_right_mono) simp
    also have "\<dots> = pow2 (53 + k)" using pow2_shift [of 53 k] by simp
    finally have "?x < pow2 (53 + k)" .
    then have "pow2 (ilog2 ?x) < pow2 (53 + k)" using ilog2_bounds(1) [OF x] by linarith
    then have le: "ilog2 ?x - 52 \<le> k" by (simp add: pow2_less_iff)
    have "?x / pow2 (ilog2 ?x - 52) = of_int m * pow2 (k - (ilog2 ?x - 52))"
      by (simp only: pow2_diff times_divide_eq_right)
    also have "\<dots> = of_int (m * 2 ^ nat (k - (ilog2 ?x - 52)))"
      using le by (simp add: pow2_def)
    finally show ?thesis by blast
  qed
  then obtain z where z: "?x / pow2 (ilog2 ?x - 52) = of_int z" ..
  then have "f64 ?x = of_int z * pow2 (ilog2 ?x - 52)"
    using x by (simp add: f64_pos_eq f64_pos_def Let_def)
  also have "\<dots> = ?x" unfolding z [symmetric] by simp
  finally show ?thesis .
qed simp

lemma f64_of_nat: "n \<le> 2 ^ 53 \<Longrightarrow> f64 (of_nat n) = of_nat n"
  using f64_exact [of "int n" 0] by (simp add: pow2_def)

lemma f64_idem: "0 \<le> x \<Longrightarrow> f64 (f64 x) = f64 x"
proof (cases "x = 0")
  case False
  assume "0 \<le> x"
  with False have "0 < x" by simp
  then obtain r where "f64 x = of_int r * pow2 (ilog2 x - 52)" "2 ^ 52 \<le> r" "r \<le> 2 ^ 53"
    by (rule f64_significand)
  then show ?thesis by (simp add: f64_exact)
qed simp


text \<open>Evaluating a rounding: the exponent, and an integer closer than one half.\<close>

lemma round_even_near: "\<bar>q - of_int r\<bar> < 1 / 2 \<Longrightarrow> round_even q = r"
proof -
  assume near: "\<bar>q - of_int r\<bar> < 1 / 2"
  show "round_even q = r"
  proof (cases "of_int r \<le> q")
    case True
    with near have "\<lfloor>q\<rfloor> = r" by (intro floor_unique) auto
    with near True show ?thesis by (simp add: round_even_def Let_def)
  next
    case False
    with near have "\<lfloor>q\<rfloor> = r - 1" by (intro floor_unique) auto
    with near False show ?thesis by (simp add: round_even_def Let_def)
  qed
qed

lemma f64_eval:
  assumes "0 < x" "pow2 e \<le> x" "x < pow2 (e + 1)" "\<bar>x / pow2 (e - 52) - of_int r\<bar> < 1 / 2"
  shows "f64 x = of_int r * pow2 (e - 52)"
  using assms round_even_near [OF assms(4)]
  by (simp add: f64_pos_eq f64_pos_def ilog2_unique Let_def)

end
