(* ===== verification/Rate_Limit.thy ===== *)
theory Rate_Limit
  imports Float64 Auth_Tiers
begin

text \<open>
  The token buckets of \<open>internal/ratelimit/ratelimit.go\<close>.  Floats are \<open>f64\<close>-rounded rationals
  (without fused multiply-add), times are nanoseconds of the monotonic clock, and the limiter's
  mutex makes each \<open>Allow\<close> one step.  The locale \<open>request_gate\<close> is what the server's sessions
  rely on.
\<close>

subsection \<open>The code\<close>

record bucket =
  b_rate :: rat
  b_capacity :: rat
  b_tokens :: rat
  b_last :: int

type_synonym Limiter = "string \<rightharpoonup> bucket"

definition unlimited_bucket :: bucket where
  "unlimited_bucket = \<lparr>b_rate = 0, b_capacity = 0, b_tokens = 0, b_last = 0\<rparr>"

definition unit_seconds :: "string \<Rightarrow> nat option" where
  "unit_seconds u =
     (if u = ''sec'' \<or> u = ''second'' \<or> u = ''s'' then Some 1
      else if u = ''min'' \<or> u = ''minute'' \<or> u = ''m'' then Some 60
      else if u = ''hour'' \<or> u = ''h'' then Some 3600
      else if u = ''day'' \<or> u = ''d'' then Some 86400
      else None)"

definition parseBucket :: "string \<Rightarrow> int \<Rightarrow> bucket" where
  "parseBucket raw now =
     (let spec = TrimSpace raw in
      if spec = [] \<or> spec = ''unlimited'' then unlimited_bucket
      else (case IndexByte spec CHR ''/'' of
          None \<Rightarrow> unlimited_bucket
        | Some slash \<Rightarrow>
            (case Atoi (TrimSpace (take slash spec)) of (count, ok) \<Rightarrow>
               if \<not> ok \<or> count \<le> 0 then unlimited_bucket
               else (case unit_seconds (ToLower (TrimSpace (drop (slash + 1) spec))) of
                   None \<Rightarrow> unlimited_bucket
                 | Some seconds \<Rightarrow>
                     \<lparr>b_rate = f64 (f64 (of_int count) / of_nat seconds),
                      b_capacity = f64 (of_int count),
                      b_tokens = f64 (of_int count),
                      b_last = now\<rparr>))))"

definition New :: "LimitsConfig \<Rightarrow> int \<Rightarrow> Limiter" where
  "New cfg now =
     [TierAnonymous \<mapsto> parseBucket (lc_Anonymous cfg) now,
      TierIdentified \<mapsto> parseBucket (lc_Identified cfg) now,
      TierTrusted \<mapsto> parseBucket (lc_Trusted cfg) now]"

text \<open>\<open>time.Time.Sub\<close> saturates at the bounds of a 64-bit duration; \<open>Duration.Seconds\<close> adds the
  whole seconds and the rest as floats, with division truncating towards zero.\<close>

definition duration :: "int \<Rightarrow> int \<Rightarrow> int" where
  "duration now past = max min_int64 (min max_int64 (now - past))"

definition quot :: "int \<Rightarrow> int \<Rightarrow> int" where
  "quot a b = sgn a * sgn b * (\<bar>a\<bar> div \<bar>b\<bar>)"

definition seconds_of :: "int \<Rightarrow> rat" where
  "seconds_of d =
     (let sec = quot d 1000000000; nsec = d - sec * 1000000000
      in f64 (f64 (of_int sec) + f64 (f64 (of_int nsec) / 1000000000)))"

definition refill :: "bucket \<Rightarrow> int \<Rightarrow> rat" where
  "refill b now =
     (let t = f64 (b_tokens b + f64 (seconds_of (duration now (b_last b)) * b_rate b))
      in if b_capacity b < t then b_capacity b else t)"

definition take_token :: "bucket \<Rightarrow> int \<Rightarrow> bool \<times> bucket" where
  "take_token b now =
     (let t = refill b now; b = b\<lparr>b_last := now\<rparr> in
      if t < 1 then (False, b\<lparr>b_tokens := t\<rparr>) else (True, b\<lparr>b_tokens := f64 (t - 1)\<rparr>))"

definition Allow :: "Limiter option \<Rightarrow> string \<Rightarrow> int \<Rightarrow> bool \<times> Limiter option" where
  "Allow l tier now =
     (case l of
        None \<Rightarrow> (True, None)
      | Some m \<Rightarrow>
          (case m tier of
             None \<Rightarrow> (True, Some m)
           | Some b \<Rightarrow>
               if b_rate b = 0 then (True, Some m)
               else (case take_token b now of (ok, b') \<Rightarrow> (ok, Some (m(tier \<mapsto> b'))))))"

text \<open>Requests in the order in which they take the mutex: each is a tier and the clock reading.\<close>

fun gate_run :: "('s \<Rightarrow> string \<Rightarrow> int \<Rightarrow> bool \<times> 's) \<Rightarrow> 's \<Rightarrow> (string \<times> int) list \<Rightarrow> (string \<times> bool) list \<times> 's" where
  "gate_run gate s [] = ([], s)"
| "gate_run gate s ((tier, now) # rs) =
     (case gate s tier now of (ok, s') \<Rightarrow>
        (case gate_run gate s' rs of (vs, s'') \<Rightarrow> ((tier, ok) # vs, s'')))"

lemma gate_run_Cons: "gate_run gate s ((tier, now) # rs) =
    ((tier, fst (gate s tier now)) # fst (gate_run gate (snd (gate s tier now)) rs),
     snd (gate_run gate (snd (gate s tier now)) rs))"
  by (simp split: prod.split)

declare gate_run.simps(2) [simp del]

lemma gate_run_append: "fst (gate_run gate s (rs @ qs)) =
    fst (gate_run gate s rs) @ fst (gate_run gate (snd (gate_run gate s rs)) qs)"
  by (induction rs arbitrary: s) (auto simp: gate_run_Cons)

definition clock_from :: "int \<Rightarrow> (string \<times> int) list \<Rightarrow> bool" where
  "clock_from t rs \<longleftrightarrow> sorted (t # map snd rs)"

subsection \<open>Interfaces\<close>

text \<open>A gate in which a tier's verdicts depend on that tier's part of the state only.\<close>

locale request_gate =
  fixes gate :: "'s \<Rightarrow> string \<Rightarrow> int \<Rightarrow> bool \<times> 's"
    and view :: "'s \<Rightarrow> string \<Rightarrow> 'v"
  assumes frame: "u \<noteq> t \<Longrightarrow> view (snd (gate s u now)) t = view s t"
    and own_verdict: "view s t = view s' t \<Longrightarrow> fst (gate s t now) = fst (gate s' t now)"
    and own_view: "view s t = view s' t \<Longrightarrow>
      view (snd (gate s t now)) t = view (snd (gate s' t now)) t"
begin

text \<open>No interference: leaving out the requests of all other tiers changes no verdict.\<close>

lemma run_isolated:
  "view s t = view s' t \<Longrightarrow>
     filter (\<lambda>v. fst v = t) (fst (gate_run gate s rs)) =
     fst (gate_run gate s' (filter (\<lambda>r. fst r = t) rs))"
proof (induction rs arbitrary: s s')
  case (Cons r rs)
  obtain u now where r: "r = (u, now)" by force
  show ?case
  proof (cases "u = t")
    case True
    from Cons.IH [OF own_view [OF Cons.prems]] own_verdict [OF Cons.prems] show ?thesis
      by (simp add: r True gate_run_Cons)
  next
    case False
    from frame [OF this] Cons.prems have "view (snd (gate s u now)) t = view s' t" by simp
    from Cons.IH [OF this] False show ?thesis by (simp add: r gate_run_Cons)
  qed
qed simp

end

locale timed_gate = request_gate +
  fixes good :: "int \<Rightarrow> 's \<Rightarrow> bool"
  assumes good_step: "good t0 s \<Longrightarrow> t0 \<le> now \<Longrightarrow> good now (snd (gate s t now))"
begin

lemma run_good:
  "good t0 s \<Longrightarrow> clock_from t0 rs \<Longrightarrow> good (last (t0 # map snd rs)) (snd (gate_run gate s rs))"
proof (induction rs arbitrary: s t0)
  case (Cons r rs)
  obtain u now where r: "r = (u, now)" by force
  with Cons.prems have "good now (snd (gate s u now))" "clock_from now rs"
    by (auto simp: clock_from_def intro: good_step)
  from Cons.IH [OF this] show ?case by (simp add: r gate_run_Cons)
qed simp

end

subsection \<open>Float facts of one bucket step\<close>

lemma quot_nonneg: "0 \<le> a \<Longrightarrow> 0 < b \<Longrightarrow> quot a b = a div b"
  by (cases "a = 0") (auto simp: quot_def)

lemma duration_nonneg: "past \<le> now \<Longrightarrow> 0 \<le> duration now past"
  by (simp add: duration_def max_int64_def)

lemma seconds_of_ge:
  assumes "of_nat n * 1000000000 \<le> d" "n \<le> 2 ^ 53"
  shows "of_nat n \<le> seconds_of d"
proof -
  have d: "0 \<le> d" using assms(1) by simp
  let ?sec = "d div 1000000000"
  let ?frac = "f64 (f64 (of_int (d - ?sec * 1000000000)) / 1000000000)"
  have s: "int n \<le> ?sec" using assms(1) by simp
  have "0 \<le> d - ?sec * 1000000000" using pos_mod_sign [of 1000000000 d]
    unfolding minus_div_mult_eq_mod by simp
  then have "(0::rat) \<le> of_int (d - ?sec * 1000000000)" by (rule of_int_nonneg)
  then have frac: "0 \<le> ?frac" by (intro f64_nonneg divide_nonneg_nonneg) simp_all
  have "of_nat n = f64 (of_nat n)" using assms(2) by (simp add: f64_of_nat)
  also have "\<dots> \<le> f64 (of_int ?sec)"
  proof (rule f64_mono)
    show "(of_nat n :: rat) \<le> of_int ?sec" using s by (metis of_int_le_iff of_int_of_nat_eq)
  qed simp
  also have "\<dots> \<le> f64 (of_int ?sec) + ?frac"
    using frac by linarith
  finally have le: "of_nat n \<le> \<dots>" .
  have "of_nat n = f64 (of_nat n)" using assms(2) by (simp add: f64_of_nat)
  also have "\<dots> \<le> f64 (f64 (of_int ?sec) + ?frac)"
    by (rule f64_mono) (use le in auto)
  finally show ?thesis using d by (simp add: seconds_of_def quot_nonneg Let_def)
qed

lemma seconds_of_nonneg: "0 \<le> d \<Longrightarrow> 0 \<le> seconds_of d"
  using seconds_of_ge [of 0 d] by simp

lemma seconds_of_zero: "seconds_of 0 = 0"
  by (simp add: seconds_of_def quot_def Let_def)

text \<open>The bucket invariant: an unlimited bucket, or one whose tokens are a float between 0 and
  the capacity.\<close>

definition bucket_ok :: "int \<Rightarrow> bucket \<Rightarrow> bool" where
  "bucket_ok now b \<longleftrightarrow> b_rate b = 0 \<or>
     (0 < b_rate b \<and> 0 \<le> b_tokens b \<and> b_tokens b \<le> b_capacity b \<and> 1 \<le> b_capacity b \<and>
      f64 (b_tokens b) = b_tokens b \<and> f64 (b_capacity b) = b_capacity b \<and> b_last b \<le> now)"

definition limiter_ok :: "int \<Rightarrow> Limiter option \<Rightarrow> bool" where
  "limiter_ok now l \<longleftrightarrow> (\<forall>m t b. l = Some m \<longrightarrow> m t = Some b \<longrightarrow> bucket_ok now b)"

lemma refill_bounds:
  assumes "bucket_ok t0 b" "b_rate b \<noteq> 0" "t0 \<le> now"
  shows "b_tokens b \<le> refill b now" and "refill b now \<le> b_capacity b"
    and "f64 (refill b now) = refill b now"
proof -
  let ?r = "f64 (seconds_of (duration now (b_last b)) * b_rate b)"
  have b: "0 < b_rate b" "0 \<le> b_tokens b" "b_tokens b \<le> b_capacity b" "f64 (b_tokens b) = b_tokens b"
    "f64 (b_capacity b) = b_capacity b" "b_last b \<le> now"
    using assms by (auto simp: bucket_ok_def)
  then have r: "0 \<le> ?r"
    by (intro f64_nonneg mult_nonneg_nonneg seconds_of_nonneg duration_nonneg) auto
  then have "b_tokens b \<le> f64 (b_tokens b + ?r)"
    using b f64_mono [of "b_tokens b" "b_tokens b + ?r"] by simp
  then show "b_tokens b \<le> refill b now" using b by (simp add: refill_def Let_def)
  show "refill b now \<le> b_capacity b" by (simp add: refill_def Let_def)
  show "f64 (refill b now) = refill b now"
    using b r by (simp add: refill_def Let_def f64_idem)
qed

lemma take_token_ok:
  assumes "bucket_ok t0 b" "b_rate b \<noteq> 0" "t0 \<le> now"
  shows "bucket_ok now (snd (take_token b now))"
proof -
  have b: "0 < b_rate b" "0 \<le> b_tokens b" "1 \<le> b_capacity b" "f64 (b_capacity b) = b_capacity b"
    using assms by (auto simp: bucket_ok_def)
  note r = refill_bounds [OF assms]
  have "f64 (refill b now - 1) \<le> b_capacity b" if "1 \<le> refill b now"
    using that r b f64_mono [of "refill b now - 1" "b_capacity b"] by simp
  with b r show ?thesis
    by (auto simp: take_token_def Let_def bucket_ok_def f64_idem)
qed


lemma take_token_rates:
  "b_rate (snd (take_token b now)) = b_rate b" "b_capacity (snd (take_token b now)) = b_capacity b"
  by (simp_all add: take_token_def Let_def)

subsection \<open>The limiter provides the interface\<close>

definition bucket_of :: "Limiter option \<Rightarrow> string \<Rightarrow> bucket option" where
  "bucket_of l t = (case l of None \<Rightarrow> None | Some m \<Rightarrow> m t)"

definition rates :: "Limiter option \<Rightarrow> string \<Rightarrow> (rat \<times> rat) option" where
  "rates l t = map_option (\<lambda>b. (b_rate b, b_capacity b)) (bucket_of l t)"

lemma Allow_bucket: "fst (Allow l t now) =
    (case bucket_of l t of None \<Rightarrow> True | Some b \<Rightarrow> b_rate b = 0 \<or> fst (take_token b now))"
  by (auto simp: Allow_def bucket_of_def split: option.splits prod.splits)

lemma bucket_of_Allow: "bucket_of (snd (Allow l t now)) u =
    (if u = t then map_option (\<lambda>b. if b_rate b = 0 then b else snd (take_token b now)) (bucket_of l t)
     else bucket_of l u)"
  by (auto simp: Allow_def bucket_of_def split: option.splits prod.splits)

lemma limiter_ok_iff: "limiter_ok now l \<longleftrightarrow> (\<forall>t b. bucket_of l t = Some b \<longrightarrow> bucket_ok now b)"
  by (auto simp: limiter_ok_def bucket_of_def split: option.splits)

lemma bucket_ok_later: "bucket_ok t0 b \<Longrightarrow> t0 \<le> now \<Longrightarrow> bucket_ok now b"
  by (auto simp: bucket_ok_def)

lemma Allow_ok:
  assumes "limiter_ok t0 l" "t0 \<le> now"
  shows "limiter_ok now (snd (Allow l t now))"
  using assms
  by (auto simp: limiter_ok_iff bucket_of_Allow intro: take_token_ok bucket_ok_later split: if_splits)

lemma Allow_rates: "rates (snd (Allow l t now)) = rates l"
  by (auto simp: rates_def bucket_of_Allow take_token_rates option.map_comp comp_def
      intro!: ext option.map_cong)

interpretation limiter: timed_gate Allow bucket_of "\<lambda>now l. limiter_ok now l \<and> rates l = R" for R
proof unfold_locales
  fix s :: "Limiter option" and u t now
  show "u \<noteq> t \<Longrightarrow> bucket_of (snd (Allow s u now)) t = bucket_of s t"
    by (simp add: bucket_of_Allow)
next
  fix s s' :: "Limiter option" and t now
  assume "bucket_of s t = bucket_of s' t"
  then show "fst (Allow s t now) = fst (Allow s' t now)"
    and "bucket_of (snd (Allow s t now)) t = bucket_of (snd (Allow s' t now)) t"
    by (simp_all add: Allow_bucket bucket_of_Allow)
next
  fix t0 s and now :: int and t
  assume "limiter_ok t0 s \<and> rates s = R" "t0 \<le> now"
  then show "limiter_ok now (snd (Allow s t now)) \<and> rates (snd (Allow s t now)) = R"
    by (auto simp: Allow_rates intro: Allow_ok)
qed

subsection \<open>Parsing a rate\<close>

lemma f64_ge_1: "1 \<le> x \<Longrightarrow> 1 \<le> f64 x"
  using f64_mono [of 1 x] f64_of_nat [of 1] by simp

lemma unit_seconds_pos: "unit_seconds u = Some s \<Longrightarrow> 0 < s"
  by (auto simp: unit_seconds_def split: if_splits)

lemma parseBucket_ok: "bucket_ok now (parseBucket raw now)"
proof -
  have "1 \<le> count \<Longrightarrow> 1 \<le> f64 (of_int count)" for count
    by (rule f64_ge_1) simp
  moreover have "1 \<le> count \<Longrightarrow> 0 < s \<Longrightarrow> 0 < f64 (f64 (of_int count) / of_nat s)" for count s
    by (intro f64_pos_pos divide_pos_pos) simp_all
  ultimately show ?thesis
    by (auto simp: parseBucket_def bucket_ok_def unlimited_bucket_def Let_def f64_idem
        dest!: unit_seconds_pos split: option.splits prod.splits)
qed

lemma New_ok: "limiter_ok now (Some (New cfg now))"
  by (auto simp: limiter_ok_def New_def parseBucket_ok split: if_splits)

definition rate_units :: "string list" where
  "rate_units = [''sec'', ''second'', ''s'', ''min'', ''minute'', ''m'', ''hour'', ''h'', ''day'', ''d'']"

lemma show_int_of_nat: "show_int (int n) = show_nat n"
  by (simp add: show_int_def)

lemma rate_unit_facts:
  assumes "u \<in> set rate_units"
  shows "TrimSpace u = u" "ToLower u = u" "u \<noteq> []" "ascii (last u)" "\<not> is_space (last u)" "\<exists>s. unit_seconds u = Some s"
proof -
  have "list_all trimmed rate_units" by (simp add: rate_units_def trimmed_def is_space_def ascii_def)
  moreover have "list_all (\<lambda>u. ToLower u = u) rate_units"
    by (simp add: rate_units_def ToLower_def lower_char_def upper_letters_def lower_letters_def ascii_def)
  moreover have "list_all (\<lambda>u. u \<noteq> [] \<and> ascii (last u) \<and> \<not> is_space (last u) \<and> unit_seconds u \<noteq> None) rate_units"
    by (simp add: rate_units_def is_space_def unit_seconds_def ascii_def)
  ultimately show "TrimSpace u = u" "ToLower u = u" "u \<noteq> []" "ascii (last u)" "\<not> is_space (last u)"
    "\<exists>s. unit_seconds u = Some s"
    using assms by (auto simp: list_all_iff TrimSpace_trimmed)
qed

lemma parseBucket_rate:
  assumes "u \<in> set rate_units" "unit_seconds u = Some s" "0 < n" "int n \<le> max_int64"
  shows "parseBucket (show_nat n @ ''/'' @ u) now =
    \<lparr>b_rate = f64 (f64 (of_nat n) / of_nat s), b_capacity = f64 (of_nat n),
     b_tokens = f64 (of_nat n), b_last = now\<rparr>"
proof -
  note u = rate_unit_facts [OF assms(1)]
  let ?n = "show_nat n" and ?raw = "show_nat n @ ''/'' @ u"
  have dig: "list_all is_digit ?n" by (rule show_nat_digits)
  have hd: "hd ?n \<in> set ?n" "is_digit (hd ?n)"
    using dig by (auto simp: list_all_iff)
  have raw: "TrimSpace ?raw = ?raw"
    by (rule TrimSpace_trimmed, rule trimmed_ascii) (use hd u in \<open>auto simp: is_digit_plain\<close>)
  have slash: "CHR ''/'' \<notin> set ?n"
    using dig by (auto simp: list_all_iff is_digit_def)
  have "hd ?raw \<noteq> hd ''unlimited''"
    using hd by (auto simp: is_digit_def)
  then have unl: "?raw \<noteq> ''unlimited''" by metis
  have "Atoi ?n = (int n, True)"
    using Atoi_show_int [of "int n"] assms(4) by (simp add: show_int_of_nat min_int64_def)
  then show ?thesis
    using raw unl slash u assms(2,3)
    by (simp add: parseBucket_def Let_def IndexByte_append TrimSpace_trimmed [OF digits_trimmed [OF dig]])
qed


subsection \<open>Bursts and refilling\<close>

definition limit_spec :: "LimitsConfig \<Rightarrow> tier \<Rightarrow> string" where
  "limit_spec cfg t = (case t of Anonymous \<Rightarrow> lc_Anonymous cfg | Identified \<Rightarrow> lc_Identified cfg
     | Trusted \<Rightarrow> lc_Trusted cfg)"

lemma bucket_of_New: "bucket_of (Some (New cfg now)) (tier_name t) = Some (parseBucket (limit_spec cfg t) now)"
  by (cases t) (simp_all add: bucket_of_def New_def limit_spec_def)

lemma refill_now:
  assumes "b_tokens b = of_nat m" "b_last b = now" "b_capacity b = of_nat n" "m \<le> n" "n \<le> 2 ^ 53"
  shows "refill b now = of_nat m"
  using assms f64_of_nat [of m] by (simp add: refill_def duration_def max_int64_def min_int64_def seconds_of_zero)

text \<open>A bucket holding \<open>m\<close> whole tokens admits the next \<open>m\<close> simultaneous requests and no more.\<close>

lemma burst_run:
  assumes "bucket_of l t = Some b" "b_rate b \<noteq> 0" "b_last b = now" "b_capacity b = of_nat n" "n \<le> 2 ^ 53"
    "b_tokens b = of_nat m" "m \<le> n"
  shows "map snd (fst (gate_run Allow l (replicate (m + k) (t, now)))) = replicate m True @ replicate k False"
  using assms
proof (induction "m + k" arbitrary: l b m k)
  case 0
  then show ?case by simp
next
  case (Suc j)
  have r: "refill b now = of_nat m" by (rule refill_now) fact+
  obtain ok l' where a: "Allow l t now = (ok, l')" by force
  have ok: "ok = (0 < m)"
    using Allow_bucket [of l t now] Suc.prems a r by (cases m) (auto simp: take_token_def)
  let ?b = "snd (take_token b now)"
  have b': "bucket_of l' t = Some ?b"
    using bucket_of_Allow [of l t now t] Suc.prems a by simp
  have same: "b_rate ?b \<noteq> 0" "b_last ?b = now" "b_capacity ?b = of_nat n"
    using Suc.prems by (auto simp: take_token_def Let_def)
  show ?case
  proof (cases m)
    case 0
    with Suc.hyps(2) have k: "k = Suc j" by simp
    have "b_tokens ?b = of_nat 0" using r 0 by (simp add: take_token_def)
    from Suc.hyps(1) [of 0 j l' ?b, OF _ b' same Suc.prems(5) this] 0 k a ok
    show ?thesis by (simp add: gate_run_Cons)
  next
    case (Suc m')
    with Suc.hyps(2) have j: "j = m' + k" by simp
    have "b_tokens ?b = of_nat m'"
      using r Suc Suc.prems f64_of_nat [of m'] by (simp add: take_token_def)
    from Suc.hyps(1) [of m' k l' ?b, OF j b' same Suc.prems(5) this] Suc Suc.prems(7) a ok
    show ?thesis by (simp add: gate_run_Cons)
  qed
qed

text \<open>Rounding \<open>1 / 60\<close>, \<open>1 / 3600\<close> and \<open>1 / 86400\<close> loses so little that the product with the
  number of seconds rounds back to one.\<close>

lemma unit_fraction:
  assumes "unit_seconds u = Some s"
  shows "f64 (of_nat s * f64 (1 / of_nat s)) = 1"
proof -
  have one: "f64 (1 * f64 (1 / 1)) = 1" using f64_of_nat [of 1] by simp
  have a: "f64 (1 / 60) = of_int 4803839602528529 * pow2 (- 6 - 52)"
    by (rule f64_eval) (simp_all add: pow2_def)
  have b: "f64 (60 * (of_int 4803839602528529 * pow2 (- 6 - 52))) = of_int (2 ^ 53) * pow2 (- 1 - 52)"
    by (rule f64_eval) (simp_all add: pow2_def)
  have m: "f64 (60 * f64 (1 / 60)) = 1" unfolding a b by (simp add: pow2_def)
  have a: "f64 (1 / 3600) = of_int 5124095576030431 * pow2 (- 12 - 52)"
    by (rule f64_eval) (simp_all add: pow2_def)
  have b: "f64 (3600 * (of_int 5124095576030431 * pow2 (- 12 - 52))) = of_int (2 ^ 53) * pow2 (- 1 - 52)"
    by (rule f64_eval) (simp_all add: pow2_def)
  have h: "f64 (3600 * f64 (1 / 3600)) = 1" unfolding a b by (simp add: pow2_def)
  have a: "f64 (1 / 86400) = of_int 6832127434707241 * pow2 (- 17 - 52)"
    by (rule f64_eval) (simp_all add: pow2_def)
  have b: "f64 (86400 * (of_int 6832127434707241 * pow2 (- 17 - 52))) = of_int (2 ^ 53) * pow2 (- 1 - 52)"
    by (rule f64_eval) (simp_all add: pow2_def)
  have d: "f64 (86400 * f64 (1 / 86400)) = 1" unfolding a b by (simp add: pow2_def)
  show ?thesis using assms one m h d by (auto simp: unit_seconds_def split: if_splits)
qed

lemma unit_seconds_le: "unit_seconds u = Some s \<Longrightarrow> s \<le> 86400"
  by (auto simp: unit_seconds_def split: if_splits)

text \<open>After one whole unit there is at least one token, whatever rounding did.\<close>

lemma unit_refills:
  assumes b: "bucket_ok t0 b" "b_rate b = f64 (f64 (of_nat n) / of_nat s)" "0 < n"
    and u: "unit_seconds u = Some s" and late: "t0 + int s * 1000000000 \<le> now"
  shows "fst (take_token b now)"
proof -
  have s: "0 < s" "s \<le> 86400" using unit_seconds_pos [OF u] unit_seconds_le [OF u] .
  have n: "1 \<le> f64 (of_nat n)" using b(3) by (intro f64_ge_1) simp
  have rate: "f64 (1 / of_nat s) \<le> b_rate b" "0 < b_rate b"
    unfolding b(2) using n s by (auto intro!: f64_mono f64_pos_pos divide_right_mono)
  then have inv: "0 \<le> b_tokens b" "1 \<le> b_capacity b" "b_last b \<le> t0"
    using b(1) by (auto simp: bucket_ok_def)
  let ?d = "duration now (b_last b)"
  have "of_nat s \<le> seconds_of ?d"
  proof (rule seconds_of_ge)
    show "int s * 1000000000 \<le> ?d"
      using late inv(3) s by (auto simp: duration_def max_int64_def)
  qed (use s in simp)
  then have "of_nat s * f64 (1 / of_nat s) \<le> seconds_of ?d * b_rate b"
    using rate s by (intro mult_mono) auto
  then have "1 \<le> f64 (seconds_of ?d * b_rate b)"
    using f64_mono [of "of_nat s * f64 (1 / of_nat s)" "seconds_of ?d * b_rate b"] unit_fraction [OF u] s
    by simp
  then have "1 \<le> f64 (b_tokens b + f64 (seconds_of ?d * b_rate b))"
    using inv by (intro f64_ge_1) linarith
  with inv have "1 \<le> refill b now" by (simp add: refill_def Let_def)
  then show ?thesis by (simp add: take_token_def Let_def)
qed

subsection \<open>Properties\<close>

text \<open>C31: In every history of requests with a monotonic clock, each limited bucket of a limiter made
  by \<open>New\<close> holds between 0 and its capacity in tokens, float rounding included, and its rate and
  capacity are those of the configuration.\<close>

theorem bucket_invariant:
  assumes "clock_from t0 rs" and "l = snd (gate_run Allow (Some (New cfg t0)) rs)"
    and "bucket_of l (tier_name t) = Some b" and "b_rate b \<noteq> 0"
  shows "0 \<le> b_tokens b \<and> b_tokens b \<le> b_capacity b \<and>
    b_rate b = b_rate (parseBucket (limit_spec cfg t) t0) \<and>
    b_capacity b = b_capacity (parseBucket (limit_spec cfg t) t0)"
proof -
  have g: "limiter_ok (last (t0 # map snd rs)) l \<and> rates l = rates (Some (New cfg t0))"
    unfolding assms(2) by (rule limiter.run_good) (simp_all add: New_ok assms(1))
  with assms(3,4) have "0 \<le> b_tokens b \<and> b_tokens b \<le> b_capacity b"
    by (auto simp: limiter_ok_iff bucket_ok_def)
  moreover from g have "rates l (tier_name t) = rates (Some (New cfg t0)) (tier_name t)" by simp
  ultimately show ?thesis
    using assms(3) by (simp add: rates_def bucket_of_New)
qed

definition demo_limits :: LimitsConfig where
  "demo_limits = \<lparr>lc_Anonymous = ''2/min'', lc_Identified = ''300/min'', lc_Trusted = ''unlimited''\<rparr>"

theorem bucket_invariant_witness:
  "\<exists>b. bucket_of (snd (gate_run Allow (Some (New demo_limits 0)) [(TierAnonymous, 5)])) TierAnonymous = Some b
     \<and> 0 \<le> b_tokens b \<and> b_tokens b \<le> b_capacity b"
proof -
  let ?l = "snd (gate_run Allow (Some (New demo_limits 0)) [(TierAnonymous, 5)])"
  let ?b0 = "parseBucket ''2/min'' 0"
  have b0: "?b0 = \<lparr>b_rate = f64 (f64 2 / 60), b_capacity = f64 2, b_tokens = f64 2, b_last = 0\<rparr>"
    by code_simp
  have r: "b_rate ?b0 \<noteq> 0"
    using f64_pos_pos [of "f64 2 / 60"] f64_pos_pos [of 2] by (simp add: b0)
  have b: "bucket_of ?l (tier_name Anonymous) = Some (snd (take_token ?b0 5))"
    using bucket_of_Allow [of "Some (New demo_limits 0)" TierAnonymous 5 TierAnonymous]
      bucket_of_New [of demo_limits 0 Anonymous] r
    by (simp add: limit_spec_def demo_limits_def gate_run_Cons)
  have "b_rate (snd (take_token ?b0 5)) \<noteq> 0" using r by (simp add: take_token_rates)
  from bucket_invariant [OF _ refl b this] b show ?thesis
    by (simp add: clock_from_def)
qed

lemma burst_new:
  assumes "limit_spec cfg t = show_nat n @ ''/'' @ u" and "u \<in> set rate_units"
    and "0 < n" and "n \<le> 2 ^ 53"
  shows "map snd (fst (gate_run Allow (Some (New cfg now)) (replicate (n + k) (tier_name t, now)))) =
           replicate n True @ replicate k False"
proof -
  obtain s where s: "unit_seconds u = Some s" using rate_unit_facts(6) [OF assms(2)] ..
  have n: "int n \<le> max_int64" using assms(4) by (simp add: max_int64_def)
  have fn: "f64 (of_nat n) = (of_nat n :: rat)" using assms(4) by (rule f64_of_nat)
  have "0 < f64 (of_nat n / of_nat s)"
    using assms(3) unit_seconds_pos [OF s] by (intro f64_pos_pos) simp
  then have r: "f64 (of_nat n / of_nat s) \<noteq> 0" by simp
  have p: "parseBucket (limit_spec cfg t) now =
    \<lparr>b_rate = f64 (of_nat n / of_nat s), b_capacity = of_nat n, b_tokens = of_nat n, b_last = now\<rparr>"
    using parseBucket_rate [OF assms(2) s assms(3) n] by (simp add: assms(1) fn)
  show ?thesis
    by (rule burst_run [OF bucket_of_New _ _ _ assms(4)]) (simp_all add: p r)
qed

text \<open>C7: A limit \<open>N/unit\<close> admits exactly \<open>N\<close> requests that arrive together when the site starts:
  the first \<open>N\<close> pass and all later ones of that instant are refused, for every \<open>N\<close> that a float
  represents exactly.\<close>

theorem burst_is_exactly_the_limit:
  assumes "limit_spec cfg t = show_nat n @ ''/'' @ u" and "u \<in> set rate_units"
    and "0 < n" and "n \<le> 2 ^ 53"
  shows "map snd (fst (gate_run Allow (Some (New cfg now)) (replicate (n + k) (tier_name t, now)))) =
           replicate n True @ replicate k False"
  by (rule burst_new [OF assms])

lemma replicate_numeral_2: "replicate 2 x = [x, x]"
  by (simp add: numeral_2_eq_2)

theorem burst_is_exactly_the_limit_witness:
  "map snd (fst (gate_run Allow (Some (New demo_limits 0)) (replicate (2 + 1) (TierAnonymous, 0)))) =
     [True, True, False]"
proof -
  have "limit_spec demo_limits Anonymous = show_nat 2 @ ''/'' @ ''min''" by code_simp
  from burst_is_exactly_the_limit [OF this, of 0 1] show ?thesis
    by (simp add: rate_units_def replicate_numeral_2)
qed

text \<open>No starvation: after any history, a tier limited to \<open>N/unit\<close> is admitted again once a whole
  unit has passed since the last request, for every positive \<open>N\<close>, despite the rounding of the
  rate, the elapsed time and the token count.\<close>

theorem admitted_after_one_unit:
  assumes "limit_spec cfg t = show_nat n @ ''/'' @ u" and "u \<in> set rate_units"
    and "0 < n" and "int n \<le> max_int64" and "unit_seconds u = Some s"
    and "clock_from t0 rs" and "last (t0 # map snd rs) + int s * 1000000000 \<le> now"
  shows "fst (Allow (snd (gate_run Allow (Some (New cfg t0)) rs)) (tier_name t) now)"
proof -
  let ?l = "snd (gate_run Allow (Some (New cfg t0)) rs)"
  have g: "limiter_ok (last (t0 # map snd rs)) ?l \<and> rates ?l = rates (Some (New cfg t0))"
    by (rule limiter.run_good) (simp_all add: New_ok assms(6))
  show ?thesis
  proof (cases "bucket_of ?l (tier_name t)")
    case None
    then show ?thesis by (simp add: Allow_bucket)
  next
    case (Some b)
    have "rates ?l (tier_name t) = rates (Some (New cfg t0)) (tier_name t)" using g by simp
    then have "b_rate b = f64 (f64 (of_nat n) / of_nat s)"
      using Some parseBucket_rate [OF assms(2,5,3,4)] by (simp add: rates_def bucket_of_New assms(1))
    moreover have "bucket_ok (last (t0 # map snd rs)) b"
      using g Some by (simp add: limiter_ok_iff)
    ultimately have "fst (take_token b now)"
      using unit_refills [OF _ _ assms(3,5,7)] by blast
    then show ?thesis by (simp add: Allow_bucket Some)
  qed
qed

theorem admitted_after_one_unit_witness:
  "fst (Allow (snd (gate_run Allow (Some (New demo_limits 0)) (replicate 3 (TierAnonymous, 7))))
      TierAnonymous 60000000007)"
proof -
  have "limit_spec demo_limits Anonymous = show_nat 2 @ ''/'' @ ''min''" by code_simp
  from admitted_after_one_unit [OF this, of 60 0 "replicate 3 (TierAnonymous, 7)" 60000000007]
  show ?thesis
    by (simp add: rate_units_def unit_seconds_def max_int64_def clock_from_def numeral_3_eq_3)
qed

text \<open>Tiers do not interfere: the verdicts a tier gets in any interleaving with the requests of
  other tiers are those it gets when only its own requests, at the same clock readings, are made.\<close>

theorem tiers_do_not_interfere:
  "filter (\<lambda>v. fst v = tier) (fst (gate_run Allow l rs)) =
     fst (gate_run Allow l (filter (\<lambda>r. fst r = tier) rs))"
  by (rule limiter.run_isolated) (rule refl)

end
