(* ===== verification/Session.thy ===== *)
theory Session
  imports Handler Key_Store Rate_Limit
begin

text \<open>
  A client's connection in \<open>internal/server/server.go\<close>: what a public key is taken for, what a
  session request does, and how commands are executed.  The SSH library delivers the requests and
  the bytes; a channel is a record of what has been written to it, with \<open>sv_write\<close> for the writes
  the program looks at.  Several sessions share one listener: its handler, limiter and key store.
\<close>

subsection \<open>Listener and channel\<close>

record siteListener =
  sl_site :: SiteConfig
  sl_handler :: Handler
  sl_keys :: AuthorizedKeys
  sl_limiter :: "Limiter option"

text \<open>\<open>ch_in\<close> holds what the \<open>Read\<close> calls of a shell return; after it reading fails.\<close>

record chan =
  ch_in :: "bytes list"
  ch_out :: bytes
  ch_err :: bytes
  ch_replies :: "bool list"
  ch_exit :: "int list"

record ('w, 'key) server_env =
  sv_env :: "'w env"
  sv_ssh :: "'key ssh_lib"
  sv_keys_file :: "'w \<Rightarrow> string \<Rightarrow> file_data"
  sv_now :: "'w \<Rightarrow> int"
  sv_write :: "chan io_write"
  sv_error_text :: "handler_error \<Rightarrow> string"

definition reply :: "bool \<Rightarrow> chan \<Rightarrow> chan" where
  "reply ok ch = ch\<lparr>ch_replies := ch_replies ch @ [ok]\<rparr>"

definition exit_status :: "int \<Rightarrow> chan \<Rightarrow> chan" where
  "exit_status n ch = ch\<lparr>ch_exit := ch_exit ch @ [n]\<rparr>"

definition print_err :: "string \<Rightarrow> chan \<Rightarrow> chan" where
  "print_err s ch = ch\<lparr>ch_err := ch_err ch @ s\<rparr>"

definition print_out :: "('w, 'key) server_env \<Rightarrow> string \<Rightarrow> chan \<Rightarrow> chan" where
  "print_out se s ch = snd (sv_write se ch s)"

text \<open>\<open>%q\<close> of a tier's name, which needs no escapes.\<close>

definition quoted :: "string \<Rightarrow> string" where
  "quoted s = DQ # s @ [DQ]"

subsection \<open>Authentication\<close>

type_synonym permissions = "string \<rightharpoonup> string"

definition publicKeyCallback :: "('w, 'key) server_env \<Rightarrow> siteListener \<Rightarrow> 'key \<Rightarrow> 'w \<Rightarrow> permissions \<times> siteListener" where
  "publicKeyCallback se sl key w =
     (let lib = sv_ssh se; ak = Reload lib (sv_keys_file se w) (Some (sl_keys sl));
          tier = ClassifyKey lib (Some key) (Auth (sl_site sl)) ak;
          line = TrimSpace (MarshalAuthorizedKey lib key);
          comment = Comment lib ak (Some key);
          publine = (if comment \<noteq> [] then line @ '' '' @ comment else line)
      in ([''auth-tier'' \<mapsto> tier, ''key-fingerprint'' \<mapsto> FingerprintSHA256 lib key, ''public-key'' \<mapsto> publine],
          sl\<lparr>sl_keys := the ak\<rparr>))"

definition extension :: "permissions \<Rightarrow> string \<Rightarrow> string" where
  "extension p k = (case p k of None \<Rightarrow> [] | Some v \<Rightarrow> v)"

text \<open>The identity of a connection; without authentication there are no permissions.\<close>

definition connection_session :: "permissions option \<Rightarrow> SessionInfo" where
  "connection_session perms =
     (case perms of
        None \<Rightarrow> \<lparr>si_Tier = TierAnonymous, si_Fingerprint = [], si_PublicKey = []\<rparr>
      | Some p \<Rightarrow>
          \<lparr>si_Tier = (case p ''auth-tier'' of Some t \<Rightarrow> t | None \<Rightarrow> TierAnonymous),
           si_Fingerprint = extension p ''key-fingerprint'', si_PublicKey = extension p ''public-key''\<rparr>)"

text \<open>What a connection does with the channels the client asks for: every \<open>session\<close> channel that can be
  accepted becomes a session of its own, with the identity of the connection.  \<open>handshake\<close> is
  \<open>None\<close> when the SSH handshake failed, and otherwise holds the permissions.\<close>

datatype channel_request = NewChannel (channel_type: string) (accepted: bool)

datatype channel_answer = RejectedChannel | NotAccepted | SessionStarted SessionInfo

definition handleConnection :: "permissions option option \<Rightarrow> channel_request list \<Rightarrow> channel_answer list" where
  "handleConnection handshake chans =
     (case handshake of
        None \<Rightarrow> []
      | Some perms \<Rightarrow>
          map (\<lambda>c. if channel_type c \<noteq> ''session'' then RejectedChannel
                   else if \<not> accepted c then NotAccepted
                   else SessionStarted (connection_session perms)) chans)"

subsection \<open>Executing a command\<close>

definition executeCommand :: "('w, 'key) server_env \<Rightarrow> siteListener \<Rightarrow> chan \<Rightarrow> string \<Rightarrow> SessionInfo \<Rightarrow> 'w \<Rightarrow>
    (siteListener \<times> chan \<times> 'w) option" where
  "executeCommand se sl ch cmd sess w =
     (case Fields cmd of
        [] \<Rightarrow> Some (sl, exit_status 2 (print_err (''error: empty command'' @ [LF]) ch), w)
      | verb # args \<Rightarrow>
          (case Allow (sl_limiter sl) (si_Tier sess) (sv_now se w) of
             (ok, l) \<Rightarrow>
               let sl1 = sl\<lparr>sl_limiter := l\<rparr> in
               if \<not> ok then
                 Some (sl1, exit_status 3 (print_err
                   (''error: rate limit exceeded for tier '' @ quoted (si_Tier sess) @ [LF]) ch), w)
               else (case ExecuteBinary (sv_env se) (sv_write se) (sl_handler sl) verb args sess w ch of
                   None \<Rightarrow> None
                 | Some (Inl e, h, w', ch') \<Rightarrow>
                     Some (sl1\<lparr>sl_handler := h\<rparr>,
                       exit_status 1 (print_err (''error: '' @ sv_error_text se e @ [LF]) ch'), w')
                 | Some (Inr _, h, w', ch') \<Rightarrow> Some (sl1\<lparr>sl_handler := h\<rparr>, exit_status 0 ch', w'))))"

text \<open>One line of the interactive shell.\<close>

definition shell_line :: "('w, 'key) server_env \<Rightarrow> siteListener \<Rightarrow> chan \<Rightarrow> string \<Rightarrow> SessionInfo \<Rightarrow> 'w \<Rightarrow>
    (siteListener \<times> chan \<times> 'w) option" where
  "shell_line se sl ch line sess w =
     (let verb = hd (Fields line); args = tl (Fields line) in
      case Allow (sl_limiter sl) (si_Tier sess) (sv_now se w) of
        (ok, l) \<Rightarrow>
          let sl1 = sl\<lparr>sl_limiter := l\<rparr> in
          if \<not> ok then
            Some (sl1, print_out se (''error: rate limit exceeded for tier '' @ quoted (si_Tier sess) @ [LF] @ ''> '') ch, w)
          else (case Execute (sv_env se) (sl_handler sl) verb args sess w of
              None \<Rightarrow> None
            | Some (Inl e, h, w') \<Rightarrow>
                Some (sl1\<lparr>sl_handler := h\<rparr>, print_out se (''error: '' @ sv_error_text se e @ [LF] @ ''> '') ch, w')
            | Some (Inr resp, h, w') \<Rightarrow>
                Some (sl1\<lparr>sl_handler := h\<rparr>, print_out se (resp @ [LF] @ ''> '') ch, w')))"

fun shell_loop :: "('w, 'key) server_env \<Rightarrow> siteListener \<Rightarrow> chan \<Rightarrow> bytes list \<Rightarrow> SessionInfo \<Rightarrow> 'w \<Rightarrow>
    (siteListener \<times> chan \<times> 'w) option" where
  "shell_loop se sl ch [] sess w = Some (sl, ch, w)"
| "shell_loop se sl ch (buf # bufs) sess w =
     (let line = TrimSpace buf in
      if line = [] then shell_loop se sl (print_out se ''> '' ch) bufs sess w
      else if line = ''quit'' \<or> line = ''exit'' then Some (sl, ch, w)
      else (case shell_line se sl ch line sess w of
          None \<Rightarrow> None
        | Some (sl', ch', w') \<Rightarrow> shell_loop se sl' ch' bufs sess w'))"

definition interactiveSession :: "('w, 'key) server_env \<Rightarrow> siteListener \<Rightarrow> chan \<Rightarrow> SessionInfo \<Rightarrow> 'w \<Rightarrow>
    (siteListener \<times> chan \<times> 'w) option" where
  "interactiveSession se sl ch sess w =
     shell_loop se sl (print_out se (''ssh-web/0.1 ready (tier: '' @ si_Tier sess @ '')'' @ [LF] @ ''> '') ch)
       (ch_in ch) sess w"

subsection \<open>Session requests\<close>

record request =
  sr_Type :: string
  sr_Payload :: bytes

text \<open>\<open>int(p[0])<<24 | int(p[1])<<16 | int(p[2])<<8 | int(p[3])\<close>\<close>

definition be_length :: "bytes \<Rightarrow> nat" where
  "be_length p = unat (word_be32 p)"

definition parseEnvPayload :: "bytes \<Rightarrow> (string \<times> string) option" where
  "parseEnvPayload payload =
     (if length payload < 4 then None
      else let nameLen = be_length payload in
        if length payload < 4 + nameLen + 4 then None
        else
          let name = take nameLen (drop 4 payload); off = 4 + nameLen;
              valLen = be_length (drop off payload); off' = off + 4
          in if length payload < off' + valLen then None
             else Some (name, take valLen (drop off' payload)))"

definition exec_payload :: "bytes \<Rightarrow> string option" where
  "exec_payload payload =
     (if length payload < 4 then None
      else let cmdLen = be_length payload in
        if length payload < 4 + cmdLen then None else Some (take cmdLen (drop 4 payload)))"

text \<open>What a request makes of a session that waits for one.\<close>

datatype verdict = Wait SessionInfo bool | RunExec string | RunShell

definition session_request :: "SessionInfo \<Rightarrow> request \<Rightarrow> verdict" where
  "session_request sess req =
     (if sr_Type req = ''env'' then
        (case parseEnvPayload (sr_Payload req) of
           Some (name, val) \<Rightarrow>
             Wait (if name = ''SSHWEB_PUBKEY'' then sess\<lparr>si_PublicKey := val\<rparr> else sess) True
         | None \<Rightarrow> Wait sess False)
      else if sr_Type req = ''exec'' then
        (case exec_payload (sr_Payload req) of None \<Rightarrow> Wait sess False | Some cmd \<Rightarrow> RunExec cmd)
      else if sr_Type req = ''shell'' then RunShell
      else Wait sess False)"

text \<open>The loop of \<open>handleSession\<close>: it ends with the first command or shell, or with the requests.\<close>

fun handleSession :: "('w, 'key) server_env \<Rightarrow> siteListener \<Rightarrow> chan \<Rightarrow> request list \<Rightarrow> SessionInfo \<Rightarrow> 'w \<Rightarrow>
    (siteListener \<times> chan \<times> 'w) option" where
  "handleSession se sl ch [] sess w = Some (sl, ch, w)"
| "handleSession se sl ch (req # reqs) sess w =
     (case session_request sess req of
        Wait sess' ok \<Rightarrow> handleSession se sl (reply ok ch) reqs sess' w
      | RunExec cmd \<Rightarrow> executeCommand se sl (reply True ch) cmd sess w
      | RunShell \<Rightarrow> interactiveSession se sl (reply True ch) sess w)"

end
