(* ===== verification/Session_Props.thy ===== *)
theory Session_Props
  imports Session Handler_Props
begin

text \<open>
  The guarantees of sessions: the payloads of requests, what exit statuses mean, the rate limit end
  to end, and, over all interleavings of a site's connections, who a session acts as.
\<close>

subsection \<open>Payloads\<close>

definition ssh_string :: "string \<Rightarrow> bytes" where
  "ssh_string s = be32 (word_of_nat (length s)) @ s"

definition env_payload :: "string \<Rightarrow> string \<Rightarrow> bytes" where
  "env_payload name val = ssh_string name @ ssh_string val"

lemma word_be32_append [simp]: "word_be32 (be32 w @ s) = w"
proof -
  have "word_be32 (be32 w @ s) = word_be32 (be32 w)" by (simp add: be32_def)
  then show ?thesis by simp
qed

lemma be_length_string: "length s < 2 ^ 32 \<Longrightarrow> be_length (ssh_string s @ t) = length s"
  by (simp add: be_length_def ssh_string_def unat_of_nat)

lemma uint_byte: "uint (byte_of c :: 32 word) = of_char c"
proof -
  have "(of_char c :: int) = int (of_char c)" by (simp only: of_nat_of_char)
  then have "(of_char c :: int) < 256" "0 \<le> (of_char c :: int)" using nat_of_char_less_256 [of c] by linarith+
  then show ?thesis by (simp add: byte_of_def uint_word_of_int)
qed

lemma byte_bits: "take_bit 8 (byte_of c :: 32 word) = byte_of c"
proof -
  have "uint (take_bit 8 (byte_of c :: 32 word)) = of_char c mod 256"
    unfolding unsigned_take_bit_eq uint_byte by (simp add: take_bit_eq_mod)
  then show ?thesis by (simp only: word_uint_eq_iff uint_byte of_char_mod_256)
qed

lemma bit_byte: "bit (byte_of c :: 32 word) n \<Longrightarrow> n < 8"
  using byte_bits [of c] by (metis bit_take_bit_iff)

lemma char_byte: "char_of_word w = c" if "take_bit 8 w = (byte_of c :: 32 word)" for w :: "32 word"
proof -
  have "char_of_word w = char_of (uint w mod 256)" by (simp add: char_of_word_def)
  also have "uint w mod 256 = uint (take_bit 8 w)" unfolding unsigned_take_bit_eq by (simp add: take_bit_eq_mod)
  finally show ?thesis by (simp add: that uint_byte)
qed

lemma be32_word_be32: "4 \<le> length p \<Longrightarrow> be32 (word_be32 p) @ drop 4 p = p"
proof -
  assume "4 \<le> length p"
  then obtain a b c d s where p: "p = a # b # c # d # s"
    by (auto simp: Suc_le_length_iff numeral_eq_Suc)
  let ?w = "word_be32 p"
  have "take_bit 8 (drop_bit 24 ?w) = byte_of a" "take_bit 8 (drop_bit 16 ?w) = byte_of b"
    "take_bit 8 (drop_bit 8 ?w) = byte_of c" "take_bit 8 ?w = byte_of d"
    by (rule bit_word_eqI; auto simp: p bit_simps dest: bit_byte)+
  then show ?thesis by (simp add: be32_def char_byte p)
qed

lemma be_length_inverse:
  assumes "4 + be_length p \<le> length p"
  shows "ssh_string (take (be_length p) (drop 4 p)) @ drop (4 + be_length p) p = p"
proof -
  have "word_of_nat (length (take (be_length p) (drop 4 p))) = word_be32 p"
    using assms by (simp add: be_length_def)
  then have "ssh_string (take (be_length p) (drop 4 p)) = be32 (word_be32 p) @ take (be_length p) (drop 4 p)"
    by (simp add: ssh_string_def)
  moreover have "take (be_length p) (drop 4 p) @ drop (4 + be_length p) p = drop 4 p"
    by (metis add.commute append_take_drop_id drop_drop)
  ultimately show ?thesis using be32_word_be32 [of p] assms by simp
qed

lemma be_length_less: "be_length p < 2 ^ 32"
  using unsigned_less [of "word_be32 p"] by (simp add: be_length_def)

lemma ssh_string_parts: "length (ssh_string s) = 4 + length s" "drop (4 + length s) (ssh_string s @ t) = t"
    "take (length s) (drop 4 (ssh_string s @ t)) = s"
  by (simp_all add: ssh_string_def)

lemma parse_env:
  assumes "length name < 2 ^ 32" "length val < 2 ^ 32" "p = env_payload name val @ t"
  shows "parseEnvPayload p = Some (name, val)"
proof -
  have p: "p = ssh_string name @ ssh_string val @ t" using assms(3) by (simp add: env_payload_def)
  have n: "be_length p = length name" unfolding p by (rule be_length_string [OF assms(1)])
  have o: "drop (4 + length name) p = ssh_string val @ t" unfolding p by (rule ssh_string_parts)
  then have v: "be_length (drop (4 + length name) p) = length val" using be_length_string [OF assms(2)] by simp
  have "drop (4 + length name + 4) p = drop 4 (ssh_string val @ t)" using o by (metis add.commute drop_drop)
  then have "take (length val) (drop (4 + length name + 4) p) = val" using ssh_string_parts(3) [of val t] by simp
  moreover have "take (length name) (drop 4 p) = name" unfolding p by (rule ssh_string_parts)
  moreover have "length p = 8 + length name + length val + length t" by (simp add: p ssh_string_parts)
  ultimately show ?thesis by (simp add: parseEnvPayload_def n v Let_def)
qed

lemma parse_exec: "length cmd < 2 ^ 32 \<Longrightarrow> p = ssh_string cmd @ t \<Longrightarrow> exec_payload p = Some cmd"
  using be_length_string [of cmd t] ssh_string_parts(1) [of cmd] ssh_string_parts(3) [of cmd t]
  by (simp add: exec_payload_def Let_def del: drop_append take_append)

text \<open>C39: The payloads of session requests are read exactly: \<open>parseEnvPayload\<close> accepts a payload with a
  name and a value iff it begins with their encoding as two length-prefixed strings, and an exec
  request is accepted with a command iff it begins with the encoding of that command; nothing
  outside the payload is ever read, whatever its length fields say.\<close>

theorem request_payloads_exact:
  "(parseEnvPayload p = Some (name, val) \<longleftrightarrow>
      length name < 2 ^ 32 \<and> length val < 2 ^ 32 \<and> (\<exists>t. p = env_payload name val @ t)) \<and>
   (exec_payload p = Some cmd \<longleftrightarrow> length cmd < 2 ^ 32 \<and> (\<exists>t. p = ssh_string cmd @ t))"
proof -
  have "length name < 2 ^ 32 \<and> length val < 2 ^ 32 \<and> (\<exists>t. p = env_payload name val @ t)"
    if e: "parseEnvPayload p = Some (name, val)"
  proof -
    let ?n = "be_length p" and ?q = "drop (4 + be_length p) p"
    have n: "4 + ?n \<le> length p" "name = take ?n (drop 4 p)" and v: "4 + be_length ?q \<le> length ?q"
      "val = take (be_length ?q) (drop 4 ?q)"
      using e by (auto simp: parseEnvPayload_def Let_def add.commute add.left_commute split: if_splits)
    have "p = ssh_string name @ ?q" "?q = ssh_string val @ drop (4 + be_length ?q) ?q"
      unfolding n(2) v(2) by (simp_all only: be_length_inverse [OF n(1)] be_length_inverse [OF v(1)])
    then have "p = env_payload name val @ drop (4 + be_length ?q) ?q" by (metis append_assoc env_payload_def)
    moreover have "length name < 2 ^ 32" "length val < 2 ^ 32" using be_length_less [of p] be_length_less [of ?q] n v by simp_all
    ultimately show ?thesis by blast
  qed
  moreover have "length cmd < 2 ^ 32 \<and> (\<exists>t. p = ssh_string cmd @ t)" if e: "exec_payload p = Some cmd"
  proof -
    have c: "4 + be_length p \<le> length p" "cmd = take (be_length p) (drop 4 p)"
      using e by (auto simp: exec_payload_def Let_def split: if_splits)
    have "length cmd < 2 ^ 32" using be_length_less [of p] c by simp
    moreover have "p = ssh_string cmd @ drop (4 + be_length p) p"
      unfolding c(2) by (simp only: be_length_inverse [OF c(1)])
    ultimately show ?thesis by blast
  qed
  ultimately show ?thesis using parse_env [of name val p] parse_exec [of cmd p] by blast
qed

subsection \<open>What a command does to its channel\<close>

text \<open>The handler changes a channel by its writes only: what no write changes stays as it was.\<close>

lemma write_chunks_keeps:
  assumes "\<And>s b. view (snd (write s b)) = view s"
  shows "view (snd (write_chunks write bs s)) = view s"
proof (induction bs arbitrary: s)
  case (Cons b bs)
  then show ?case using assms [of s b] by (auto split: prod.split)
qed simp

lemma write_objects_keeps:
  assumes "\<And>s b. view (snd (write s b)) = view s"
  shows "view (snd (write_objects deflate write objs tot h s)) = view s"
proof (induction objs arbitrary: tot h s)
  case (Cons obj objs)
  show ?case
  proof (cases "encodeObject deflate obj")
    case (Some x)
    with Cons assms [of s x] show ?thesis by (auto split: prod.split)
  qed simp
qed simp

lemma WriteTo_keeps:
  assumes "\<And>s b. view (snd (write s b)) = view s"
  shows "view (snd (WriteTo deflate write pw s)) = view s"
proof -
  note k = write_objects_keeps [of view "write", OF assms, of deflate "w_objects pw"]
  obtain n ok s1 where w: "write s (pack_header pw) = ((n, ok), s1)" by (metis prod.exhaust)
  obtain tot r s2 where o: "write_objects deflate write (w_objects pw) n (pack_header pw) s1 = ((tot, r), s2)" by (metis prod.exhaust)
  have "view s1 = view s" "view s2 = view s1" using assms [of s "pack_header pw"] k [of n "pack_header pw" s1] w o by simp_all
  moreover have "view (snd (write s2 (sha1 x))) = view s2" for x by (rule assms)
  ultimately show ?thesis using w o by (auto simp: WriteTo_def split: sum.split prod.split) (metis snd_conv)
qed

lemma proxyCallBinary_keeps:
  assumes "\<And>s b. view (snd (write s b)) = view s"
  shows "view (snd (snd (snd (proxyCallBinary ev write h args w s)))) = view s"
proof -
  have w: "view s' = view s" if "write s b = ((n, ok), s')" for s b n ok s' using assms [of s b] that by simp
  have c: "view s' = view s" if "write_chunks write bs s = (ok, s')" for bs s ok s'
    using write_chunks_keeps [of view "write", OF assms, of bs s] that by simp
  show ?thesis
    by (auto simp: proxyCallBinary_def Let_def split: sum.split prod.split bool.split dest!: w c)
qed

lemma receivePackBinary_keeps:
  assumes "\<And>s b. view (snd (write s b)) = view s"
  shows "view (snd (snd (receivePackBinary ev write h args sess w s))) = view s"
proof -
  have c: "view s' = view s" if "write_chunks write bs s = (ok, s')" for bs s ok s'
    using write_chunks_keeps [of view "write", OF assms, of bs s] that by simp
  have t: "view s' = view s" if "WriteTo d write pw s = (r, s')" for d pw s r s'
    using WriteTo_keeps [of view "write", OF assms, of d pw s] that by simp
  have "view (snd (snd (backend_resource ev write b args sess w s))) = view s" for b
    by (auto simp: backend_resource_def Let_def split: sum.split prod.split dest!: c)
  then show ?thesis
    by (auto simp: receivePackBinary_def Let_def split: sum.split prod.split option.split dest!: t)
qed

lemma ExecuteBinary_keeps:
  assumes "\<And>s b. view (snd (write s b)) = view s"
    and "ExecuteBinary ev write h cmd args sess w s = Some (r, h', w', s')"
  shows "view s' = view s"
  using proxyCallBinary_keeps [of view "write" ev h args w s, OF assms(1)]
    receivePackBinary_keeps [of view "write" ev h args sess w s, OF assms(1)] assms(1) [of s] assms(2)
  by (auto simp: ExecuteBinary_def split: if_splits prod.splits option.splits sum.splits) (metis snd_conv)+

text \<open>A channel on which writing data sends no exit status.\<close>

definition data_only :: "('w, 'key) server_env \<Rightarrow> bool" where
  "data_only se \<longleftrightarrow> (\<forall>ch b. ch_exit (snd (sv_write se ch b)) = ch_exit ch)"

text \<open>C38: Every command that is executed ends with exactly one exit status, and it says what happened: 2
  for an empty command, 3 for one the rate limiter refuses, and then neither the handler nor the
  outside world nor the output has changed; otherwise the handler ran, and the status is 0 when it
  succeeded and 1 when it failed.\<close>

theorem exit_status_meaning:
  assumes "data_only se" "executeCommand se sl ch cmd sess w = Some (sl', ch', w')"
  shows "\<exists>n. ch_exit ch' = ch_exit ch @ [n] \<and>
    (if Fields cmd = [] then n = 2
     else if \<not> fst (Allow (sl_limiter sl) (si_Tier sess) (sv_now se w)) then n = 3
     else \<exists>r h ch1. ExecuteBinary (sv_env se) (sv_write se) (sl_handler sl) (hd (Fields cmd)) (tl (Fields cmd)) sess w ch =
         Some (r, h, w', ch1) \<and> n = (if is_ok r then 0 else 1)) \<and>
    (n \<in> {2, 3} \<longrightarrow> w' = w \<and> sl_handler sl' = sl_handler sl \<and> ch_out ch' = ch_out ch)"
proof (cases "Fields cmd")
  case Nil
  with assms(2) show ?thesis by (auto simp: executeCommand_def exit_status_def print_err_def)
next
  case (Cons verb args)
  obtain ok l where l: "Allow (sl_limiter sl) (si_Tier sess) (sv_now se w) = (ok, l)" by force
  show ?thesis
  proof (cases ok)
    case False
    with assms(2) Cons l show ?thesis by (auto simp: executeCommand_def exit_status_def print_err_def Let_def)
  next
    case True
    then obtain r h ch1 where e: "ExecuteBinary (sv_env se) (sv_write se) (sl_handler sl) verb args sess w ch = Some (r, h, w', ch1)"
      "ch' = (case r of Inl e \<Rightarrow> exit_status 1 (print_err (''error: '' @ sv_error_text se e @ [LF]) ch1) | Inr _ \<Rightarrow> exit_status 0 ch1)"
      using assms(2) Cons l by (auto simp: executeCommand_def Let_def split: option.splits sum.splits)
    have "ch_exit ch1 = ch_exit ch"
      by (rule ExecuteBinary_keeps [of ch_exit, OF _ e(1)]) (use assms(1) in \<open>simp add: data_only_def\<close>)
    with e Cons l True show ?thesis by (cases r) (auto simp: exit_status_def print_err_def)
  qed
qed

subsection \<open>The rate limit, end to end\<close>

definition new_chan :: chan where
  "new_chan = \<lparr>ch_in = [], ch_out = [], ch_err = [], ch_replies = [], ch_exit = []\<rparr>"

text \<open>The commands of a site in the order in which they are executed, each on a channel of its own; the
  result is the list of exit statuses.\<close>

fun exec_all :: "('w, 'key) server_env \<Rightarrow> siteListener \<Rightarrow> (string \<times> SessionInfo) list \<Rightarrow> 'w \<Rightarrow> int list option" where
  "exec_all se sl [] w = Some []"
| "exec_all se sl ((cmd, sess) # cs) w =
     (case executeCommand se sl new_chan cmd sess w of
        None \<Rightarrow> None
      | Some (sl', ch', w') \<Rightarrow> map_option ((#) (last (ch_exit ch'))) (exec_all se sl' cs w'))"

lemma executeCommand_verdict:
  assumes "data_only se" "Fields cmd \<noteq> []" "executeCommand se sl ch cmd sess w = Some (sl', ch', w')"
  shows "(last (ch_exit ch') \<noteq> 3) = fst (Allow (sl_limiter sl) (si_Tier sess) (sv_now se w)) \<and>
    sl_limiter sl' = snd (Allow (sl_limiter sl) (si_Tier sess) (sv_now se w))"
proof -
  obtain verb args where f: "Fields cmd = verb # args" using assms(2) by (cases "Fields cmd") auto
  obtain ok l where l: "Allow (sl_limiter sl) (si_Tier sess) (sv_now se w) = (ok, l)" by force
  have "ch_exit ch1 = ch_exit ch" if "ExecuteBinary (sv_env se) (sv_write se) (sl_handler sl) verb args sess w ch = Some (r, h, w2, ch1)"
    for r h w2 ch1
    by (rule ExecuteBinary_keeps [of ch_exit, OF _ that]) (use assms(1) in \<open>simp add: data_only_def\<close>)
  then show ?thesis
    using assms(3) f l
    by (auto simp: executeCommand_def Let_def exit_status_def print_err_def split: if_splits option.splits sum.splits)
qed

lemma exec_all_verdicts:
  assumes "data_only se" "\<And>w. sv_now se w = now"
  shows "list_all (\<lambda>(cmd, sess). Fields cmd \<noteq> []) cs \<Longrightarrow> exec_all se sl cs w = Some ns \<Longrightarrow>
    zip (map (\<lambda>(cmd, sess). si_Tier sess) cs) (map (\<lambda>n. n \<noteq> 3) ns) =
      fst (gate_run Allow (sl_limiter sl) (map (\<lambda>(cmd, sess). (si_Tier sess, now)) cs)) \<and> length ns = length cs"
proof (induction cs arbitrary: sl w ns)
  case (Cons c cs)
  obtain cmd sess where c: "c = (cmd, sess)" by (cases c)
  from Cons.prems(2) c obtain sl' ch' w' ms where e: "executeCommand se sl new_chan cmd sess w = Some (sl', ch', w')"
    "exec_all se sl' cs w' = Some ms" "ns = last (ch_exit ch') # ms"
    by (auto split: option.splits)
  have "Fields cmd \<noteq> []" using Cons.prems(1) c by simp
  note v = executeCommand_verdict [OF assms(1) this e(1)]
  have "list_all (\<lambda>(cmd, sess). Fields cmd \<noteq> []) cs" using Cons.prems(1) by simp
  from Cons.IH [OF this e(2)] v e(3) c assms(2) show ?case by (simp add: gate_run_Cons)
qed simp

lemma burst_prefix:
  assumes "limit_spec cfg t = show_nat n @ ''/'' @ u" "u \<in> set rate_units" "0 < n" "n \<le> 2 ^ 53"
  shows "length (filter snd (fst (gate_run Allow (Some (New cfg now)) (replicate j (tier_name t, now))))) = min n j"
proof (cases "n \<le> j")
  case True
  then have "map snd (fst (gate_run Allow (Some (New cfg now)) (replicate j (tier_name t, now)))) =
      replicate n True @ replicate (j - n) False"
    using burst_new [OF assms, of now "j - n"] by simp
  from arg_cong [OF this, of "\<lambda>bs. length (filter (\<lambda>b. b) bs)"] True show ?thesis by (simp add: filter_map comp_def)
next
  case False
  let ?g = "\<lambda>k. map snd (fst (gate_run Allow (Some (New cfg now)) (replicate k (tier_name t, now))))"
  have len: "length (fst (gate_run Allow l rs)) = length rs" for l rs
    by (induction rs arbitrary: l) (auto simp: gate_run_Cons)
  have "replicate n (tier_name t, now) = replicate j (tier_name t, now) @ replicate (n - j) (tier_name t, now)"
    using False by (simp flip: replicate_add)
  then obtain rest where "?g n = ?g j @ rest" by (simp add: gate_run_append)
  moreover have "?g n = replicate n True" using burst_new [OF assms, of now 0] by simp
  ultimately have "?g j = take j (replicate n True)" using len by (metis append_eq_conv_conj length_map length_replicate)
  then have "?g j = replicate j True" using False by simp
  from arg_cong [OF this, of "\<lambda>bs. length (filter (\<lambda>b. b) bs)"] False show ?thesis by (simp add: filter_map comp_def)
qed

text \<open>C13: The rate limit holds end to end: of the commands that sessions of one tier have executed at one
  instant on a listener whose limiter is fresh, exactly as many as the configured limit says are not
  refused with status 3, whatever the commands are and whatever sessions of other tiers do in between.\<close>

theorem rate_limit_end_to_end:
  assumes "data_only se" "\<And>w. sv_now se w = now" "sl_limiter sl = Some (New cfg now)"
    and "limit_spec cfg t = show_nat n @ ''/'' @ u" "u \<in> set rate_units" "0 < n" "n \<le> 2 ^ 53"
    and "list_all (\<lambda>(cmd, sess). Fields cmd \<noteq> []) cs" "exec_all se sl cs w = Some ns"
  shows "length (filter (\<lambda>(c, n). si_Tier (snd c) = tier_name t \<and> n \<noteq> 3) (zip cs ns)) =
    min n (length (filter (\<lambda>c. si_Tier (snd c) = tier_name t) cs))"
proof -
  let ?t = "tier_name t" and ?rs = "map (\<lambda>(cmd, sess). (si_Tier sess, now)) cs"
  note v = exec_all_verdicts [OF assms(1,2,8,9)]
  have "filter (\<lambda>r. fst r = ?t) ?rs = replicate (length (filter (\<lambda>c. si_Tier (snd c) = ?t) cs)) (?t, now)"
    by (induction cs) auto
  then have iso: "filter (\<lambda>v. fst v = ?t) (fst (gate_run Allow (sl_limiter sl) ?rs)) =
      fst (gate_run Allow (sl_limiter sl) (replicate (length (filter (\<lambda>c. si_Tier (snd c) = ?t) cs)) (?t, now)))"
    using limiter.run_isolated [of "sl_limiter sl" ?t "sl_limiter sl" ?rs] by simp
  have z: "length (filter (\<lambda>(c, n). si_Tier (snd c) = ?t \<and> n \<noteq> 3) (zip cs ns)) =
      length (filter snd (filter (\<lambda>v. fst v = ?t) (zip (map (\<lambda>(cmd, sess). si_Tier sess) cs) (map (\<lambda>n. n \<noteq> 3) ns))))"
    if "length ns = length cs" using that
    by (induction ns cs rule: list_induct2) auto
  show ?thesis
    unfolding z [OF v [THEN conjunct2]] v [THEN conjunct1] assms(3) iso [unfolded assms(3)] by (rule burst_prefix [OF assms(4-7)])
qed

subsection \<open>All interleavings\<close>

text \<open>A site with its connections (by number: the identity that was authenticated) and its sessions (by
  number: the connection, the current session information, whether a shell runs, the channel).\<close>

record live =
  lv_conn :: nat
  lv_sess :: SessionInfo
  lv_shell :: bool
  lv_chan :: chan

record 'w system =
  sy_listener :: siteListener
  sy_world :: 'w
  sy_conns :: "nat \<rightharpoonup> SessionInfo"
  sy_live :: "nat \<rightharpoonup> live"

inductive site_step :: "('w, 'key) server_env \<Rightarrow> 'w system \<Rightarrow> 'w system \<Rightarrow> bool" for se where
  environment: "site_step se s (s\<lparr>sy_world := w\<rparr>)"
| key_offered: "publicKeyCallback se (sy_listener s) key (sy_world s) = (perms, sl) \<Longrightarrow>
    site_step se s (s\<lparr>sy_listener := sl\<rparr>)"
| connected: "sy_conns s c = None \<Longrightarrow> publicKeyCallback se (sy_listener s) key (sy_world s) = (perms, sl) \<Longrightarrow>
    site_step se s (s\<lparr>sy_listener := sl, sy_conns := (sy_conns s)(c \<mapsto> connection_session (Some perms))\<rparr>)"
| connected_without_key: "sy_conns s c = None \<Longrightarrow>
    site_step se s (s\<lparr>sy_conns := (sy_conns s)(c \<mapsto> connection_session None)\<rparr>)"
| opened: "sy_conns s c = Some info \<Longrightarrow> sy_live s i = None \<Longrightarrow>
    site_step se s (s\<lparr>sy_live := (sy_live s)(i \<mapsto>
      \<lparr>lv_conn = c, lv_sess = info, lv_shell = False, lv_chan = new_chan\<rparr>)\<rparr>)"
| waits: "sy_live s i = Some l \<Longrightarrow> \<not> lv_shell l \<Longrightarrow> session_request (lv_sess l) req = Wait sess ok \<Longrightarrow>
    site_step se s (s\<lparr>sy_live := (sy_live s)(i \<mapsto> l\<lparr>lv_sess := sess, lv_chan := reply ok (lv_chan l)\<rparr>)\<rparr>)"
| executes: "sy_live s i = Some l \<Longrightarrow> \<not> lv_shell l \<Longrightarrow> session_request (lv_sess l) req = RunExec cmd \<Longrightarrow>
    executeCommand se (sy_listener s) (reply True (lv_chan l)) cmd (lv_sess l) (sy_world s) = Some (sl, ch, w) \<Longrightarrow>
    site_step se s (s\<lparr>sy_listener := sl, sy_world := w, sy_live := (sy_live s)(i := None)\<rparr>)"
| opens_shell: "sy_live s i = Some l \<Longrightarrow> \<not> lv_shell l \<Longrightarrow> session_request (lv_sess l) req = RunShell \<Longrightarrow>
    site_step se s (s\<lparr>sy_live := (sy_live s)(i \<mapsto> l\<lparr>lv_shell := True, lv_chan := reply True (lv_chan l)\<rparr>)\<rparr>)"
| shell_runs: "sy_live s i = Some l \<Longrightarrow> lv_shell l \<Longrightarrow> TrimSpace buf \<notin> {[], ''quit'', ''exit''} \<Longrightarrow>
    shell_line se (sy_listener s) (lv_chan l) (TrimSpace buf) (lv_sess l) (sy_world s) = Some (sl, ch, w) \<Longrightarrow>
    site_step se s (s\<lparr>sy_listener := sl, sy_world := w, sy_live := (sy_live s)(i \<mapsto> l\<lparr>lv_chan := ch\<rparr>)\<rparr>)"
| ends: "site_step se s (s\<lparr>sy_live := (sy_live s)(i := None)\<rparr>)"

inductive reachable :: "('w, 'key) server_env \<Rightarrow> 'w system \<Rightarrow> 'w system \<Rightarrow> bool" for se s0 where
  start: "reachable se s0 s0"
| step: "reachable se s0 s \<Longrightarrow> site_step se s s' \<Longrightarrow> reachable se s0 s'"

definition fresh_system :: "siteListener \<Rightarrow> 'w \<Rightarrow> 'w system" where
  "fresh_system sl w = \<lparr>sy_listener = sl, sy_world = w, sy_conns = Map.empty, sy_live = Map.empty\<rparr>"

text \<open>What authentication can make of a connection: no key and no identity, or a key, its fingerprint,
  and one of the two upper tiers.\<close>

definition authentic :: "'key ssh_lib \<Rightarrow> SessionInfo \<Rightarrow> bool" where
  "authentic lib info \<longleftrightarrow>
     info = \<lparr>si_Tier = TierAnonymous, si_Fingerprint = [], si_PublicKey = []\<rparr> \<or>
     (\<exists>key. si_Tier info \<in> {TierIdentified, TierTrusted} \<and> si_Fingerprint info = FingerprintSHA256 lib key \<and>
        HasPrefix (si_PublicKey info) (TrimSpace (MarshalAuthorizedKey lib key)))"

lemma session_request_identity: "session_request sess req = Wait sess' ok \<Longrightarrow>
    si_Tier sess' = si_Tier sess \<and> si_Fingerprint sess' = si_Fingerprint sess"
  by (auto simp: session_request_def split: if_splits option.splits)

lemma executeCommand_keys: "executeCommand se sl ch cmd sess w = Some (sl', ch', w') \<Longrightarrow>
    sl_keys sl' = sl_keys sl \<and> sl_site sl' = sl_site sl \<and> same_config (sl_handler sl) (sl_handler sl')"
  by (auto simp: executeCommand_def Let_def dest: ExecuteBinary_config split: list.splits prod.splits if_splits option.splits sum.splits)

lemma shell_line_keys: "shell_line se sl ch line sess w = Some (sl', ch', w') \<Longrightarrow>
    sl_keys sl' = sl_keys sl \<and> sl_site sl' = sl_site sl \<and> same_config (sl_handler sl) (sl_handler sl')"
  by (auto simp: shell_line_def Let_def dest: Execute_config split: prod.splits if_splits option.splits sum.splits)

lemma callback_authentic:
  assumes "store_ok (Some (sl_keys sl))" "publicKeyCallback se sl key w = (perms, sl')"
  shows "store_ok (Some (sl_keys sl')) \<and> sl_handler sl' = sl_handler sl \<and> sl_site sl' = sl_site sl \<and>
    authentic (sv_ssh se) (connection_session (Some perms))"
proof -
  let ?ak = "Reload (sv_ssh se) (sv_keys_file se w) (Some (sl_keys sl))"
  have ok: "store_ok ?ak" by (rule Reload_ok [OF assms(1)])
  obtain a where a: "?ak = Some a"
    by (cases "?ak") (auto simp: Reload_def split: if_splits sum.splits)
  have t: "ClassifyKey (sv_ssh se) (Some key) (Auth (sl_site sl)) ?ak \<in> {TierIdentified, TierTrusted}"
    using Tier_known [OF ok, of "sv_ssh se" "Some key"] by (auto simp: ClassifyKey_def Let_def)
  have "authentic (sv_ssh se) (connection_session (Some perms))"
    unfolding authentic_def using assms(2) t
    by (intro disjI2 exI [of _ key]) (auto simp: publicKeyCallback_def connection_session_def extension_def Let_def)
  then show ?thesis using assms(2) ok a by (auto simp: publicKeyCallback_def Let_def)
qed

definition system_ok :: "('w, 'key) server_env \<Rightarrow> Handler \<Rightarrow> 'w system \<Rightarrow> bool" where
  "system_ok se h s \<longleftrightarrow>
     store_ok (Some (sl_keys (sy_listener s))) \<and> same_config h (sl_handler (sy_listener s)) \<and>
     (\<forall>c info. sy_conns s c = Some info \<longrightarrow> authentic (sv_ssh se) info) \<and>
     (\<forall>i l. sy_live s i = Some l \<longrightarrow> (\<exists>info. sy_conns s (lv_conn l) = Some info \<and>
        si_Tier (lv_sess l) = si_Tier info \<and> si_Fingerprint (lv_sess l) = si_Fingerprint info))"

lemma site_step_ok: "site_step se s s' \<Longrightarrow> system_ok se h s \<Longrightarrow> system_ok se h s'"
proof (induction rule: site_step.induct)
  case (connected s c key perms sl)
  from connected(3) have "store_ok (Some (sl_keys (sy_listener s)))" by (simp add: system_ok_def)
  note cb = callback_authentic [OF this connected(2)]
  have "lv_conn l \<noteq> c" if "sy_live s i = Some l" for i l
    using connected(1,3) that unfolding system_ok_def by (metis option.distinct(1))
  with connected(3) cb show ?case by (simp add: system_ok_def)
next
  case (connected_without_key s c)
  have "authentic (sv_ssh se) (connection_session None)" by (simp add: authentic_def connection_session_def)
  moreover have "lv_conn l \<noteq> c" if "sy_live s i = Some l" for i l
    using connected_without_key that unfolding system_ok_def by (metis option.distinct(1))
  ultimately show ?case using connected_without_key(2) by (simp add: system_ok_def)
next
  case (waits s i l req sess ok)
  then show ?case using session_request_identity [OF waits(3)] by (auto simp: system_ok_def)
next
  case (executes s i l req cmd sl ch w)
  then show ?case using executeCommand_keys [OF executes(4)] same_config_trans by (auto simp: system_ok_def)
next
  case (shell_runs s i l buf sl ch w)
  then show ?case using shell_line_keys [OF shell_runs(4)] same_config_trans by (auto simp: system_ok_def)
qed (auto simp: system_ok_def dest: callback_authentic)

lemma reachable_ok:
  assumes "reachable se (fresh_system sl w) s" "store_ok (Some (sl_keys sl))"
  shows "system_ok se (sl_handler sl) s"
  using assms(1)
proof (induction rule: reachable.induct)
  case start
  show ?case using assms(2) by (simp add: system_ok_def fresh_system_def)
next
  case (step s s')
  then show ?case using site_step_ok by blast
qed

text \<open>C12: Who a session acts as cannot change: in every state that any interleaving of key offers,
  connections, session requests, commands, shell lines and changes of the environment can reach, a
  session's tier and fingerprint are those its connection authenticated with, which are either none
  or the fingerprint of a key with the tier \<open>identified\<close> or \<open>trusted\<close>; and the handler still
  serves the same configuration.\<close>

theorem session_identity_invariant:
  assumes "reachable se (fresh_system sl w) s" "store_ok (Some (sl_keys sl))" "sy_live s i = Some l"
  shows "\<exists>info. sy_conns s (lv_conn l) = Some info \<and> authentic (sv_ssh se) info \<and>
    si_Tier (lv_sess l) = si_Tier info \<and> si_Fingerprint (lv_sess l) = si_Fingerprint info \<and>
    same_config (sl_handler sl) (sl_handler (sy_listener s))"
  using reachable_ok [OF assms(1,2)] assms(3) unfolding system_ok_def by metis

lemma chosen_key_runs:
  assumes "length v < 2 ^ 32" "length path < 2 ^ 16" "path \<noteq> []" "no_space path"
  shows "Fields (''receive-pack '' @ path) = [''receive-pack'', path]"
    "handleSession se sl ch [\<lparr>sr_Type = ''env'', sr_Payload = env_payload ''SSHWEB_PUBKEY'' v\<rparr>,
       \<lparr>sr_Type = ''exec'', sr_Payload = ssh_string (''receive-pack '' @ path)\<rparr>] sess w =
     executeCommand se sl (reply True (reply True ch)) (''receive-pack '' @ path) (sess\<lparr>si_PublicKey := v\<rparr>) w"
proof -
  have w: "is_word ''receive-pack''" "is_word path" using assms(3,4) by (auto simp: is_word_def is_space_def ascii_def)
  then show "Fields (''receive-pack '' @ path) = [''receive-pack'', path]"
    using Fields_word_space [of "''receive-pack''" path] Fields_word [of path] by simp
  have "parseEnvPayload (env_payload ''SSHWEB_PUBKEY'' v) = Some (''SSHWEB_PUBKEY'', v)"
    by (rule parse_env [where t = "[]"]) (use assms(1) in simp_all)
  moreover have "exec_payload (ssh_string (''receive-pack '' @ path)) = Some (''receive-pack '' @ path)"
    by (rule parse_exec [where t = "[]"]) (use assms(2) in simp_all)
  ultimately show "handleSession se sl ch [\<lparr>sr_Type = ''env'', sr_Payload = env_payload ''SSHWEB_PUBKEY'' v\<rparr>,
       \<lparr>sr_Type = ''exec'', sr_Payload = ssh_string (''receive-pack '' @ path)\<rparr>] sess w =
     executeCommand se sl (reply True (reply True ch)) (''receive-pack '' @ path) (sess\<lparr>si_PublicKey := v\<rparr>) w"
    by (simp add: session_request_def)
qed

text \<open>C36: The public key a session presents to the backend is not bound to anything: any session, also
  one without a key, that sends \<open>SSHWEB_PUBKEY\<close> in an \<open>env\<close> request before its command has the
  backend told that value as its public key.\<close>

theorem client_chooses_public_key:
  assumes "length v < 2 ^ 32" "length path < 2 ^ 16" "path \<noteq> []" "no_space path"
    and "\<not> denied (sl_handler sl) ''receive-pack'' [path] sess" "fst (Allow (sl_limiter sl) (si_Tier sess) (sv_now se w))"
    and "Root (site (sl_handler sl)) = []" "hd_backend (sl_handler sl) = Some b"
    and "request_ok (ev_http (sv_env se)) ''GET'' (BaseURL b @ path)"
    and h: "handleSession se sl ch [\<lparr>sr_Type = ''env'', sr_Payload = env_payload ''SSHWEB_PUBKEY'' v\<rparr>,
      \<lparr>sr_Type = ''exec'', sr_Payload = ssh_string (''receive-pack '' @ path)\<rparr>] sess w = Some (sl', ch', w')"
  shows "\<exists>req. w' = snd (client_do (ev_http (sv_env se)) w req) \<and>
    identity_of req = (si_Tier sess, si_Fingerprint sess, v)"
proof -
  let ?sess = "sess\<lparr>si_PublicKey := v\<rparr>"
  note c = chosen_key_runs [OF assms(1-4)]
  obtain r h' s' where e: "ExecuteBinary (sv_env se) (sv_write se) (sl_handler sl) ''receive-pack'' [path] ?sess w
      (reply True (reply True ch)) = Some (r, h', w', s')"
    using h [unfolded c(2) executeCommand_def c(1)] assms(6) by (auto simp: Let_def split: prod.splits option.splits sum.splits)
  have "\<not> denied (sl_handler sl) ''receive-pack'' [path] ?sess" using assms(5) by (simp add: denied_def)
  from fetch_request_sent [OF this disjI1 [OF assms(7)] assms(8,9) e] show ?thesis
    by (intro exI conjI) (assumption, simp)
qed


subsection \<open>Witnesses\<close>

definition demo_server :: "(nat, string) server_env" where
  "demo_server = \<lparr>sv_env = demo_env, sv_ssh = demo_ssh, sv_keys_file = (\<lambda>w. demo_keys), sv_now = (\<lambda>w. 0),
     sv_write = (\<lambda>ch b. ((length b, True), ch\<lparr>ch_out := ch_out ch @ b\<rparr>)), sv_error_text = (\<lambda>e. ''failed'')\<rparr>"

definition demo_listener :: siteListener where
  "demo_listener = \<lparr>sl_site = site demo_handler, sl_handler = demo_handler,
     sl_keys = \<lparr>ak_entries = Map.empty, ak_comments = Map.empty, ak_path = ''/k''\<rparr>, sl_limiter = Some (New demo_limits 0)\<rparr>"

lemma demo_data_only: "data_only demo_server"
  by (simp add: data_only_def demo_server_def)

lemma demo_listener_simps [simp]: "sl_handler demo_listener = demo_handler" "sl_limiter demo_listener = Some (New demo_limits 0)"
    "sv_env demo_server = demo_env" "sv_now demo_server = (\<lambda>w. 0)"
  by (simp_all add: demo_listener_def demo_server_def)

text \<open>A command nobody is granted fails, or is refused before that; the handler and the world stay.\<close>

lemma denied_command:
  assumes "Fields cmd = [verb]" "denied (sl_handler sl) verb [] sess"
  shows "\<exists>sl' ch'. executeCommand se sl ch cmd sess w = Some (sl', ch', w) \<and> sl_handler sl' = sl_handler sl"
  using assms by (auto simp: executeCommand_def Let_def ExecuteBinary_def split: prod.split)

lemma demo_command: "Fields ''nope'' = [''nope'']" "si_Tier sess = ''anonymous'' \<Longrightarrow> denied demo_handler ''nope'' [] sess"
proof -
  show "Fields ''nope'' = [''nope'']" by code_simp
  have "\<not> IsCommandAllowed ''anonymous'' (joinCommand ''nope'' []) (Auth (site demo_handler))" by code_simp
  then show "si_Tier sess = ''anonymous'' \<Longrightarrow> denied demo_handler ''nope'' [] sess" by (simp add: denied_def)
qed

definition demo_visitor :: SessionInfo where
  "demo_visitor = \<lparr>si_Tier = ''anonymous'', si_Fingerprint = [], si_PublicKey = []\<rparr>"

theorem exit_status_meaning_witness:
  "\<exists>sl' ch'. executeCommand demo_server demo_listener new_chan ''nope'' demo_visitor 0 = Some (sl', ch', 0) \<and>
     ch_exit ch' = [1]"
proof -
  have d: "denied (sl_handler demo_listener) ''nope'' [] demo_visitor" by (simp add: demo_command demo_visitor_def)
  obtain sl' ch' where e: "executeCommand demo_server demo_listener new_chan ''nope'' demo_visitor 0 = Some (sl', ch', 0)"
    using denied_command [OF demo_command(1) d, of demo_server new_chan 0] by blast
  have "limit_spec demo_limits Anonymous = show_nat 2 @ ''/'' @ ''min''" by code_simp
  from burst_new [OF this, of 0 0] have "fst (Allow (Some (New demo_limits 0)) ''anonymous'' 0)"
    by (simp add: rate_units_def replicate_numeral_2 gate_run_Cons TierAnonymous_def)
  with exit_status_meaning [OF demo_data_only e] e d show ?thesis
    by (simp add: demo_command new_chan_def demo_visitor_def ExecuteBinary_def)
qed

theorem rate_limit_end_to_end_witness:
  "\<exists>ns. exec_all demo_server demo_listener (replicate 3 (''nope'', demo_visitor)) 0 = Some ns \<and>
     length (filter (\<lambda>(c, n). si_Tier (snd c) = ''anonymous'' \<and> n \<noteq> 3)
       (zip (replicate 3 (''nope'', demo_visitor)) ns)) = 2"
proof -
  let ?cs = "replicate 3 (''nope'', demo_visitor)"
  have d: "denied demo_handler ''nope'' [] demo_visitor" by (simp add: demo_command demo_visitor_def)
  have "\<exists>ns. exec_all demo_server sl (replicate k (''nope'', demo_visitor)) 0 = Some ns" if "sl_handler sl = demo_handler" for k sl
    using that
  proof (induction k arbitrary: sl)
    case (Suc k)
    obtain sl' ch' where "executeCommand demo_server sl new_chan ''nope'' demo_visitor 0 = Some (sl', ch', 0)"
      "sl_handler sl' = demo_handler"
      using denied_command [OF demo_command(1), of sl demo_visitor demo_server new_chan 0] Suc.prems d by auto
    with Suc.IH [of sl'] show ?case by auto
  qed simp
  then obtain ns where ns: "exec_all demo_server demo_listener ?cs 0 = Some ns" by fastforce
  have l: "limit_spec demo_limits Anonymous = show_nat 2 @ ''/'' @ ''min''" by code_simp
  have "list_all (\<lambda>(cmd, sess :: SessionInfo). Fields cmd \<noteq> []) ?cs" by (simp add: demo_command list_all_iff)
  from rate_limit_end_to_end [OF demo_data_only _ _ l _ _ _ this ns, of 0] ns show ?thesis
    by (simp add: rate_units_def TierAnonymous_def demo_visitor_def)
qed

theorem session_identity_invariant_witness:
  "\<exists>(s :: nat system) l info. sy_live s 7 = Some l \<and> si_PublicKey (lv_sess l) = ''forged'' \<and> sy_conns s 3 = Some info \<and>
     authentic demo_ssh info \<and> si_Tier (lv_sess l) = si_Tier info \<and> si_Fingerprint (lv_sess l) = si_Fingerprint info"
proof -
  obtain perms sl where cb: "publicKeyCallback demo_server demo_listener ''BBB'' 0 = (perms, sl)" by force
  let ?i = "connection_session (Some perms)" and ?s0 = "fresh_system demo_listener (0 :: nat)"
  let ?l = "\<lparr>lv_conn = 3, lv_sess = ?i, lv_shell = False, lv_chan = new_chan\<rparr>"
  let ?req = "\<lparr>sr_Type = ''env'', sr_Payload = env_payload ''SSHWEB_PUBKEY'' ''forged''\<rparr>"
  let ?s1 = "?s0\<lparr>sy_listener := sl, sy_conns := [3 \<mapsto> ?i]\<rparr>"
  let ?s2 = "?s1\<lparr>sy_live := [7 \<mapsto> ?l]\<rparr>"
  let ?l3 = "?l\<lparr>lv_sess := ?i\<lparr>si_PublicKey := ''forged''\<rparr>, lv_chan := reply True new_chan\<rparr>"
  let ?s3 = "?s2\<lparr>sy_live := [7 \<mapsto> ?l3]\<rparr>"
  have "session_request ?i ?req = Wait (?i\<lparr>si_PublicKey := ''forged''\<rparr>) True"
    using parse_env [of "''SSHWEB_PUBKEY''" "''forged''" _ "[]"] by (simp add: session_request_def)
  then have c3: "site_step demo_server ?s2 ?s3"
    using site_step.waits [of ?s2 7 ?l ?req "?i\<lparr>si_PublicKey := ''forged''\<rparr>" True demo_server] by simp
  have c1: "site_step demo_server ?s0 ?s1"
    using site_step.connected [of ?s0 3 demo_server "''BBB''" perms sl] cb by (simp add: fresh_system_def)
  have c2: "site_step demo_server ?s1 ?s2"
    using site_step.opened [of ?s1 3 ?i 7 demo_server] by (simp add: fresh_system_def)
  have "reachable demo_server ?s0 ?s3"
    by (rule reachable.step [OF reachable.step [OF reachable.step [OF reachable.start c1] c2] c3])
  moreover have "store_ok (Some (sl_keys demo_listener))" by (simp add: store_ok_def demo_listener_def)
  moreover have "sy_live ?s3 7 = Some ?l3" by simp
  ultimately have "\<exists>info. sy_conns ?s3 (lv_conn ?l3) = Some info \<and> authentic (sv_ssh demo_server) info \<and>
    si_Tier (lv_sess ?l3) = si_Tier info \<and> si_Fingerprint (lv_sess ?l3) = si_Fingerprint info \<and>
    same_config (sl_handler demo_listener) (sl_handler (sy_listener ?s3))"
    by (rule session_identity_invariant)
  then show ?thesis
    by (intro exI [of _ ?s3] exI [of _ ?l3]) (simp add: demo_server_def fresh_system_def)
qed

theorem client_chooses_public_key_witness:
  "\<exists>req. (1 :: nat) = snd (client_do demo_http 0 req) \<and> identity_of req = (''identified'', ''SHA256:ab'', ''forged'')"
proof -
  let ?sl = "demo_listener\<lparr>sl_limiter := None\<rparr>"
  let ?reqs = "[\<lparr>sr_Type = ''env'', sr_Payload = env_payload ''SSHWEB_PUBKEY'' ''forged''\<rparr>,
      \<lparr>sr_Type = ''exec'', sr_Payload = ssh_string (''receive-pack '' @ ''/x'')\<rparr>]"
  have f: "Fields (''receive-pack '' @ ''/x'') = [''receive-pack'', ''/x'']"
    and k: "handleSession demo_server ?sl new_chan ?reqs demo_session 0 = executeCommand demo_server ?sl
      (reply True (reply True new_chan)) (''receive-pack '' @ ''/x'') (demo_session\<lparr>si_PublicKey := ''forged''\<rparr>) 0"
    by (rule chosen_key_runs [where v = "''forged''"]; simp add: is_space_def ascii_def)+
  have d: "\<not> denied (sl_handler ?sl) ''receive-pack'' [''/x''] demo_session"
    using demo_granted [of "''receive-pack''" "[''/x'']"] by (simp add: denied_granted del: demo_handler_site(1))
  have h: "client_do demo_http 0 x = (Some demo_resp, Suc 0)" "request_ok demo_http = (\<lambda>m t. True)" "ev_http demo_env = demo_http" for x
    by (simp_all add: demo_http_def demo_env_def)
  have r: "Root (site (sl_handler ?sl)) = []" by (simp add: demo_api_site_def zero_SiteConfig_def)
  have a: "Allow None t n = (True, None)" for t n by (simp add: Allow_def)
  obtain sl' ch' where e: "handleSession demo_server ?sl new_chan ?reqs demo_session 0 = Some (sl', ch', Suc 0)"
  proof -
    have "receivePackBinary demo_env (sv_write demo_server) demo_handler [''/x''] s 0 ch =
        backend_resource demo_env (sv_write demo_server) \<lparr>BaseURL = ''http://127.0.0.1:8080''\<rparr> [''/x''] s 0 ch" for s ch
      using r by (simp add: receivePackBinary_def)
    moreover have "\<exists>x ch'. backend_resource demo_env (sv_write demo_server) bk [''/x''] s 0 ch = (x, Suc 0, ch')" for bk s ch
      by (simp add: backend_resource_def FetchResource_def h demo_resp_def Let_def split: prod.split)
    ultimately have "\<exists>x ch'. receivePackBinary demo_env (sv_write demo_server) demo_handler [''/x''] s 0 ch = (x, Suc 0, ch')" for s ch
      by metis
    then obtain x ch' where "receivePackBinary demo_env (sv_write demo_server) demo_handler [''/x'']
        (demo_session\<lparr>si_PublicKey := ''forged''\<rparr>) 0 (reply True (reply True new_chan)) = (x, Suc 0, ch')" by blast
    moreover have "\<not> denied demo_handler ''receive-pack'' [''/x''] (demo_session\<lparr>si_PublicKey := k\<rparr>)" for k
      using d by (simp add: denied_def)
    ultimately have "\<exists>sl' ch'. executeCommand demo_server ?sl (reply True (reply True new_chan)) (''receive-pack '' @ ''/x'')
        (demo_session\<lparr>si_PublicKey := ''forged''\<rparr>) 0 = Some (sl', ch', Suc 0)"
      unfolding executeCommand_def f using a
      by (auto simp: Let_def ExecuteBinary_def split: sum.splits)
    then show ?thesis using that unfolding k by blast
  qed
  have "\<exists>req. Suc 0 = snd (client_do (ev_http (sv_env demo_server)) 0 req) \<and>
    identity_of req = (si_Tier demo_session, si_Fingerprint demo_session, ''forged'')"
    by (rule client_chooses_public_key [OF _ _ _ _ d _ r _ _ e]) (simp_all add: a h is_space_def ascii_def)
  then show ?thesis by (simp add: h demo_session_def)
qed
end
