(* ===== verification/Command_Returns.thy ===== *)
theory Command_Returns
  imports Session_Props
begin

text \<open>
  When the commands of a session come back.  The definitions of the code return \<open>None\<close> where it
  would wait for ever; this is shown to happen in one way only.
\<close>

subsection \<open>Waiting for the MCP server\<close>

text \<open>The server sends \<open>n\<close> more lines, none of them an answer to the request, and does not end.\<close>

fun unanswered :: "'w mcp_lib \<Rightarrow> int \<Rightarrow> nat \<Rightarrow> 'w \<Rightarrow> bool" where
  "unanswered lib rid 0 w \<longleftrightarrow> True"
| "unanswered lib rid (Suc n) w \<longleftrightarrow>
     (case mcp_read_line lib w of (None, w') \<Rightarrow> False
      | (Some line, w') \<Rightarrow> answer_to rid line = None \<and> unanswered lib rid n w')"

definition waits_forever :: "'w mcp_lib \<Rightarrow> int \<Rightarrow> 'w \<Rightarrow> bool" where
  "waits_forever lib rid w \<longleftrightarrow> (\<forall>n. unanswered lib rid n w)"

lemma await_answered: "\<not> unanswered lib rid n w \<Longrightarrow> await lib rid w \<noteq> None"
proof (induction n arbitrary: w)
  case (Suc n)
  then show ?case by (subst await.simps) (auto split: prod.split option.split)
qed simp

lemma await_unanswered: "await lib rid w = Some y \<Longrightarrow> \<exists>n. \<not> unanswered lib rid n w"
proof (rule await.raw_induct [where P = "\<lambda>lib rid w y. \<exists>n. \<not> unanswered lib rid n w"])
  fix aw and lib :: "'w mcp_lib" and rid w y
  assume ih: "\<And>lib rid w y. aw lib rid w = Some y \<Longrightarrow> \<exists>n. \<not> unanswered (lib :: 'w mcp_lib) rid n w"
    and b: "(case mcp_read_line lib w of (None, w') \<Rightarrow> Some (Inl ReadingLine, w')
      | (Some line, w') \<Rightarrow> (case answer_to rid line of None \<Rightarrow> aw lib rid w' | Some r \<Rightarrow> Some (r, w'))) = Some y"
  obtain l w' where r: "mcp_read_line lib w = (l, w')" by (cases "mcp_read_line lib w")
  show "\<exists>n. \<not> unanswered lib rid n w"
  proof (cases "\<exists>line. l = Some line \<and> answer_to rid line = None")
    case True
    then obtain line where l: "l = Some line" "answer_to rid line = None" by blast
    with b r obtain n where "\<not> unanswered lib rid n w'" using ih [of lib rid w' y] by auto
    with r l have "\<not> unanswered lib rid (Suc n) w" by simp
    then show ?thesis by blast
  next
    case False
    with r have "\<not> unanswered lib rid (Suc 0) w" by (auto split: option.split)
    then show ?thesis by blast
  qed
qed

lemma await_None: "await lib rid w = None \<longleftrightarrow> waits_forever lib rid w"
  using await_answered [of lib rid _ w] await_unanswered [of lib rid w] unfolding waits_forever_def by fastforce

lemma CallTool_None:
  "CallTool lib name arguments p w = None \<longleftrightarrow>
     (\<exists>w'. mcp_write lib w (request_line (Some (sint (pr_nextID p + 1))) ''tools/call''
        (Some (json_map [(''name'', JStr name), (''arguments'', json_map arguments)]))) = (True, w') \<and>
      waits_forever lib (sint (pr_nextID p + 1)) w')"
  by (auto simp: CallTool_def call_def Let_def await_None [symmetric] request_line_def split: prod.splits option.splits sum.splits bool.splits)

lemma mcp_None:
  "mcp ev h args sess w = None \<longleftrightarrow>
     (\<exists>tool kvs p al. args = tool # kvs \<and> hd_mcp h = Some p \<and> mcp_arguments kvs [] = Inr al \<and>
        CallTool (ev_mcp ev) tool al p w = None)"
  by (auto simp: mcp_def split: list.splits option.splits sum.splits prod.splits)

lemma Execute_None: "Execute ev h cmd args sess w = None \<longleftrightarrow> \<not> denied h cmd args sess \<and> cmd = ''mcp'' \<and> mcp ev h args sess w = None"
  by (auto simp: Execute_def split: prod.splits)

lemma ExecuteBinary_None:
  "ExecuteBinary ev write h cmd args sess w s = None \<longleftrightarrow>
     \<not> denied h cmd args sess \<and> cmd = ''mcp'' \<and> mcp ev h args sess w = None"
  using Execute_None [of ev h cmd args sess w]
  by (auto simp: ExecuteBinary_def split: prod.splits option.splits sum.splits)


end
