(* ===== verification/Host_Key.thy ===== *)
theory Host_Key
  imports Go_Path
begin

text \<open>
  Host keys in \<open>internal/server/server.go\<close>: \<open>loadHostKey\<close> and \<open>generateAndLoadHostKey\<close>.  Key
  generation, signers and the two key formats of the SSH library, and the file operations of the
  operating system, are the record \<open>host_lib\<close> of parameters on a state \<open>'w\<close>; base64 and PEM belong
  to Go's standard library and are written out.
\<close>

subsection \<open>Base64 and PEM\<close>

definition base64_char :: "nat \<Rightarrow> char" where
  "base64_char n = ''ABCDEFGHIJKLMNOPQRSTUVWXYZabcdefghijklmnopqrstuvwxyz0123456789+/'' ! n"

fun base64 :: "bytes \<Rightarrow> string" where
  "base64 [] = []"
| "base64 [a] =
     (let n = of_char a * 65536 in [base64_char (n div 262144), base64_char (n div 4096 mod 64), CHR ''='', CHR ''=''])"
| "base64 [a, b] =
     (let n = of_char a * 65536 + of_char b * 256
      in [base64_char (n div 262144), base64_char (n div 4096 mod 64), base64_char (n div 64 mod 64), CHR ''=''])"
| "base64 (a # b # c # s) =
     (let n = of_char a * 65536 + of_char b * 256 + of_char c
      in base64_char (n div 262144) # base64_char (n div 4096 mod 64) # base64_char (n div 64 mod 64) #
         base64_char (n mod 64) # base64 s)"

text \<open>The lines of a PEM body: 64 characters each, the last one shorter.\<close>

function pem_lines :: "string \<Rightarrow> string" where
  "pem_lines s = (if s = [] then [] else take 64 s @ LF # pem_lines (drop 64 s))"
  by auto
termination by (relation "measure length") auto

declare pem_lines.simps [simp del]

record pem_block =
  pem_Type :: string
  pem_Bytes :: bytes

text \<open>\<open>pem.EncodeToMemory\<close> of a block without headers.\<close>

definition EncodeToMemory :: "pem_block \<Rightarrow> bytes" where
  "EncodeToMemory b =
     ''-----BEGIN '' @ pem_Type b @ ''-----'' @ [LF] @ pem_lines (base64 (pem_Bytes b)) @
     ''-----END '' @ pem_Type b @ ''-----'' @ [LF]"

text \<open>\<open>filepath.Dir\<close>: what precedes the last element, cleaned.\<close>

definition path_Dir :: "string \<Rightarrow> string" where
  "path_Dir path = Clean (rev (dropWhile (\<lambda>c. c \<noteq> CHR ''/'') (rev path)))"

subsection \<open>The code\<close>

text \<open>The part of \<open>ssh.ServerConfig\<close> that the program sets itself, apart from the callback: the signers
  are those that \<open>AddHostKey\<close> was called with.\<close>

record 'signer ServerConfig =
  NoClientAuth :: bool
  sc_hostKeys :: "'signer list"

definition AddHostKey :: "'signer \<Rightarrow> 'signer ServerConfig \<Rightarrow> 'signer ServerConfig" where
  "AddHostKey signer cfg = cfg\<lparr>sc_hostKeys := sc_hostKeys cfg @ [signer]\<rparr>"

datatype read_result = ReadOk bytes | NotExist | ReadFailed

text \<open>The last argument of the two operations that create files is the mode; 448 is \<open>0700\<close>, 384 is
  \<open>0600\<close>.\<close>

record ('w, 'priv, 'signer) host_lib =
  os_ReadFile :: "'w \<Rightarrow> string \<Rightarrow> read_result"
  os_MkdirAll :: "'w \<Rightarrow> string \<Rightarrow> nat \<Rightarrow> bool \<times> 'w"
  os_WriteFile :: "'w \<Rightarrow> string \<Rightarrow> bytes \<Rightarrow> nat \<Rightarrow> bool \<times> 'w"
  GenerateKey :: "'w \<Rightarrow> 'priv option \<times> 'w"
  NewSignerFromKey :: "'priv \<Rightarrow> 'signer option"
  MarshalPrivateKey :: "'priv \<Rightarrow> pem_block option"
  ParsePrivateKey :: "bytes \<Rightarrow> 'signer option"

datatype hostkey_error =
    HK_Reading
  | HK_Parsing
  | HK_Generating
  | HK_CreatingSigner
  | HK_CreatingDirectory
  | HK_Marshaling
  | HK_Writing

definition generateAndLoadHostKey :: "('w, 'priv, 'signer) host_lib \<Rightarrow> 'signer ServerConfig \<Rightarrow> string \<Rightarrow> 'w \<Rightarrow>
    (hostkey_error + 'signer ServerConfig) \<times> 'w" where
  "generateAndLoadHostKey lib cfg path w =
     (case GenerateKey lib w of
        (None, w1) \<Rightarrow> (Inl HK_Generating, w1)
      | (Some priv, w1) \<Rightarrow>
          (case NewSignerFromKey lib priv of
             None \<Rightarrow> (Inl HK_CreatingSigner, w1)
           | Some signer \<Rightarrow>
               (case os_MkdirAll lib w1 (path_Dir path) 448 of
                  (False, w2) \<Rightarrow> (Inl HK_CreatingDirectory, w2)
                | (True, w2) \<Rightarrow>
                    (case MarshalPrivateKey lib priv of
                       None \<Rightarrow> (Inl HK_Marshaling, w2)
                     | Some block \<Rightarrow>
                         (case os_WriteFile lib w2 path (EncodeToMemory block) 384 of
                            (False, w3) \<Rightarrow> (Inl HK_Writing, w3)
                          | (True, w3) \<Rightarrow> (Inr (AddHostKey signer cfg), w3))))))"

definition loadHostKey :: "('w, 'priv, 'signer) host_lib \<Rightarrow> 'signer ServerConfig \<Rightarrow> string \<Rightarrow> 'w \<Rightarrow>
    (hostkey_error + 'signer ServerConfig) \<times> 'w" where
  "loadHostKey lib cfg path w =
     (case os_ReadFile lib w path of
        NotExist \<Rightarrow> generateAndLoadHostKey lib cfg path w
      | ReadFailed \<Rightarrow> (Inl HK_Reading, w)
      | ReadOk keyBytes \<Rightarrow>
          (case ParsePrivateKey lib keyBytes of
             None \<Rightarrow> (Inl HK_Parsing, w)
           | Some signer \<Rightarrow> (Inr (AddHostKey signer cfg), w)))"

subsection \<open>The identity of a host\<close>

text \<open>What the library and the operating system promise: a file that has been written is read back,
  and the key in a marshalled block is the key that was marshalled.\<close>

definition key_files :: "('w, 'priv, 'signer) host_lib \<Rightarrow> bool" where
  "key_files lib \<longleftrightarrow>
     (\<forall>w path d m w'. os_WriteFile lib w path d m = (True, w') \<longrightarrow> os_ReadFile lib w' path = ReadOk d) \<and>
     (\<forall>priv block. MarshalPrivateKey lib priv = Some block \<longrightarrow>
        ParsePrivateKey lib (EncodeToMemory block) = NewSignerFromKey lib priv)"

text \<open>Loading leaves one more signer, which is on the disk now.\<close>

lemma loadHostKey_on_disk:
  assumes "key_files lib" "loadHostKey lib cfg path w = (Inr cfg', w')"
  shows "\<exists>signer d. cfg' = AddHostKey signer cfg \<and> os_ReadFile lib w' path = ReadOk d \<and> ParsePrivateKey lib d = Some signer"
  using assms
  by (fastforce simp: loadHostKey_def generateAndLoadHostKey_def key_files_def
    split: read_result.splits option.splits prod.splits bool.splits)

lemma loadHostKey_existing: "os_ReadFile lib w path \<noteq> NotExist \<Longrightarrow> snd (loadHostKey lib cfg path w) = w"
  by (auto simp: loadHostKey_def split: read_result.splits option.splits)

text \<open>C23: A host keeps its identity.  Whenever a start has loaded or generated a host key, every later
  start that finds the file as this one left it loads the same key and nothing else; and a start
  that finds a file, readable or not, valid or not, never changes anything.\<close>

theorem host_key_persists:
  assumes "key_files lib" "loadHostKey lib cfg path w = (Inr cfg', w')"
    and "os_ReadFile lib w2 path = os_ReadFile lib w' path"
  shows "\<exists>signer. cfg' = AddHostKey signer cfg \<and> loadHostKey lib cfg2 path w2 = (Inr (AddHostKey signer cfg2), w2) \<and>
    (os_ReadFile lib w path \<noteq> NotExist \<longrightarrow> w' = w)"
proof -
  obtain signer d where "cfg' = AddHostKey signer cfg" "os_ReadFile lib w' path = ReadOk d" "ParsePrivateKey lib d = Some signer"
    using loadHostKey_on_disk [OF assms(1,2)] by blast
  moreover have "os_ReadFile lib w path \<noteq> NotExist \<longrightarrow> w' = w"
    using loadHostKey_existing [of lib w path cfg] assms(2) by auto
  ultimately show ?thesis using assms(3) by (auto simp: loadHostKey_def)
qed

text \<open>Files by their paths and a counter for the keys.\<close>

definition demo_host :: "((string \<Rightarrow> bytes option) \<times> nat, nat, bytes) host_lib" where
  "demo_host = \<lparr>os_ReadFile = (\<lambda>w p. case fst w p of None \<Rightarrow> NotExist | Some d \<Rightarrow> ReadOk d),
     os_MkdirAll = (\<lambda>w p m. (True, w)), os_WriteFile = (\<lambda>w p d m. (True, ((fst w)(p \<mapsto> d), snd w))),
     GenerateKey = (\<lambda>w. (Some (snd w), (fst w, Suc (snd w)))),
     NewSignerFromKey = (\<lambda>k. Some (EncodeToMemory \<lparr>pem_Type = ''KEY'', pem_Bytes = replicate k CHR ''k''\<rparr>)),
     MarshalPrivateKey = (\<lambda>k. Some \<lparr>pem_Type = ''KEY'', pem_Bytes = replicate k CHR ''k''\<rparr>), ParsePrivateKey = Some\<rparr>"

theorem host_key_persists_witness:
  "\<exists>cfg' w'. loadHostKey demo_host \<lparr>NoClientAuth = True, sc_hostKeys = []\<rparr> ''/k'' (Map.empty, 3) = (Inr cfg', w') \<and>
     (\<exists>signer. cfg' = AddHostKey signer \<lparr>NoClientAuth = True, sc_hostKeys = []\<rparr> \<and>
       loadHostKey demo_host cfg' ''/k'' w' = (Inr (AddHostKey signer cfg'), w'))"
proof -
  have k: "key_files demo_host" by (auto simp: key_files_def demo_host_def)
  obtain cfg' w' where l: "loadHostKey demo_host \<lparr>NoClientAuth = True, sc_hostKeys = []\<rparr> ''/k'' (Map.empty, 3) = (Inr cfg', w')"
    by (simp add: loadHostKey_def generateAndLoadHostKey_def demo_host_def)
  from host_key_persists [OF k l refl, of cfg'] l show ?thesis by blast
qed

end
