(* ===== verification/Server.thy ===== *)
theory Server
  imports Session Host_Key Config_Parser
begin

text \<open>
  The daemon of \<open>internal/server/server.go\<close> and \<open>cmd/sshttpd/main.go\<close>: building a listener for every
  site, and the life of the listeners, whose accept loops, \<open>ListenAndServe\<close> and \<open>Close\<close> run
  concurrently and are the steps of a relation.  A site's listener as \<open>New\<close> makes it extends the
  \<open>siteListener\<close> the sessions use by the SSH configuration.
\<close>

subsection \<open>Building the server\<close>

record 'signer site_listener = siteListener +
  sl_sshCfg :: "'signer ServerConfig"

datatype site_error =
    LoadingAuthorizedKeys ak_error
  | LoadingHostKey hostkey_error
  | CreatingHandler handler_error

datatype server_error = NoSitesConfigured | SiteFailed string site_error

record 'signer Server =
  sr_cfg :: Config
  sr_sites :: "'signer site_listener list"

definition newSiteListener :: "('w, 'key) server_env \<Rightarrow> ('w, 'priv, 'signer) host_lib \<Rightarrow> Config \<Rightarrow> nat \<Rightarrow> 'w \<Rightarrow>
    ((site_error + 'signer site_listener) \<times> 'w) option" where
  "newSiteListener se hl cfg idx w =
     (let site = Sites cfg ! idx in
      case LoadAuthorizedKeys (sv_ssh se) (sv_keys_file se w) (AuthorizedKeysPath site) of
        Inl e \<Rightarrow> Some (Inl (LoadingAuthorizedKeys e), w)
      | Inr authorizedKeys \<Rightarrow>
          let sshCfg = \<lparr>NoClientAuth = True, sc_hostKeys = []\<rparr> in
          (case (if HostKey site \<noteq> [] then loadHostKey hl sshCfg (HostKey site) w else (Inr sshCfg, w)) of
             (Inl e, w1) \<Rightarrow> Some (Inl (LoadingHostKey e), w1)
           | (Inr sshCfg', w1) \<Rightarrow>
               (case NewHandlerForSite (sv_env se) cfg (int idx) w1 of
                  None \<Rightarrow> None
                | Some (Inl e, w2) \<Rightarrow> Some (Inl (CreatingHandler e), w2)
                | Some (Inr handler, w2) \<Rightarrow>
                    Some (Inr \<lparr>sl_site = site, sl_handler = handler, sl_keys = authorizedKeys,
                      sl_limiter = Some (New (Limits site) (sv_now se w2)), sl_sshCfg = sshCfg'\<rparr>, w2))))"

text \<open>The loop of \<open>New\<close> over the site numbers.\<close>

fun new_sites :: "('w, 'key) server_env \<Rightarrow> ('w, 'priv, 'signer) host_lib \<Rightarrow> Config \<Rightarrow> nat list \<Rightarrow>
    'signer site_listener list \<Rightarrow> 'w \<Rightarrow> ((server_error + 'signer site_listener list) \<times> 'w) option" where
  "new_sites se hl cfg [] sites w = Some (Inr sites, w)"
| "new_sites se hl cfg (i # is) sites w =
     (case newSiteListener se hl cfg i w of
        None \<Rightarrow> None
      | Some (Inl e, w') \<Rightarrow> Some (Inl (SiteFailed (Host (Sites cfg ! i)) e), w')
      | Some (Inr sl, w') \<Rightarrow> new_sites se hl cfg is (sites @ [sl]) w')"

definition server_New :: "('w, 'key) server_env \<Rightarrow> ('w, 'priv, 'signer) host_lib \<Rightarrow> Config \<Rightarrow> 'w \<Rightarrow>
    ((server_error + 'signer Server) \<times> 'w) option" where
  "server_New se hl cfg w =
     (if length (Sites cfg) = 0 then Some (Inl NoSitesConfigured, w)
      else (case new_sites se hl cfg [0..<length (Sites cfg)] [] w of
          None \<Rightarrow> None
        | Some (Inl e, w') \<Rightarrow> Some (Inl e, w')
        | Some (Inr sites, w') \<Rightarrow> Some (Inr \<lparr>sr_cfg = cfg, sr_sites = sites\<rparr>, w')))"

subsection \<open>The program\<close>

text \<open>What \<open>main\<close> does with its two flags until it serves: the version, a fatal error, or a server and
  the port it announces.\<close>

datatype ('signer) start =
    PrintsVersion
  | FailedToLoad perr
  | FailedToCreate server_error
  | Serves "'signer Server" int

definition sshttpd_main :: "('w, 'key) server_env \<Rightarrow> ('w, 'priv, 'signer) host_lib \<Rightarrow> ('w \<Rightarrow> string \<Rightarrow> string option) \<Rightarrow>
    bool \<Rightarrow> string \<Rightarrow> 'w \<Rightarrow> ('signer start \<times> 'w) option" where
  "sshttpd_main se hl read_file showVersion configPath w =
     (if showVersion then Some (PrintsVersion, w)
      else (case Load (read_file w) configPath of
          None \<Rightarrow> None
        | Some (Inl e) \<Rightarrow> Some (FailedToLoad e, w)
        | Some (Inr cfg) \<Rightarrow>
            (case server_New se hl cfg w of
               None \<Rightarrow> None
             | Some (Inl e, w') \<Rightarrow> Some (FailedToCreate e, w')
             | Some (Inr srv, w') \<Rightarrow> Some (Serves srv (Port (Sites cfg ! 0)), w'))))"

end
