(* ===== verification/Server_Props.thy ===== *)
theory Server_Props
  imports Server Session_Props Config_Roundtrip
begin

text \<open>
  The daemon as a whole: what the listeners of a server hold, and what the configuration means for
  the commands its sessions execute.
\<close>

subsection \<open>Every site serves its configuration\<close>

lemma NewHandlerForSite_site:
  "NewHandlerForSite ev cfg (int i) w = Some (Inr h, w') \<Longrightarrow> site h = Sites cfg ! i \<and> i < length (Sites cfg)"
  by (auto simp: NewHandlerForSite_def site_def Let_def split: if_splits sum.splits option.splits)

lemma loadHostKey_adds: "loadHostKey hl c path w = (Inr c', w') \<Longrightarrow> \<exists>signer. c' = AddHostKey signer c"
  by (auto simp: loadHostKey_def generateAndLoadHostKey_def
    split: read_result.splits option.splits prod.splits bool.splits)

definition site_built :: "SiteConfig \<Rightarrow> 'signer site_listener \<Rightarrow> bool" where
  "site_built st sl \<longleftrightarrow> sl_site sl = st \<and> site (sl_handler sl) = st \<and> store_ok (Some (sl_keys sl)) \<and>
     (\<exists>t. sl_limiter sl = Some (New (Limits st) t)) \<and> NoClientAuth (sl_sshCfg sl) \<and>
     length (sc_hostKeys (sl_sshCfg sl)) = (if HostKey st = [] then 0 else 1)"

lemma newSiteListener_built:
  assumes "newSiteListener se hl cfg i w = Some (Inr sl, w')"
  shows "site_built (Sites cfg ! i) sl"
  using assms loadHostKey_adds
  by (fastforce simp: newSiteListener_def site_built_def AddHostKey_def Let_def
    dest: NewHandlerForSite_site LoadAuthorizedKeys_ok split: sum.splits prod.splits option.splits if_splits)

lemma new_sites_built:
  assumes "new_sites se hl cfg is sites w = Some (Inr sites', w')"
  shows "\<exists>new. sites' = sites @ new \<and> list_all2 (\<lambda>i sl. site_built (Sites cfg ! i) sl) is new"
  using assms
proof (induction "is" arbitrary: sites w)
  case (Cons i "is")
  then obtain sl w1 where sl: "newSiteListener se hl cfg i w = Some (Inr sl, w1)"
    "new_sites se hl cfg is (sites @ [sl]) w1 = Some (Inr sites', w')"
    by (auto split: option.splits sum.splits)
  from Cons.IH [OF sl(2)] newSiteListener_built [OF sl(1)] show ?case by auto
qed auto

lemma server_New_built:
  assumes "server_New se hl cfg w = Some (Inr srv, w')"
  shows "Sites cfg \<noteq> [] \<and> list_all2 site_built (Sites cfg) (sr_sites srv)"
proof -
  have ne: "Sites cfg \<noteq> []" using assms by (auto simp: server_New_def)
  then have "new_sites se hl cfg [0..<length (Sites cfg)] [] w = Some (Inr (sr_sites srv), w')"
    using assms by (auto simp: server_New_def split: option.splits sum.splits)
  from new_sites_built [OF this] have "list_all2 (\<lambda>i sl. site_built (Sites cfg ! i) sl) [0..<length (Sites cfg)] (sr_sites srv)"
    by auto
  with ne show ?thesis by (auto simp: list_all2_conv_all_nth)
qed

text \<open>C14: Starting the program serves what the configuration file says: when \<open>main\<close> gets as far as
  serving, the file parsed, there is one listener for every \<open>site\<close> block in their order, and each
  has the block's configuration in its handler, a limiter with the block's limits, a key store in
  which every key has a known tier, and exactly the host key the block asks for.\<close>

theorem main_serves_the_file:
  assumes "sshttpd_main se hl read_file False path w = Some (Serves srv port, w')"
  shows "\<exists>text cfg. read_file w path = Some text \<and> parseConfig text = Some (Inr cfg) \<and> Sites cfg \<noteq> [] \<and>
    port = Port (hd (Sites cfg)) \<and> list_all2 site_built (Sites cfg) (sr_sites srv)"
proof -
  obtain cfg where cfg: "Load (read_file w) path = Some (Inr cfg)" "server_New se hl cfg w = Some (Inr srv, w')"
    "port = Port (Sites cfg ! 0)"
    using assms by (auto simp: sshttpd_main_def split: option.splits sum.splits)
  have "\<exists>text. read_file w path = Some text \<and> parseConfig text = Some (Inr cfg)"
    using cfg(1) by (auto simp: Load_def split: option.splits)
  with server_New_built [OF cfg(2)] cfg(3) show ?thesis by (auto simp: hd_conv_nth)
qed

subsection \<open>Authorisation, from the configuration to the executed command\<close>

lemma granted_tier: "si_Tier s = si_Tier s' \<Longrightarrow> granted st (cmd, args, s) = granted st (cmd, args, s')"
  by (simp add: granted_def)

lemma denied_command_effects:
  assumes "Fields cmd = verb # args" "denied (sl_handler sl) verb args sess"
    and "executeCommand se sl ch cmd sess w = Some (sl', ch', w')"
  shows "w' = w \<and> sl_handler sl' = sl_handler sl \<and> ch_out ch' = ch_out ch \<and> (\<exists>n \<in> {1, 3}. ch_exit ch' = ch_exit ch @ [n])"
  using assms by (auto simp: executeCommand_def Let_def ExecuteBinary_def exit_status_def print_err_def split: prod.splits if_splits)

text \<open>C2: Authorisation holds end to end.  Take any configuration, the listener the server builds for
  one of its sites, any interleaving of that site's connections and sessions, and any session that
  is alive then.  A command that the site's \<open>auth\<close> block does not grant to the tier the session's
  connection authenticated with ends with status 1, or 3 when the limiter refuses it; it changes
  neither the outside world nor the handler and writes no output.\<close>

theorem end_to_end_authorisation:
  assumes "server_New se hl cfg w0 = Some (Inr srv, w1)" "i < length (Sites cfg)"
    and "reachable se (fresh_system (siteListener.truncate (sr_sites srv ! i)) w2) s"
    and "sy_live s j = Some l" "sy_conns s (lv_conn l) = Some info"
    and "Fields cmd = verb # args" "\<not> granted (Sites cfg ! i) (verb, args, info)"
    and "executeCommand se (sy_listener s) ch cmd (lv_sess l) (sy_world s) = Some (sl', ch', w')"
  shows "w' = sy_world s \<and> sl_handler sl' = sl_handler (sy_listener s) \<and> ch_out ch' = ch_out ch \<and>
    (\<exists>n \<in> {1, 3}. ch_exit ch' = ch_exit ch @ [n])"
proof -
  let ?sl = "siteListener.truncate (sr_sites srv ! i)"
  have "site_built (Sites cfg ! i) (sr_sites srv ! i)"
    using server_New_built [OF assms(1)] assms(2) by (simp add: list_all2_conv_all_nth)
  then have sl: "site (sl_handler ?sl) = Sites cfg ! i" "store_ok (Some (sl_keys ?sl))"
    by (simp_all add: site_built_def siteListener.defs)
  have ok: "system_ok se (sl_handler ?sl) s" by (rule reachable_ok [OF assms(3) sl(2)])
  then have st: "site (sl_handler (sy_listener s)) = Sites cfg ! i"
    using sl(1) by (auto simp: system_ok_def dest: same_config_site)
  have t: "si_Tier (lv_sess l) = si_Tier info" using ok assms(4,5) unfolding system_ok_def by (metis option.inject)
  have "denied (sl_handler (sy_listener s)) verb args (lv_sess l)"
    using assms(7) granted_tier [OF t] by (simp add: denied_granted st)
  from denied_command_effects [OF assms(6) this assms(8)] show ?thesis .
qed


subsection \<open>Witnesses\<close>

definition demo_keygen :: "(nat, nat, bytes) host_lib" where
  "demo_keygen = \<lparr>os_ReadFile = (\<lambda>w p. NotExist), os_MkdirAll = (\<lambda>w p m. (True, w)), os_WriteFile = (\<lambda>w p d m. (True, w)),
     GenerateKey = (\<lambda>w. (Some w, Suc w)), NewSignerFromKey = (\<lambda>k. Some (replicate k CHR ''k'')),
     MarshalPrivateKey = (\<lambda>k. Some \<lparr>pem_Type = ''KEY'', pem_Bytes = []\<rparr>), ParsePrivateKey = Some\<rparr>"

definition demo_file :: "site_decl list" where
  "demo_file = [SiteDecl ''a.org'' [SHostKey ''/k'', SPort 22]]"

lemma demo_file_value: "config_value demo_file = \<lparr>Sites = [zero_SiteConfig\<lparr>Host := ''a.org'', Port := 22, HostKey := ''/k''\<rparr>]\<rparr>"
  by (simp add: demo_file_def config_value_def)

lemma demo_file_parse: "parseConfig (config_text demo_file) = Some (Inr (config_value demo_file))"
  by (rule parse_printed) (simp add: demo_file_def pword_def word_char_def is_blank_def min_int64_def max_int64_def)

lemma demo_file_starts: "\<exists>srv w'. server_New demo_server demo_keygen (config_value demo_file) 0 = Some (Inr srv, w')"
  by (simp add: server_New_def demo_file_value newSiteListener_def zero_SiteConfig_def LoadAuthorizedKeys_def loadHostKey_def
    generateAndLoadHostKey_def demo_keygen_def NewHandlerForSite_def backend_New_def zero_ProxyCacheConfig_def Let_def)

theorem main_serves_the_file_witness:
  "\<exists>srv w'. sshttpd_main demo_server demo_keygen (\<lambda>w p. Some (config_text demo_file)) False ''/etc/c'' 0 =
     Some (Serves srv 22, w') \<and> list_all2 site_built (Sites (config_value demo_file)) (sr_sites srv)"
proof -
  obtain srv w' where m: "sshttpd_main demo_server demo_keygen (\<lambda>w p. Some (config_text demo_file)) False ''/etc/c'' 0 =
     Some (Serves srv 22, w')"
    using demo_file_starts by (auto simp: sshttpd_main_def Load_def demo_file_parse demo_file_value)
  from main_serves_the_file [OF m] m demo_file_parse show ?thesis by auto
qed

theorem end_to_end_authorisation_witness:
  "\<exists>sl sl' ch'. executeCommand demo_server sl new_chan ''nope'' demo_visitor 9 = Some (sl', ch', 9) \<and>
     ch_out ch' = [] \<and> (\<exists>n \<in> {1, 3}. ch_exit ch' = [n])"
proof -
  obtain srv w1 where srv: "server_New demo_server demo_keygen (config_value demo_file) 0 = Some (Inr srv, w1)"
    using demo_file_starts by blast
  let ?sl = "siteListener.truncate (sr_sites srv ! 0)"
  let ?s0 = "fresh_system ?sl (9 :: nat)"
  let ?s1 = "?s0\<lparr>sy_conns := [0 \<mapsto> demo_visitor]\<rparr>"
  let ?l = "\<lparr>lv_conn = 0, lv_sess = demo_visitor, lv_shell = False, lv_chan = new_chan\<rparr>"
  let ?s2 = "?s1\<lparr>sy_live := [0 \<mapsto> ?l]\<rparr>"
  have v: "connection_session None = demo_visitor"
    by (simp add: connection_session_def demo_visitor_def TierAnonymous_def)
  have c1: "site_step demo_server ?s0 ?s1"
    using site_step.connected_without_key [of ?s0 0 demo_server] v by (simp add: fresh_system_def)
  have c2: "site_step demo_server ?s1 ?s2"
    using site_step.opened [of ?s1 0 demo_visitor 0 demo_server] by (simp add: fresh_system_def)
  have r: "reachable demo_server ?s0 ?s2" by (rule reachable.step [OF reachable.step [OF reachable.start c1] c2])
  have i: "0 < length (Sites (config_value demo_file))" by (simp add: demo_file_value)
  have g: "\<not> granted (Sites (config_value demo_file) ! 0) (''nope'', [], demo_visitor)"
  proof -
    have "\<not> granted (site \<lparr>hd_cfg = config_value demo_file, hd_siteIdx = 0, hd_backend = None, hd_proxy = None, hd_mcp = None\<rparr>)
        (''nope'', [], demo_visitor)"
      unfolding denied_granted [symmetric] by (simp add: denied_def site_def demo_file_value IsCommandAllowed_def demo_visitor_def
        zero_SiteConfig_def zero_AuthConfig_def TierAnonymous_def)
    then show ?thesis by (simp add: site_def)
  qed
  have "site (sl_handler ?sl) = Sites (config_value demo_file) ! 0"
    using server_New_built [OF srv] i by (simp add: list_all2_conv_all_nth site_built_def siteListener.defs)
  then have "denied (sl_handler ?sl) ''nope'' [] demo_visitor" using g by (simp add: denied_granted)
  then obtain sl' ch' where e: "executeCommand demo_server ?sl new_chan ''nope'' demo_visitor 9 = Some (sl', ch', 9)"
    using denied_command [OF demo_command(1), of ?sl demo_visitor demo_server new_chan 9] by blast
  have "9 = sy_world ?s2 \<and> sl_handler sl' = sl_handler (sy_listener ?s2) \<and> ch_out ch' = ch_out new_chan \<and>
      (\<exists>n \<in> {1, 3}. ch_exit ch' = ch_exit new_chan @ [n])"
    by (rule end_to_end_authorisation [OF srv i r _ _ demo_command(1) g, of 0 ?l])
      (simp_all add: fresh_system_def e)
  then show ?thesis using e by (auto simp: new_chan_def)
qed
end
