(* ===== verification/Daemon.thy ===== *)
theory Daemon
  imports Prelude
begin

text \<open>
  The life of the listeners in \<open>internal/server/server.go\<close>: \<open>ListenAndServe\<close>, the accept loop of every
  site and \<open>Close\<close> run concurrently.  A state says what \<open>ListenAndServe\<close> is doing, whether the server
  is closed, and for every site its listener, whether its loop runs and how many connections it has
  handed on; an event is one atomic action of one of the threads.
\<close>

subsection \<open>States and events\<close>

datatype listener_state = NoListener | Listening | Shut

record site_run =
  rn_listener :: listener_state
  rn_loop :: bool
  rn_accepted :: nat

text \<open>\<open>Returned b\<close>: with an error iff \<open>b\<close>.\<close>

datatype serving = Starting nat | WaitingForLoops | Returned bool

record daemon =
  dm_closed :: bool
  dm_sites :: "site_run list"
  dm_serve :: serving

definition new_daemon :: "nat \<Rightarrow> daemon" where
  "new_daemon n = \<lparr>dm_closed = False,
     dm_sites = replicate n \<lparr>rn_listener = NoListener, rn_loop = False, rn_accepted = 0\<rparr>, dm_serve = Starting 0\<rparr>"

datatype event =
    Listen bool
  | AllStarted
  | Accept nat
  | AcceptError nat
  | Closing
  | Returning

text \<open>\<open>net.Listen\<close> for the next site: on success its accept loop is started.\<close>

definition listen_next :: "bool \<Rightarrow> nat \<Rightarrow> daemon \<Rightarrow> daemon" where
  "listen_next ok k d =
     (if ok then d\<lparr>dm_sites := (dm_sites d)[k := (dm_sites d ! k)\<lparr>rn_listener := Listening, rn_loop := True\<rparr>],
                   dm_serve := Starting (Suc k)\<rparr>
      else d\<lparr>dm_serve := Returned True\<rparr>)"

text \<open>One turn of \<open>acceptLoop\<close>; \<open>net.ErrClosed\<close> is the error of a listener that is shut.\<close>

definition acceptLoop_turn :: "bool \<Rightarrow> nat \<Rightarrow> daemon \<Rightarrow> daemon" where
  "acceptLoop_turn ok i d =
     (let r = dm_sites d ! i in
      if ok then d\<lparr>dm_sites := (dm_sites d)[i := r\<lparr>rn_accepted := Suc (rn_accepted r)\<rparr>]\<rparr>
      else if dm_closed d \<or> rn_listener r = Shut then d\<lparr>dm_sites := (dm_sites d)[i := r\<lparr>rn_loop := False\<rparr>]\<rparr>
      else d)"

definition shut :: "site_run \<Rightarrow> site_run" where
  "shut r = (if rn_listener r = NoListener then r else r\<lparr>rn_listener := Shut\<rparr>)"

definition Close :: "daemon \<Rightarrow> daemon" where
  "Close d = d\<lparr>dm_closed := True, dm_sites := map shut (dm_sites d)\<rparr>"

text \<open>\<open>None\<close>: the event cannot happen in this state.\<close>

fun daemon_next :: "event \<Rightarrow> daemon \<Rightarrow> daemon option" where
  "daemon_next (Listen ok) d =
     (case dm_serve d of Starting k \<Rightarrow> if k < length (dm_sites d) then Some (listen_next ok k d) else None | _ \<Rightarrow> None)"
| "daemon_next AllStarted d =
     (if dm_serve d = Starting (length (dm_sites d)) then Some (d\<lparr>dm_serve := WaitingForLoops\<rparr>) else None)"
| "daemon_next (Accept i) d =
     (if i < length (dm_sites d) \<and> rn_loop (dm_sites d ! i) \<and> rn_listener (dm_sites d ! i) = Listening
      then Some (acceptLoop_turn True i d) else None)"
| "daemon_next (AcceptError i) d =
     (if i < length (dm_sites d) \<and> rn_loop (dm_sites d ! i) then Some (acceptLoop_turn False i d) else None)"
| "daemon_next Closing d = Some (Close d)"
| "daemon_next Returning d =
     (if dm_serve d = WaitingForLoops \<and> list_all (\<lambda>r. \<not> rn_loop r) (dm_sites d)
      then Some (d\<lparr>dm_serve := Returned False\<rparr>) else None)"

fun run :: "event list \<Rightarrow> daemon \<Rightarrow> daemon option" where
  "run [] d = Some d"
| "run (e # es) d = (case daemon_next e d of None \<Rightarrow> None | Some d' \<Rightarrow> run es d')"

lemma run_append: "run (es @ fs) d = (case run es d of None \<Rightarrow> None | Some d' \<Rightarrow> run fs d')"
  by (induction es arbitrary: d) (auto split: option.split)

text \<open>What every event keeps, every run keeps.\<close>

lemma run_invariant:
  assumes "\<And>e d d'. P d \<Longrightarrow> daemon_next e d = Some d' \<Longrightarrow> P d'"
  shows "P d \<Longrightarrow> run es d = Some d' \<Longrightarrow> P d'"
  by (induction es arbitrary: d) (auto split: option.splits intro: assms)

subsection \<open>The invariant\<close>

text \<open>Sites are started in order; a loop has ended, and a listener is shut, only in a closed server.\<close>

definition started :: "daemon \<Rightarrow> nat" where
  "started d = (case dm_serve d of Starting k \<Rightarrow> k | Returned True \<Rightarrow> 0 | _ \<Rightarrow> length (dm_sites d))"

definition site_run_ok :: "bool \<Rightarrow> site_run \<Rightarrow> bool" where
  "site_run_ok closed r \<longleftrightarrow>
     (rn_listener r = NoListener \<longrightarrow> \<not> rn_loop r) \<and>
     (rn_listener r = Listening \<longrightarrow> closed \<or> rn_loop r) \<and> (rn_listener r = Shut \<longrightarrow> closed)"

definition daemon_ok :: "daemon \<Rightarrow> bool" where
  "daemon_ok d \<longleftrightarrow> started d \<le> length (dm_sites d) \<and>
     (dm_serve d = Returned False \<longrightarrow> list_all (\<lambda>r. \<not> rn_loop r) (dm_sites d)) \<and>
     (\<forall>r \<in> set (dm_sites d). site_run_ok (dm_closed d) r) \<and>
     (\<forall>r \<in> set (take (started d) (dm_sites d)). rn_listener r \<noteq> NoListener)"

lemma daemon_ok_new: "daemon_ok (new_daemon n)"
  by (simp add: daemon_ok_def new_daemon_def started_def site_run_ok_def)

lemma set_take_update: "set (take n (xs[i := x])) \<subseteq> insert x (set (take n xs))"
  by (simp add: take_update_swap set_update_subset_insert)

lemma turn_ok:
  assumes "daemon_ok d" "i < length (dm_sites d)" "rn_loop (dm_sites d ! i)"
  shows "daemon_ok (acceptLoop_turn ok i d)"
proof -
  let ?r = "dm_sites d ! i" and ?d = "acceptLoop_turn ok i d"
  have r: "site_run_ok (dm_closed d) ?r" "rn_listener ?r \<noteq> NoListener"
    using assms by (auto simp: daemon_ok_def site_run_ok_def)
  define r' where "r' = (if ok then ?r\<lparr>rn_accepted := Suc (rn_accepted ?r)\<rparr>
    else if dm_closed d \<or> rn_listener ?r = Shut then ?r\<lparr>rn_loop := False\<rparr> else ?r)"
  have d: "?d = d\<lparr>dm_sites := (dm_sites d)[i := r']\<rparr>"
    by (simp add: r'_def acceptLoop_turn_def Let_def)
  then have s: "started ?d = started d" by (simp add: started_def split: serving.split bool.split)
  have r': "site_run_ok (dm_closed d) r'" "rn_listener r' \<noteq> NoListener"
    using r by (auto simp: r'_def site_run_ok_def)
  have "dm_serve d \<noteq> Returned False" using assms by (auto simp: daemon_ok_def list_all_length)
  then show ?thesis
    using assms(1) r' set_update_subset_insert [of "dm_sites d" i r'] set_take_update [of "started d" "dm_sites d" i r']
    unfolding daemon_ok_def s by (auto simp: d)
qed

lemma daemon_ok_next: "daemon_ok d \<Longrightarrow> daemon_next e d = Some d' \<Longrightarrow> daemon_ok d'"
proof (induction e d rule: daemon_next.induct)
  case (1 ok d)
  then obtain k where k: "dm_serve d = Starting k" "k < length (dm_sites d)" "d' = listen_next ok k d"
    by (auto split: serving.splits if_splits)
  let ?r = "(dm_sites d ! k)\<lparr>rn_listener := Listening, rn_loop := True\<rparr>"
  have "take (Suc k) ((dm_sites d)[k := ?r]) = take k (dm_sites d) @ [?r]"
    using k(2) by (simp add: take_Suc_conv_app_nth)
  then show ?case
    using 1(1) k set_update_subset_insert [of "dm_sites d" k ?r]
    by (auto simp: daemon_ok_def started_def listen_next_def site_run_ok_def)
next
  case (2 d)
  then show ?case by (auto simp: daemon_ok_def started_def split: if_splits)
next
  case (5 d)
  then show ?case
    by (auto simp: daemon_ok_def started_def Close_def shut_def site_run_ok_def list_all_iff take_map
      split: serving.splits bool.splits)
next
  case (6 d)
  then show ?case by (auto simp: daemon_ok_def started_def split: if_splits)
qed (auto intro: turn_ok split: if_splits)

lemma daemon_ok_run: "run es (new_daemon n) = Some d \<Longrightarrow> daemon_ok d"
  using run_invariant [of daemon_ok] daemon_ok_next daemon_ok_new by blast


subsection \<open>What starts and stops the server\<close>

lemma closed_iff: "run es d = Some d' \<Longrightarrow> dm_closed d' \<longleftrightarrow> dm_closed d \<or> Closing \<in> set es"
proof (induction es arbitrary: d)
  case (Cons e es)
  have "dm_closed d'' \<longleftrightarrow> dm_closed d \<or> e = Closing" if "daemon_next e d = Some d''" for d''
    using that by (cases e) (auto simp: listen_next_def acceptLoop_turn_def Close_def Let_def split: if_splits serving.splits)
  with Cons show ?case by (auto split: option.splits)
qed simp

lemma sites_length: "run es d = Some d' \<Longrightarrow> length (dm_sites d') = length (dm_sites d)"
proof (induction es arbitrary: d)
  case (Cons e es)
  have "length (dm_sites d'') = length (dm_sites d)" if "daemon_next e d = Some d''" for d''
    using that by (cases e) (auto simp: listen_next_def acceptLoop_turn_def Close_def Let_def split: if_splits serving.splits)
  with Cons show ?case by (auto split: option.splits)
qed simp

lemma new_daemon_simps [simp]: "length (dm_sites (new_daemon n)) = n" "\<not> dm_closed (new_daemon n)"
  by (simp_all add: new_daemon_def)

text \<open>C20: Nothing but \<open>Close\<close> ends serving.  However the threads are interleaved and whatever \<open>Accept\<close>
  returns, until \<open>Close\<close> is called every site that has been started is listening and its accept loop
  runs, and \<open>ListenAndServe\<close> has not returned, unless \<open>net.Listen\<close> failed.\<close>

theorem serves_until_closed:
  assumes "run es (new_daemon n) = Some d" "Closing \<notin> set es" "0 < n"
  shows "dm_serve d \<noteq> Returned False \<and>
    (\<forall>i < started d. rn_listener (dm_sites d ! i) = Listening \<and> rn_loop (dm_sites d ! i))"
proof -
  have c: "\<not> dm_closed d" and n: "length (dm_sites d) = n"
    using closed_iff [OF assms(1)] sites_length [OF assms(1)] assms(2) by auto
  have ok: "daemon_ok d" by (rule daemon_ok_run [OF assms(1)])
  have up: "rn_listener (dm_sites d ! i) = Listening \<and> rn_loop (dm_sites d ! i)" if "i < started d" for i
  proof -
    have "i < length (dm_sites d)" "dm_sites d ! i \<in> set (take (started d) (dm_sites d))"
      using ok that by (auto simp: daemon_ok_def in_set_conv_nth)
    then have "site_run_ok False (dm_sites d ! i)" "rn_listener (dm_sites d ! i) \<noteq> NoListener"
      using ok c by (auto simp: daemon_ok_def)
    then show ?thesis by (cases "rn_listener (dm_sites d ! i)") (auto simp: site_run_ok_def)
  qed
  moreover have "dm_serve d \<noteq> Returned False"
  proof
    assume r: "dm_serve d = Returned False"
    then have "rn_loop (dm_sites d ! 0)" using up [of 0] n assms(3) by (simp add: started_def)
    moreover have "\<not> rn_loop (dm_sites d ! 0)" using ok r n assms(3) by (auto simp: daemon_ok_def list_all_length)
    ultimately show False by simp
  qed
  ultimately show ?thesis by blast
qed

theorem serves_until_closed_witness:
  "\<exists>d. run [Listen True, AcceptError 0, Accept 0, Listen True, AllStarted, AcceptError 0] (new_daemon 2) = Some d \<and>
     dm_serve d \<noteq> Returned False \<and> (\<forall>i < started d. rn_listener (dm_sites d ! i) = Listening \<and> rn_loop (dm_sites d ! i))"
proof -
  obtain d where d: "run [Listen True, AcceptError 0, Accept 0, Listen True, AllStarted, AcceptError 0] (new_daemon 2) = Some d"
    by (simp add: new_daemon_def listen_next_def acceptLoop_turn_def numeral_2_eq_2)
  from serves_until_closed [OF this] show ?thesis using d by auto
qed

text \<open>What is left to do after a shutdown: the loops that run, and returning.\<close>

definition pending :: "daemon \<Rightarrow> nat" where
  "pending d = length (filter rn_loop (dm_sites d)) + (if dm_serve d = WaitingForLoops then 1 else 0)"

definition shutting :: "nat list \<Rightarrow> daemon \<Rightarrow> bool" where
  "shutting acc d \<longleftrightarrow> dm_serve d \<in> {WaitingForLoops, Returned False} \<and> list_all (\<lambda>r. rn_listener r = Shut) (dm_sites d) \<and>
     map rn_accepted (dm_sites d) = acc"

lemma pending_loop: "i < length rs \<Longrightarrow> rn_loop (rs ! i) \<Longrightarrow> \<not> rn_loop r \<Longrightarrow>
    length (filter rn_loop (rs[i := r])) + 1 = length (filter rn_loop rs)"
  by (induction rs arbitrary: i) (auto split: nat.splits)

lemma shutting_next:
  assumes "shutting acc d" "daemon_next e d = Some d'"
  shows "shutting acc d' \<and> (if e = Closing then pending d' = pending d else pending d' + 1 = pending d)"
proof (cases e)
  case (Accept i)
  with assms show ?thesis by (auto simp: shutting_def list_all_length split: if_splits)
next
  case (AcceptError i)
  then have i: "i < length (dm_sites d)" "rn_loop (dm_sites d ! i)" and d': "d' = acceptLoop_turn False i d"
    using assms by (auto split: if_splits)
  let ?r = "(dm_sites d ! i)\<lparr>rn_loop := False\<rparr>"
  have "rn_listener (dm_sites d ! i) = Shut" using assms(1) i by (simp add: shutting_def list_all_length)
  then have "d' = d\<lparr>dm_sites := (dm_sites d)[i := ?r]\<rparr>" by (simp add: d' acceptLoop_turn_def)
  moreover have "map rn_accepted ((dm_sites d)[i := ?r]) = map rn_accepted (dm_sites d)"
    using i by (simp add: map_update list_update_same_conv)
  ultimately show ?thesis
    using assms(1) AcceptError pending_loop [OF i, of ?r] set_update_subset_insert [of "dm_sites d" i ?r]
      \<open>rn_listener (dm_sites d ! i) = Shut\<close>
    by (auto simp: shutting_def pending_def list_all_iff)
next
  case Closing
  have "rn_loop (shut r) = rn_loop r" "rn_accepted (shut r) = rn_accepted r" for r by (simp_all add: shut_def)
  with assms Closing show ?thesis
    by (auto simp: shutting_def pending_def Close_def list_all_iff shut_def filter_map comp_def cong: filter_cong)
qed (use assms in \<open>auto simp: shutting_def pending_def split: if_splits\<close>)

lemma shutting_run: "shutting acc d \<Longrightarrow> run es d = Some d' \<Longrightarrow>
    shutting acc d' \<and> length (filter (\<lambda>e. e \<noteq> Closing) es) + pending d' = pending d"
proof (induction es arbitrary: d)
  case (Cons e es)
  then obtain d1 where d1: "daemon_next e d = Some d1" "run es d1 = Some d'" by (auto split: option.splits)
  note n = shutting_next [OF Cons.prems(1) d1(1)]
  from Cons.IH [OF _ d1(2)] n show ?case by (auto split: if_splits)
qed simp

lemma shutting_stuck:
  assumes "shutting acc d" "\<And>e. e \<noteq> Closing \<Longrightarrow> daemon_next e d = None"
  shows "dm_serve d = Returned False"
proof (rule ccontr)
  assume "dm_serve d \<noteq> Returned False"
  then have w: "dm_serve d = WaitingForLoops" using assms(1) by (auto simp: shutting_def)
  have "\<not> rn_loop r" if r: "r \<in> set (dm_sites d)" for r
  proof -
    obtain i where "i < length (dm_sites d)" "dm_sites d ! i = r" using r by (auto simp: in_set_conv_nth)
    then show ?thesis using assms(2) [of "AcceptError i"] by auto
  qed
  then show False using assms(2) [of Returning] w by (simp add: list_all_iff)
qed

text \<open>C19: \<open>Close\<close> shuts a running server down: once \<open>ListenAndServe\<close> has started all sites, after \<open>Close\<close>
  no site accepts another connection, there are at most as many further steps as sites and one
  more, and when there are none left \<open>ListenAndServe\<close> has returned without an error.\<close>

theorem close_shuts_down:
  assumes "run es (new_daemon n) = Some d" "dm_serve d = WaitingForLoops" "run fs (Close d) = Some d'"
  shows "list_all (\<lambda>r. rn_listener r = Shut) (dm_sites d') \<and> map rn_accepted (dm_sites d') = map rn_accepted (dm_sites d) \<and>
    length (filter (\<lambda>e. e \<noteq> Closing) fs) \<le> n + 1 \<and>
    ((\<forall>e. e \<noteq> Closing \<longrightarrow> daemon_next e d' = None) \<longrightarrow> dm_serve d' = Returned False)"
proof -
  have ok: "daemon_ok d" and n: "length (dm_sites d) = n"
    using daemon_ok_run [OF assms(1)] sites_length [OF assms(1)] by simp_all
  then have "shutting (map rn_accepted (dm_sites d)) (Close d)"
    using assms(2) by (auto simp: shutting_def Close_def shut_def daemon_ok_def started_def list_all_iff)
  note s = shutting_run [OF this assms(3)]
  have "pending (Close d) \<le> n + 1"
    using n length_filter_le [of rn_loop "map shut (dm_sites d)"] by (simp add: pending_def Close_def)
  with s have "length (filter (\<lambda>e. e \<noteq> Closing) fs) \<le> n + 1" by simp
  moreover have "(\<forall>e. e \<noteq> Closing \<longrightarrow> daemon_next e d' = None) \<longrightarrow> dm_serve d' = Returned False"
    using shutting_stuck s by blast
  ultimately show ?thesis using s by (simp add: shutting_def)
qed

theorem close_shuts_down_witness:
  "\<exists>d d'. run [Listen True, Accept 0, AllStarted] (new_daemon 1) = Some d \<and>
     run [AcceptError 0, Returning] (Close d) = Some d' \<and> list_all (\<lambda>r. rn_listener r = Shut) (dm_sites d') \<and>
     map rn_accepted (dm_sites d') = [1]"
proof -
  obtain d where d: "run [Listen True, Accept 0, AllStarted] (new_daemon 1) = Some d" "dm_serve d = WaitingForLoops"
      "map rn_accepted (dm_sites d) = [1]" and r: "dm_sites d = [\<lparr>rn_listener = Listening, rn_loop = True, rn_accepted = 1\<rparr>]"
    by (simp add: new_daemon_def listen_next_def acceptLoop_turn_def)
  obtain d' where d': "run [AcceptError 0, Returning] (Close d) = Some d'"
    by (simp add: Close_def shut_def acceptLoop_turn_def r d(2))
  from close_shuts_down [OF d(1,2) d'] d d' show ?thesis by auto
qed

text \<open>\<open>Close\<close> is lost on the sites that are not started yet: when it comes while \<open>ListenAndServe\<close> is
  still starting sites, the next site is started nevertheless and accepts connections, as many as
  come, in a server that is closed.\<close>

theorem early_close_is_lost:
  assumes "run es (new_daemon n) = Some d" "Closing \<in> set es" "dm_serve d = Starting k" "k < n"
  shows "\<exists>d'. run (Listen True # replicate m (Accept k)) d = Some d' \<and> dm_closed d' \<and>
    rn_listener (dm_sites d' ! k) = Listening \<and> rn_accepted (dm_sites d' ! k) = rn_accepted (dm_sites d ! k) + m"
proof -
  have c: "dm_closed d" and n: "length (dm_sites d) = n"
    using closed_iff [OF assms(1)] sites_length [OF assms(1)] assms(2) by auto
  have acc: "\<exists>d'. run (replicate m (Accept k)) d1 = Some d' \<and> dm_closed d' \<and>
      rn_listener (dm_sites d' ! k) = Listening \<and> rn_accepted (dm_sites d' ! k) = rn_accepted (dm_sites d1 ! k) + m"
    if "k < length (dm_sites d1)" "rn_loop (dm_sites d1 ! k)" "rn_listener (dm_sites d1 ! k) = Listening" "dm_closed d1" for d1
    using that
  proof (induction m arbitrary: d1)
    case (Suc m)
    have "daemon_next (Accept k) d1 = Some (acceptLoop_turn True k d1)" using Suc.prems by simp
    moreover obtain d' where "run (replicate m (Accept k)) (acceptLoop_turn True k d1) = Some d'" "dm_closed d'"
      "rn_listener (dm_sites d' ! k) = Listening"
      "rn_accepted (dm_sites d' ! k) = rn_accepted (dm_sites (acceptLoop_turn True k d1) ! k) + m"
      using Suc.IH [of "acceptLoop_turn True k d1"] Suc.prems by (auto simp: acceptLoop_turn_def Let_def)
    ultimately show ?case using Suc.prems by (simp add: acceptLoop_turn_def Let_def)
  qed simp
  have "daemon_next (Listen True) d = Some (listen_next True k d)" using assms(3,4) n by simp
  then show ?thesis using acc [of "listen_next True k d"] assms(4) n c by (simp add: listen_next_def)
qed

theorem early_close_is_lost_witness:
  "\<exists>d d'. run [Listen True, Closing] (new_daemon 2) = Some d \<and> run (Listen True # replicate 5 (Accept 1)) d = Some d' \<and>
     dm_closed d' \<and> rn_accepted (dm_sites d' ! 1) = 5"
proof -
  obtain d where d: "run [Listen True, Closing] (new_daemon 2) = Some d" "dm_serve d = Starting 1"
    "rn_accepted (dm_sites d ! 1) = 0"
    by (simp add: new_daemon_def listen_next_def Close_def shut_def numeral_2_eq_2)
  obtain d' where "run (Listen True # replicate 5 (Accept 1)) d = Some d'" "dm_closed d'" "rn_accepted (dm_sites d' ! 1) = 5"
    using early_close_is_lost [OF d(1) _ d(2), of 5] d(3) by (auto simp del: run.simps)
  with d(1) show ?thesis by blast
qed
end
