(* ===== verification/Client.thy ===== *)
theory Client
  imports Go_Json Float64
begin

text \<open>
  The MCP server \<open>cmd/sshweb-mcp\<close> that offers the tools of an SSH-Web site to an assistant: JSON-RPC on
  standard input and output, and an SSH client behind it.  TCP, SSH, the texts of foreign errors and
  the formats of floats are the record \<open>client_lib\<close> of parameters on a state \<open>'w\<close>.  The program has one
  thread; its state is the connection and what has been written.
\<close>

subsection \<open>Values\<close>

text \<open>A nil slice or map is \<open>None\<close>; a map is an association list whose last entry for a key counts.\<close>

definition as_slice :: "(json \<Rightarrow> 'a option) \<Rightarrow> json option \<Rightarrow> 'a list option option" where
  "as_slice dec j = (if j = None \<or> j = Some JNull then Some None else map_option Some (as_list dec j))"

fun as_map :: "(string \<Rightarrow> string option) \<Rightarrow> json option \<Rightarrow> (string \<times> json) list option option" where
  "as_map ft None = Some None"
| "as_map ft (Some JNull) = Some None"
| "as_map ft (Some (JObj kvs)) =
     map_option (\<lambda>kvs'. Some (assigned kvs' [])) (those (map (\<lambda>(k, v). map_option (Pair k) (iface ft v)) kvs))"
| "as_map ft (Some j) = None"

definition map_entries :: "(string \<times> json) list option \<Rightarrow> (string \<times> json) list" where
  "map_entries m = (case m of None \<Rightarrow> [] | Some kvs \<Rightarrow> kvs)"

text \<open>\<open>v.(string)\<close> with the zero value, as \<open>strOrEmpty\<close>.\<close>

definition strOrEmpty :: "json option \<Rightarrow> string" where
  "strOrEmpty v = (case v of Some (JStr s) \<Rightarrow> s | _ \<Rightarrow> [])"

definition boolOrFalse :: "json option \<Rightarrow> bool" where
  "boolOrFalse v = (case v of Some (JBool b) \<Rightarrow> b | _ \<Rightarrow> False)"

text \<open>The format \<open>%v\<close>; the argument formats floats.\<close>

fun fmt_v :: "(string \<Rightarrow> string) \<Rightarrow> json \<Rightarrow> string" where
  "fmt_v fv JNull = ''<nil>''"
| "fmt_v fv (JBool b) = (if b then ''true'' else ''false'')"
| "fmt_v fv (JNum n) = fv n"
| "fmt_v fv (JStr s) = s"
| "fmt_v fv (JArr vs) = ''['' @ Join (map (fmt_v fv) vs) '' '' @ '']''"
| "fmt_v fv (JObj kvs) = ''map['' @ Join (map (\<lambda>(k, v). k @ '':'' @ fmt_v fv v) kvs) '' '' @ '']''"

text \<open>The number a literal denotes, and \<open>int\<close> of it as a \<open>float64\<close>: out of range the result is the one
  of the amd64 instruction.\<close>

definition num_exp :: "string \<Rightarrow> int" where
  "num_exp s =
     (case s of [] \<Rightarrow> 0
      | _ # t \<Rightarrow> if HasPrefix t ''-'' then - int (dec_value (tl t)) else int (dec_value (TrimPrefix t ''+'')))"

definition num_rat :: "string \<Rightarrow> rat" where
  "num_rat s =
     (let t = TrimPrefix s ''-''; ip = takeWhile is_digit t; r = dropWhile is_digit t;
          fp = (if HasPrefix r ''.'' then takeWhile is_digit (tl r) else []);
          e = num_exp (if HasPrefix r ''.'' then dropWhile is_digit (tl r) else r) - int (length fp);
          m = of_nat (dec_value (ip @ fp));
          x = (if 0 \<le> e then m * 10 ^ nat e else m / 10 ^ nat (- e))
      in if HasPrefix s ''-'' then - x else x)"

definition float_int :: "string \<Rightarrow> int" where
  "float_int s =
     (let x = f64 (num_rat s); i = (if 0 \<le> x then \<lfloor>x\<rfloor> else - \<lfloor>- x\<rfloor>)
      in if min_int64 \<le> i \<and> i \<le> max_int64 then i else min_int64)"

subsection \<open>The connection\<close>

record toolParam =
  tp_typ :: string
  tp_required :: bool

record siteTool =
  st_name :: string
  st_description :: string
  st_params :: "(string \<times> toolParam) list"
  st_auth :: string

record mcpInfo =
  mi_Version :: string
  mi_Tools :: "(string \<times> json) list option list option"

record capabilitiesManifest =
  cm_Protocol :: string
  cm_SiteName :: string
  cm_SiteHost :: string
  cm_Commands :: "(string \<times> json) list option"
  cm_Modes :: "string list option"
  cm_KeyTypes :: "string list option"
  cm_MCP :: "mcpInfo option"
  cm_Feeds :: "(string \<times> json) list option"

record 'c sshwebConn =
  cn_host :: string
  cn_port :: int
  cn_client :: 'c
  cn_tools :: "siteTool list"
  cn_capabilities :: capabilitiesManifest

text \<open>\<open>NoSession\<close> and \<open>RunFailed\<close> hold the text of the error, \<open>RunFailed\<close> also what came on stderr.\<close>

datatype run_result = NoSession string | RunFailed string bytes | RunOk bytes

record ssh_config =
  cf_User :: string
  cf_Password :: string
  cf_InsecureIgnoreHostKey :: bool

record ('w, 't, 'c) client_lib =
  cl_tcp :: "'w \<Rightarrow> string \<Rightarrow> int \<Rightarrow> (string + 't) \<times> 'w"
  cl_tcp_close :: "'w \<Rightarrow> 't \<Rightarrow> 'w"
  cl_handshake :: "'w \<Rightarrow> 't \<Rightarrow> string \<Rightarrow> ssh_config \<Rightarrow> (string + 'c) \<times> 'w"
  cl_run :: "'w \<Rightarrow> 'c \<Rightarrow> string \<Rightarrow> run_result \<times> 'w"
  cl_close :: "'w \<Rightarrow> 'c \<Rightarrow> 'w"
  cl_order :: "'w \<Rightarrow> string list \<Rightarrow> string list"
  cl_json_error :: "string \<Rightarrow> string"
  cl_float_text :: "string \<Rightarrow> string option"
  cl_float_v :: "string \<Rightarrow> string"

text \<open>Ten seconds, in nanoseconds.\<close>

definition dialTimeout :: int where
  "dialTimeout = 10 * 1000000000"

definition sanitizeHost :: "string \<Rightarrow> string" where
  "sanitizeHost host = map (\<lambda>c. if c = CHR '':'' then CHR ''_'' else c) (map (\<lambda>c. if c = CHR ''.'' then CHR ''_'' else c) host)"

definition mcpName :: "siteTool \<Rightarrow> string \<Rightarrow> string" where
  "mcpName t host = sanitizeHost host @ ''/'' @ st_name t"

text \<open>The names of the parameters come in the order in which the runtime iterates over the map.\<close>

definition asMCPTool :: "('w, 't, 'c) client_lib \<Rightarrow> 'w \<Rightarrow> siteTool \<Rightarrow> string \<Rightarrow> json" where
  "asMCPTool lib w t host =
     (let names = cl_order lib w (map fst (st_params t));
          param = (\<lambda>name. case map_of (st_params t) name of Some p \<Rightarrow> p | None \<Rightarrow> \<lparr>tp_typ = [], tp_required = False\<rparr>);
          properties = json_map (map (\<lambda>name. let p = param name in (name, json_map [(''type'',
            JStr (if tp_typ p \<noteq> [] \<and> tp_typ p \<noteq> ''string'' then tp_typ p else ''string''))])) names);
          required = filter (\<lambda>name. tp_required (param name)) names;
          schema = json_map ([(''type'', JStr ''object''), (''properties'', properties)] @
            (if required \<noteq> [] then [(''required'', json_strings required)] else []));
          desc = (if st_description t = [] then ''MCP tool '' @ CHR 0x27 # st_name t @ CHR 0x27 # '' on '' @ host
                  else st_description t)
      in json_map [(''name'', JStr (mcpName t host)), (''description'', JStr desc), (''inputSchema'', schema)])"

definition host_port :: "string \<Rightarrow> int \<Rightarrow> string" where
  "host_port host port = host @ '':'' @ show_int port"

definition dialSSHWeb :: "('w, 't, 'c) client_lib \<Rightarrow> string \<Rightarrow> int \<Rightarrow> 'w \<Rightarrow> (string + 'c) \<times> 'w" where
  "dialSSHWeb lib host port w =
     (let addr = host_port host port;
          config = \<lparr>cf_User = ''anonymous'', cf_Password = [], cf_InsecureIgnoreHostKey = True\<rparr>
      in case cl_tcp lib w addr dialTimeout of
           (Inl e, w1) \<Rightarrow> (Inl (''TCP connect: '' @ e), w1)
         | (Inr tcp, w1) \<Rightarrow>
             (case cl_handshake lib w1 tcp addr config of
                (Inl e, w2) \<Rightarrow> (Inl (''SSH handshake: '' @ e), cl_tcp_close lib w2 tcp)
              | (Inr c, w2) \<Rightarrow> (Inr c, w2)))"

definition execCommand :: "('w, 't, 'c) client_lib \<Rightarrow> 'c \<Rightarrow> string \<Rightarrow> 'w \<Rightarrow> (string + string) \<times> 'w" where
  "execCommand lib c cmd w =
     (case cl_run lib w c cmd of
        (NoSession e, w') \<Rightarrow> (Inl (''new session: '' @ e), w')
      | (RunFailed e stderr, w') \<Rightarrow> (Inl (if stderr \<noteq> [] then e @ '': '' @ stderr else e), w')
      | (RunOk stdout, w') \<Rightarrow> (Inr stdout, w'))"

text \<open>\<open>json.Unmarshal\<close> into \<open>mcpInfo\<close> and \<open>capabilitiesManifest\<close>.\<close>

definition decode_mcpInfo :: "(string \<Rightarrow> string option) \<Rightarrow> (string \<times> json) list \<Rightarrow> mcpInfo option" where
  "decode_mcpInfo ft kvs =
     (case (as_string (json_field ''version'' kvs), as_slice (\<lambda>v. as_map ft (Some v)) (json_field ''tools'' kvs)) of
        (Some v, Some ts) \<Rightarrow> Some \<lparr>mi_Version = v, mi_Tools = ts\<rparr> | _ \<Rightarrow> None)"

definition decode_siteInfo :: "(string \<times> json) list \<Rightarrow> (string \<times> string) option" where
  "decode_siteInfo kvs =
     (case (as_string (json_field ''name'' kvs), as_string (json_field ''host'' kvs)) of
        (Some n, Some h) \<Rightarrow> Some (n, h) | _ \<Rightarrow> None)"

definition decode_authInfo :: "(string \<times> json) list \<Rightarrow> (string list option \<times> string list option) option" where
  "decode_authInfo kvs =
     (case (as_slice (\<lambda>v. as_string (Some v)) (json_field ''modes'' kvs),
            as_slice (\<lambda>v. as_string (Some v)) (json_field ''key_types'' kvs)) of
        (Some m, Some k) \<Rightarrow> Some (m, k) | _ \<Rightarrow> None)"

definition decode_manifest :: "(string \<Rightarrow> string option) \<Rightarrow> (string \<times> json) list \<Rightarrow> capabilitiesManifest option" where
  "decode_manifest ft kvs =
     (case (as_string (json_field ''protocol'' kvs), as_struct decode_siteInfo (json_field ''site'' kvs),
            as_map ft (json_field ''commands'' kvs), as_struct decode_authInfo (json_field ''auth'' kvs),
            as_struct_ptr (decode_mcpInfo ft) (json_field ''mcp'' kvs), as_map ft (json_field ''feeds'' kvs)) of
        (Some p, Some (n, h), Some cs, Some (ms, ks), Some m, Some fs) \<Rightarrow>
          Some \<lparr>cm_Protocol = p, cm_SiteName = n, cm_SiteHost = h, cm_Commands = cs, cm_Modes = ms,
            cm_KeyTypes = ks, cm_MCP = m, cm_Feeds = fs\<rparr>
      | _ \<Rightarrow> None)"

definition fetchCapabilities :: "('w, 't, 'c) client_lib \<Rightarrow> 'c \<Rightarrow> 'w \<Rightarrow> (string + capabilitiesManifest) \<times> 'w" where
  "fetchCapabilities lib c w =
     (case execCommand lib c ''capabilities'' w of
        (Inl e, w') \<Rightarrow> (Inl e, w')
      | (Inr out, w') \<Rightarrow>
          (case (case json_parse out of None \<Rightarrow> None | Some j \<Rightarrow> as_struct (decode_manifest (cl_float_text lib)) (Some j)) of
             None \<Rightarrow> (Inl (''parsing capabilities: '' @ cl_json_error lib out), w')
           | Some caps \<Rightarrow> (Inr caps, w')))"

definition invokeMCP :: "('w, 't, 'c) client_lib \<Rightarrow> 'c \<Rightarrow> string \<Rightarrow> (string \<times> json) list \<Rightarrow> 'w \<Rightarrow> (string + string) \<times> 'w" where
  "invokeMCP lib c toolName args w =
     (let arg = (\<lambda>k. '' '' @ k @ ''='' @ (case map_of args k of Some v \<Rightarrow> fmt_v (cl_float_v lib) v | None \<Rightarrow> []));
          cmd = ''mcp '' @ toolName @ concat (map arg (cl_order lib w (map fst args)))
      in execCommand lib c cmd w)"

definition parse_param :: "json \<Rightarrow> toolParam" where
  "parse_param v =
     (case v of JObj m \<Rightarrow> \<lparr>tp_typ = strOrEmpty (map_of m ''type''), tp_required = boolOrFalse (map_of m ''required'')\<rparr>
      | _ \<Rightarrow> \<lparr>tp_typ = [], tp_required = False\<rparr>)"

definition parse_tool :: "(string \<times> json) list \<Rightarrow> siteTool option" where
  "parse_tool raw =
     (let name = strOrEmpty (map_of raw ''name'') in
      if name = [] then None
      else Some \<lparr>st_name = name, st_description = strOrEmpty (map_of raw ''description''),
        st_params = (case map_of raw ''params'' of Some (JObj ps) \<Rightarrow> map (\<lambda>(k, v). (k, parse_param v)) ps | _ \<Rightarrow> []),
        st_auth = strOrEmpty (map_of raw ''auth'')\<rparr>)"

definition parseToolsFromCapabilities :: "capabilitiesManifest \<Rightarrow> siteTool list" where
  "parseToolsFromCapabilities caps =
     (case cm_MCP caps of
        None \<Rightarrow> []
      | Some m \<Rightarrow> List.map_filter (\<lambda>raw. parse_tool (map_entries raw)) (case mi_Tools m of None \<Rightarrow> [] | Some ts \<Rightarrow> ts))"

end
