(* ===== verification/Mcp_Server.thy ===== *)
theory Mcp_Server
  imports Client
begin

text \<open>
  The JSON-RPC side of \<open>cmd/sshweb-mcp/main.go\<close>: the loop over the lines of standard input and the
  handlers of the methods.
\<close>

subsection \<open>State and messages\<close>

record 'c server =
  sv_conn :: "'c sshwebConn option"
  sv_out :: "bytes list"

definition newServer :: "'c server" where
  "newServer = \<lparr>sv_conn = None, sv_out = []\<rparr>"

text \<open>A request: the id as the value it is marshalled as, \<open>null\<close> when there is none.\<close>

record rpc_request =
  rp_JSONRPC :: string
  rp_ID :: json
  rp_Method :: string
  rp_Params :: "json option"

definition decode_request :: "(string \<Rightarrow> string option) \<Rightarrow> (string \<times> json) list \<Rightarrow> rpc_request option" where
  "decode_request ft kvs =
     (case (as_string (json_field ''jsonrpc'' kvs),
            (case json_field ''id'' kvs of None \<Rightarrow> Some JNull | Some v \<Rightarrow> iface ft v),
            as_string (json_field ''method'' kvs)) of
        (Some v, Some i, Some m) \<Rightarrow>
          Some \<lparr>rp_JSONRPC = v, rp_ID = i, rp_Method = m, rp_Params = json_field ''params'' kvs\<rparr>
      | _ \<Rightarrow> None)"

definition send :: "json \<Rightarrow> 'c server \<Rightarrow> 'c server" where
  "send msg s = s\<lparr>sv_out := sv_out s @ [json_marshal msg @ [LF]]\<rparr>"

definition sendResult :: "json \<Rightarrow> json \<Rightarrow> 'c server \<Rightarrow> 'c server" where
  "sendResult rid result s = send (json_map [(''jsonrpc'', JStr ''2.0''), (''id'', rid), (''result'', result)]) s"

text \<open>No caller passes data.\<close>

definition sendError :: "json \<Rightarrow> int \<Rightarrow> string \<Rightarrow> 'c server \<Rightarrow> 'c server" where
  "sendError rid code message s =
     send (json_map [(''jsonrpc'', JStr ''2.0''), (''id'', rid),
       (''error'', json_map [(''code'', JNum (show_int code)), (''message'', JStr message)])]) s"

definition sendToolResult :: "json \<Rightarrow> string \<Rightarrow> bool \<Rightarrow> 'c server \<Rightarrow> 'c server" where
  "sendToolResult rid text isError s =
     (let content = JArr [json_map [(''type'', JStr ''text''), (''text'', JStr text)]]
      in sendResult rid (json_map ([(''content'', content)] @ (if isError then [(''isError'', JBool True)] else []))) s)"

definition sendNotification :: "string \<Rightarrow> 'c server \<Rightarrow> 'c server" where
  "sendNotification meth s = send (json_map [(''jsonrpc'', JStr ''2.0''), (''method'', JStr meth)]) s"

subsection \<open>The handlers\<close>

definition handleInitialize :: "rpc_request \<Rightarrow> 'c server \<Rightarrow> 'c server" where
  "handleInitialize msg s =
     sendResult (rp_ID msg) (json_map
       [(''protocolVersion'', JStr ''2024-11-05''),
        (''capabilities'', json_map [(''tools'', json_map [(''listChanged'', JBool True)])]),
        (''serverInfo'', json_map [(''name'', JStr ''sshweb-mcp''), (''version'', JStr ''0.1.0'')])]) s"

definition connect_tool :: json where
  "connect_tool = json_map
     [(''name'', JStr ''sshweb_connect''),
      (''description'', JStr ''Connect to an SSH-Web site and discover its MCP tools. Tools from the site become available after connecting.''),
      (''inputSchema'', json_map
         [(''type'', JStr ''object''),
          (''properties'', json_map
             [(''host'', json_map [(''type'', JStr ''string''), (''description'', JStr ''Hostname of the SSH-Web site'')]),
              (''port'', json_map [(''type'', JStr ''integer''), (''description'', JStr ''SSH-Web port (default 22443)''),
                 (''default'', JNum ''22443'')])]),
          (''required'', json_strings [''host''])])]"

definition own_tool :: "string \<Rightarrow> string \<Rightarrow> json" where
  "own_tool name desc = json_map
     [(''name'', JStr name), (''description'', JStr desc),
      (''inputSchema'', json_map [(''type'', JStr ''object''), (''properties'', JObj [])])]"

definition handleToolsList :: "('w, 't, 'c) client_lib \<Rightarrow> rpc_request \<Rightarrow> 'w \<Rightarrow> 'c server \<Rightarrow> 'c server" where
  "handleToolsList lib msg w s =
     sendResult (rp_ID msg) (json_map [(''tools'', JArr (connect_tool #
       (case sv_conn s of
          None \<Rightarrow> []
        | Some conn \<Rightarrow>
            [own_tool ''sshweb_disconnect'' (''Disconnect from '' @ host_port (cn_host conn) (cn_port conn)),
             own_tool ''sshweb_status''
               (''Show connection status and capabilities for '' @ host_port (cn_host conn) (cn_port conn))] @
            map (\<lambda>tool. asMCPTool lib w tool (cn_host conn)) (cn_tools conn))))]) s"

definition summary :: "string \<Rightarrow> int \<Rightarrow> capabilitiesManifest \<Rightarrow> siteTool list \<Rightarrow> string" where
  "summary host port caps tools =
     ''Connected to '' @ host_port host port @ [LF] @ ''Protocol: '' @ cm_Protocol caps @ [LF] @
     ''Site: '' @ cm_SiteName caps @ [LF] @ ''Tools discovered: '' @ show_nat (length tools) @
     (if tools = [] then []
      else [LF, LF] @ ''Available tools:'' @
        concat (map (\<lambda>t. [LF] @ ''  - '' @ st_name t @
          (if st_description t \<noteq> [] then '': '' @ st_description t else [])) tools))"

text \<open>Closing the connection there is.\<close>

definition disconnect :: "('w, 't, 'c) client_lib \<Rightarrow> 'c server \<Rightarrow> 'w \<Rightarrow> 'c server \<times> 'w" where
  "disconnect lib s w =
     (case sv_conn s of None \<Rightarrow> (s, w) | Some conn \<Rightarrow> (s\<lparr>sv_conn := None\<rparr>, cl_close lib w (cn_client conn)))"

definition handleConnect :: "('w, 't, 'c) client_lib \<Rightarrow> rpc_request \<Rightarrow> (string \<times> json) list \<Rightarrow> 'c server \<Rightarrow> 'w \<Rightarrow> 'c server \<times> 'w" where
  "handleConnect lib msg args s w =
     (let host = strOrEmpty (map_of args ''host'') in
      if host = [] then (sendError (rp_ID msg) (-32602) ''host is required'' s, w)
      else
        let port = (case map_of args ''port'' of Some (JNum p) \<Rightarrow> float_int p | _ \<Rightarrow> 22443);
            (s1, w1) = disconnect lib s w
        in case dialSSHWeb lib host port w1 of
             (Inl e, w2) \<Rightarrow>
               (sendToolResult (rp_ID msg) (''Failed to connect to '' @ host_port host port @ '': '' @ e) True s1, w2)
           | (Inr c, w2) \<Rightarrow>
               (case fetchCapabilities lib c w2 of
                  (Inl e, w3) \<Rightarrow>
                    (sendToolResult (rp_ID msg) (''Connected but failed to fetch capabilities: '' @ e) True s1, cl_close lib w3 c)
                | (Inr caps, w3) \<Rightarrow>
                    let tools = parseToolsFromCapabilities caps;
                        conn = \<lparr>cn_host = host, cn_port = port, cn_client = c, cn_tools = tools, cn_capabilities = caps\<rparr>
                    in (sendToolResult (rp_ID msg) (summary host port caps tools) False
                          (sendNotification ''notifications/tools/list_changed'' (s1\<lparr>sv_conn := Some conn\<rparr>)), w3)))"

definition handleDisconnect :: "('w, 't, 'c) client_lib \<Rightarrow> rpc_request \<Rightarrow> 'c server \<Rightarrow> 'w \<Rightarrow> 'c server \<times> 'w" where
  "handleDisconnect lib msg s w =
     (case disconnect lib s w of
        (s1, w1) \<Rightarrow> (sendToolResult (rp_ID msg) ''Disconnected'' False
          (sendNotification ''notifications/tools/list_changed'' s1), w1))"

text \<open>The manifest as it is marshalled for the status.\<close>

definition json_nil_map :: "(string \<times> json) list option \<Rightarrow> json" where
  "json_nil_map m = (case m of None \<Rightarrow> JNull | Some kvs \<Rightarrow> json_map kvs)"

definition json_nil_list :: "('a \<Rightarrow> json) \<Rightarrow> 'a list option \<Rightarrow> json" where
  "json_nil_list f xs = (case xs of None \<Rightarrow> JNull | Some ys \<Rightarrow> JArr (map f ys))"

definition manifest_json :: "capabilitiesManifest \<Rightarrow> json" where
  "manifest_json caps =
     JObj ([(''protocol'', JStr (cm_Protocol caps)),
            (''site'', JObj [(''name'', JStr (cm_SiteName caps)), (''host'', JStr (cm_SiteHost caps))]),
            (''commands'', json_nil_map (cm_Commands caps)),
            (''auth'', JObj [(''modes'', json_nil_list JStr (cm_Modes caps)), (''key_types'', json_nil_list JStr (cm_KeyTypes caps))])] @
       (case cm_MCP caps of
          None \<Rightarrow> []
        | Some m \<Rightarrow> [(''mcp'', JObj [(''version'', JStr (mi_Version m)), (''tools'', json_nil_list json_nil_map (mi_Tools m))])]) @
       (if map_entries (cm_Feeds caps) = [] then [] else [(''feeds'', json_nil_map (cm_Feeds caps))]))"

definition handleStatus :: "rpc_request \<Rightarrow> 'c server \<Rightarrow> 'c server" where
  "handleStatus msg s =
     (case sv_conn s of
        None \<Rightarrow> sendToolResult (rp_ID msg) ''Not connected to any SSH-Web site'' False s
      | Some conn \<Rightarrow> sendToolResult (rp_ID msg) (''Connected to '' @ host_port (cn_host conn) (cn_port conn) @ [LF, LF] @
          ''Capabilities:'' @ [LF] @ json_indent 0 (manifest_json (cn_capabilities conn))) False s)"

definition handleSiteToolCall :: "('w, 't, 'c) client_lib \<Rightarrow> rpc_request \<Rightarrow> string \<Rightarrow> (string \<times> json) list \<Rightarrow>
    'c server \<Rightarrow> 'w \<Rightarrow> 'c server \<times> 'w" where
  "handleSiteToolCall lib msg name args s w =
     (case sv_conn s of
        None \<Rightarrow> (sendToolResult (rp_ID msg) ''Not connected to any SSH-Web site. Use sshweb_connect first.'' True s, w)
      | Some conn \<Rightarrow>
          (case find (\<lambda>t. mcpName t (cn_host conn) = name) (cn_tools conn) of
             None \<Rightarrow> (sendError (rp_ID msg) (-32602) (''unknown tool: '' @ name) s, w)
           | Some tool \<Rightarrow>
               (case invokeMCP lib (cn_client conn) (st_name tool) args w of
                  (Inl e, w') \<Rightarrow> (sendToolResult (rp_ID msg) (''Error: '' @ e) True s, w')
                | (Inr result, w') \<Rightarrow> (sendToolResult (rp_ID msg) result False s, w'))))"

text \<open>The parameters of \<open>tools/call\<close>: the name and the arguments.\<close>

definition decode_call :: "(string \<Rightarrow> string option) \<Rightarrow> json option \<Rightarrow> (string \<times> (string \<times> json) list) option" where
  "decode_call ft params =
     (case params of
        None \<Rightarrow> None
      | Some j \<Rightarrow>
          as_struct (\<lambda>kvs. case (as_string (json_field ''name'' kvs), as_map ft (json_field ''arguments'' kvs)) of
            (Some n, Some args) \<Rightarrow> Some (n, map_entries args) | _ \<Rightarrow> None) (Some j))"

definition handleToolsCall :: "('w, 't, 'c) client_lib \<Rightarrow> rpc_request \<Rightarrow> 'c server \<Rightarrow> 'w \<Rightarrow> 'c server \<times> 'w" where
  "handleToolsCall lib msg s w =
     (case decode_call (cl_float_text lib) (rp_Params msg) of
        None \<Rightarrow> (sendError (rp_ID msg) (-32602) ''invalid params'' s, w)
      | Some (name, args) \<Rightarrow>
          if name = ''sshweb_connect'' then handleConnect lib msg args s w
          else if name = ''sshweb_disconnect'' then handleDisconnect lib msg s w
          else if name = ''sshweb_status'' then (handleStatus msg s, w)
          else handleSiteToolCall lib msg name args s w)"

definition handle :: "('w, 't, 'c) client_lib \<Rightarrow> rpc_request \<Rightarrow> 'c server \<Rightarrow> 'w \<Rightarrow> 'c server \<times> 'w" where
  "handle lib msg s w =
     (if rp_Method msg = ''initialize'' then (handleInitialize msg s, w)
      else if rp_Method msg = ''initialized'' then (s, w)
      else if rp_Method msg = ''ping'' then (sendResult (rp_ID msg) (JObj []) s, w)
      else if rp_Method msg = ''tools/list'' then (handleToolsList lib msg w s, w)
      else if rp_Method msg = ''tools/call'' then handleToolsCall lib msg s w
      else (sendError (rp_ID msg) (-32601) (''method not found: '' @ rp_Method msg) s, w))"

definition decode_line :: "(string \<Rightarrow> string option) \<Rightarrow> bytes \<Rightarrow> rpc_request option" where
  "decode_line ft line = (case json_parse line of None \<Rightarrow> None | Some j \<Rightarrow> as_struct (decode_request ft) (Some j))"

text \<open>One turn of the loop for a line that was read.\<close>

definition handle_line :: "('w, 't, 'c) client_lib \<Rightarrow> bytes \<Rightarrow> 'c server \<Rightarrow> 'w \<Rightarrow> 'c server \<times> 'w" where
  "handle_line lib line s w =
     (case decode_line (cl_float_text lib) line of
        None \<Rightarrow> (sendError JNull (-32700) ''parse error'' s, w)
      | Some msg \<Rightarrow> handle lib msg s w)"

text \<open>The whole input: its complete lines, and whether it then ends with \<open>io.EOF\<close> or with an error.
  What follows the last newline is not looked at.\<close>

fun client_run :: "('w, 't, 'c) client_lib \<Rightarrow> bytes list \<Rightarrow> bool \<Rightarrow> 'c server \<Rightarrow> 'w \<Rightarrow> bool \<times> 'c server \<times> 'w" where
  "client_run lib [] eof s w = (eof, s, w)"
| "client_run lib (line # ls) eof s w = (case handle_line lib line s w of (s', w') \<Rightarrow> client_run lib ls eof s' w')"

end
