(* ===== verification/Client_Props.thy ===== *)
theory Client_Props
  imports Mcp_Server Handler
begin

text \<open>
  What \<open>sshweb-mcp\<close> guarantees: it answers every request once, it never holds more than one connection,
  and how the arguments of a tool call reach the server of the site.
\<close>

subsection \<open>Answers\<close>

text \<open>The messages that were written, and the ids in them.\<close>

definition writes :: "json list \<Rightarrow> 'c server \<Rightarrow> 'c server \<Rightarrow> bool" where
  "writes ms s s' \<longleftrightarrow> sv_out s' = sv_out s @ map (\<lambda>m. json_marshal m @ [LF]) ms"

definition ids :: "json list \<Rightarrow> json list" where
  "ids ms = List.map_filter (json_get ''id'') ms"

definition answers :: "json list \<Rightarrow> 'c server \<Rightarrow> 'c server \<Rightarrow> bool" where
  "answers rids s s' \<longleftrightarrow> (\<exists>ms. writes ms s s' \<and> ids ms = rids)"

lemma answers_refl [simp]: "sv_out s' = sv_out s \<Longrightarrow> answers [] s s'"
  by (auto simp: answers_def writes_def ids_def map_filter_def intro!: exI [of _ "[]"])

lemma answers_trans: "answers r1 s s1 \<Longrightarrow> answers r2 s1 s2 \<Longrightarrow> answers (r1 @ r2) s s2"
proof -
  assume "answers r1 s s1" "answers r2 s1 s2"
  then obtain m1 m2 where "writes m1 s s1" "ids m1 = r1" "writes m2 s1 s2" "ids m2 = r2" by (auto simp: answers_def)
  then have "writes (m1 @ m2) s s2" "ids (m1 @ m2) = r1 @ r2" by (simp_all add: writes_def ids_def map_filter_def)
  then show ?thesis by (auto simp: answers_def)
qed

lemma answers_send: "sv_out s = sv_out s0 \<Longrightarrow> answers (case json_get ''id'' m of None \<Rightarrow> [] | Some i \<Rightarrow> [i]) s0 (send m s)"
  by (auto simp: answers_def writes_def ids_def map_filter_def send_def intro!: exI [of _ "[m]"] split: option.split)

lemma answers_result: "sv_out s = sv_out s0 \<Longrightarrow> answers [rid] s0 (sendResult rid r s)"
  using answers_send [of s s0 "json_map [(''jsonrpc'', JStr ''2.0''), (''id'', rid), (''result'', r)]"]
  by (simp add: sendResult_def json_get_map)

lemma answers_error: "sv_out s = sv_out s0 \<Longrightarrow> answers [rid] s0 (sendError rid c m s)"
  using answers_send [of s s0 "json_map [(''jsonrpc'', JStr ''2.0''), (''id'', rid),
    (''error'', json_map [(''code'', JNum (show_int c)), (''message'', JStr m)])]"]
  by (simp add: sendError_def json_get_map)

lemma answers_tool: "sv_out s = sv_out s0 \<Longrightarrow> answers [rid] s0 (sendToolResult rid t e s)"
  by (simp add: sendToolResult_def answers_result Let_def)

lemma answers_notified: "sv_out s = sv_out s0 \<Longrightarrow> answers [rid] s0 (sendToolResult rid t e (sendNotification m s))"
proof -
  assume s: "sv_out s = sv_out s0"
  have "answers [] s0 (sendNotification m s)"
    using answers_send [OF s, of "json_map [(''jsonrpc'', JStr ''2.0''), (''method'', JStr m)]"]
    by (simp add: sendNotification_def json_get_map)
  from answers_trans [OF this answers_tool [OF refl]] show ?thesis by simp
qed

lemmas answers_rules = answers_result answers_error answers_tool answers_notified

lemma disconnect_out: "disconnect lib s w = (s', w') \<Longrightarrow> sv_out s' = sv_out s"
  by (auto simp: disconnect_def split: option.splits)

lemma handleConnect_answers: "handleConnect lib msg args s w = (s', w') \<Longrightarrow> answers [rp_ID msg] s s'"
  by (auto simp: handleConnect_def Let_def intro!: answers_rules dest: disconnect_out
    split: if_splits prod.splits sum.splits)

lemma handleSiteToolCall_answers: "handleSiteToolCall lib msg name args s w = (s', w') \<Longrightarrow> answers [rp_ID msg] s s'"
  by (auto simp: handleSiteToolCall_def intro!: answers_rules split: option.splits prod.splits sum.splits)

lemma handleToolsCall_answers: "handleToolsCall lib msg s w = (s', w') \<Longrightarrow> answers [rp_ID msg] s s'"
  by (auto simp: handleToolsCall_def handleDisconnect_def handleStatus_def intro!: answers_rules
    dest: disconnect_out handleConnect_answers handleSiteToolCall_answers split: option.splits prod.splits if_splits)

definition line_ids :: "(string \<Rightarrow> string option) \<Rightarrow> bytes \<Rightarrow> json list" where
  "line_ids ft line =
     (case decode_line ft line of
        None \<Rightarrow> [JNull] | Some msg \<Rightarrow> if rp_Method msg = ''initialized'' then [] else [rp_ID msg])"

lemma handle_line_answers: "handle_line lib line s w = (s', w') \<Longrightarrow> answers (line_ids (cl_float_text lib) line) s s'"
  by (auto simp: handle_line_def line_ids_def handle_def handleInitialize_def handleToolsList_def intro!: answers_rules
    dest: handleToolsCall_answers split: option.splits if_splits)

text \<open>C18: Every line that is read is answered exactly once and in order, with the id it carries: an
  unreadable line and a message without an id with \<open>null\<close>, and only \<open>initialized\<close> is not answered;
  what is written besides carries no id.\<close>

theorem every_line_answered:
  assumes "client_run lib ls eof s w = (r, s', w')"
  shows "\<exists>ms. sv_out s' = sv_out s @ map (\<lambda>m. json_marshal m @ [LF]) ms \<and>
    List.map_filter (json_get ''id'') ms = concat (map (line_ids (cl_float_text lib)) ls)"
proof -
  have "answers (concat (map (line_ids (cl_float_text lib)) ls)) s s'"
    using assms
  proof (induction ls arbitrary: s w)
    case (Cons line ls)
    obtain s1 w1 where h: "handle_line lib line s w = (s1, w1)" by force
    with Cons answers_trans [OF handle_line_answers [OF h]] show ?case by simp
  qed simp
  then show ?thesis by (auto simp: answers_def writes_def ids_def)
qed

subsection \<open>Connections\<close>

text \<open>\<open>cnt\<close> counts the TCP connections that are open in a state of the outside world.\<close>

definition counts :: "('w, 't, 'c) client_lib \<Rightarrow> ('w \<Rightarrow> int) \<Rightarrow> bool" where
  "counts lib cnt \<longleftrightarrow>
     (\<forall>w a t. cnt (snd (cl_tcp lib w a t)) = cnt w + (if is_ok (fst (cl_tcp lib w a t)) then 1 else 0)) \<and>
     (\<forall>w t. cnt (cl_tcp_close lib w t) = cnt w - 1) \<and>
     (\<forall>w t a cf. cnt (snd (cl_handshake lib w t a cf)) = cnt w) \<and>
     (\<forall>w c cmd. cnt (snd (cl_run lib w c cmd)) = cnt w) \<and>
     (\<forall>w c. cnt (cl_close lib w c) = cnt w - 1)"

definition held :: "'c server \<Rightarrow> int" where
  "held s = (if sv_conn s = None then 0 else 1)"

lemma held_send [simp]: "held (send j s) = held s" "held (sendResult i r s) = held s" "held (sendError i c t s) = held s"
    "held (sendToolResult i t b s) = held s" "held (sendNotification m s) = held s"
  by (simp_all add: held_def send_def sendResult_def sendError_def sendToolResult_def sendNotification_def Let_def)

lemma run_count: "counts lib cnt \<Longrightarrow> cl_run lib w c cmd = (r, w') \<Longrightarrow> cnt w' = cnt w"
  unfolding counts_def by (metis snd_conv)

lemma execCommand_count: "counts lib cnt \<Longrightarrow> execCommand lib c cmd w = (r, w') \<Longrightarrow> cnt w' = cnt w"
  by (auto simp: execCommand_def dest: run_count split: prod.splits run_result.splits)

lemma fetchCapabilities_count: "counts lib cnt \<Longrightarrow> fetchCapabilities lib c w = (r, w') \<Longrightarrow> cnt w' = cnt w"
  by (auto simp: fetchCapabilities_def dest: execCommand_count split: prod.splits sum.splits option.splits)

lemma dial_count:
  assumes "counts lib cnt" "dialSSHWeb lib host port w = (r, w')"
  shows "cnt w' = cnt w + (if is_ok r then 1 else 0)"
proof -
  obtain t w1 where t: "cl_tcp lib w (host_port host port) dialTimeout = (t, w1)" by force
  have w1: "cnt w1 = cnt w + (if is_ok t then 1 else 0)" using assms(1) t unfolding counts_def by (metis fst_conv snd_conv)
  show ?thesis
  proof (cases t)
    case (Inl e)
    with assms(2) t w1 show ?thesis by (auto simp: dialSSHWeb_def)
  next
    case (Inr tcp)
    let ?cf = "\<lparr>cf_User = ''anonymous'', cf_Password = [], cf_InsecureIgnoreHostKey = True\<rparr>"
    obtain c w2 where c: "cl_handshake lib w1 tcp (host_port host port) ?cf = (c, w2)" by force
    have "cnt w2 = cnt w1" "cnt (cl_tcp_close lib w2 tcp) = cnt w2 - 1"
      using assms(1) c unfolding counts_def by (metis snd_conv, blast)
    with assms(2) t Inr c w1 show ?thesis by (auto simp: dialSSHWeb_def split: sum.splits)
  qed
qed

lemma disconnect_count: "counts lib cnt \<Longrightarrow> disconnect lib s w = (s', w') \<Longrightarrow> cnt w' - held s' = cnt w - held s \<and> held s' = 0"
  by (auto simp: disconnect_def held_def counts_def split: option.splits)

lemma handleConnect_count:
  assumes "counts lib cnt" "handleConnect lib msg args s w = (s', w')"
  shows "cnt w' - held s' = cnt w - held s"
proof -
  let ?host = "strOrEmpty (map_of args ''host'')"
  let ?port = "case map_of args ''port'' of Some (JNum p) \<Rightarrow> float_int p | _ \<Rightarrow> 22443"
  obtain s1 w1 where d: "disconnect lib s w = (s1, w1)" by force
  obtain r w2 where r: "dialSSHWeb lib ?host ?port w1 = (r, w2)" by force
  note d1 = disconnect_count [OF assms(1) d] and r1 = dial_count [OF assms(1) r]
  have cl: "cnt (cl_close lib w c) = cnt w - 1" for w c using assms(1) by (simp add: counts_def)
  show ?thesis
  proof (cases r)
    case (Inl e)
    then show ?thesis using assms(2) d r d1 r1 by (auto simp: handleConnect_def Let_def split: if_splits)
  next
    case (Inr c)
    obtain caps w3 where f: "fetchCapabilities lib c w2 = (caps, w3)" by force
    show ?thesis using assms(2) d r d1 r1 Inr f cl fetchCapabilities_count [OF assms(1) f]
      by (auto simp: handleConnect_def Let_def held_def [of "s1\<lparr>sv_conn := _\<rparr>"] split: if_splits sum.splits)
  qed
qed

lemma handle_line_count:
  assumes "counts lib cnt" "handle_line lib line s w = (s', w')"
  shows "cnt w' - held s' = cnt w - held s"
proof -
  have "cnt w' - held s' = cnt w - held s" if "handleToolsCall lib msg s w = (s', w')" for msg
    using that handleConnect_count [OF assms(1)]
    by (auto simp: handleToolsCall_def handleDisconnect_def handleStatus_def handleSiteToolCall_def invokeMCP_def Let_def
      dest: execCommand_count [OF assms(1)] disconnect_count [OF assms(1)]
      split: option.splits prod.splits if_splits sum.splits)
  with assms(2) show ?thesis
    by (auto simp: handle_line_def handle_def handleInitialize_def handleToolsList_def split: option.splits if_splits)
qed



subsection \<open>Arguments\<close>

text \<open>The command line of a tool call, and what the server of the site makes of its arguments.\<close>

definition arg_text :: "string \<Rightarrow> string \<Rightarrow> string" where
  "arg_text k v = k @ ''='' @ v"

definition call_text :: "string \<Rightarrow> string list \<Rightarrow> string" where
  "call_text tool pairs = Join (''mcp'' # tool # pairs) '' ''"

definition plain_name :: "string \<Rightarrow> bool" where
  "plain_name k \<longleftrightarrow> is_word k \<and> CHR ''='' \<notin> set k"

lemma arg_word: "plain_name k \<Longrightarrow> no_space v \<Longrightarrow> is_word (arg_text k v)"
proof -
  assume k: "plain_name k" and v: "no_space v"
  have e: "ascii CHR ''=''" "\<not> is_space CHR ''=''" by (simp_all add: ascii_def is_space_def)
  with v have "no_space (CHR ''='' # v)" by simp
  with k e show "is_word (arg_text k v)" by (simp add: plain_name_def is_word_def arg_text_def no_space_append)
qed

lemma Join_concat: "Join (w # ws) '' '' = w @ concat (map (\<lambda>v. '' '' @ v) ws)"
  by (induction ws arbitrary: w) simp_all

lemma invokeMCP_text:
  "invokeMCP lib c tool args w = execCommand lib c (call_text tool (map (\<lambda>k. arg_text k
     (case map_of args k of Some v \<Rightarrow> fmt_v (cl_float_v lib) v | None \<Rightarrow> [])) (cl_order lib w (map fst args)))) w"
  by (simp add: invokeMCP_def call_text_def Join_concat arg_text_def comp_def)

lemma call_fields: "is_word tool \<Longrightarrow> list_all is_word pairs \<Longrightarrow> Fields (call_text tool pairs) = ''mcp'' # tool # pairs"
  unfolding call_text_def by (rule Fields_Join) (simp add: is_word_def is_space_def ascii_def)

lemma server_arguments:
  "list_all (\<lambda>(k, v). plain_name k) kvs \<Longrightarrow>
   mcp_arguments (map (\<lambda>(k, v). arg_text k v) kvs) acc = Inr (assigned (map (\<lambda>(k, v). (k, JStr v)) kvs) acc)"
proof (induction kvs arbitrary: acc)
  case (Cons kv kvs)
  obtain k v where kv: "kv = (k, v)" by (cases kv)
  with Cons.prems have k: "k \<noteq> []" "CHR ''='' \<notin> set k" by (auto simp: plain_name_def is_word_def)
  then have "IndexByte (arg_text k v) CHR ''='' = Some (length k)"
    using IndexByte_append [OF k(2), of v] by (simp add: arg_text_def)
  moreover have "take (length k) (arg_text k v) = k" "drop (length k + 1) (arg_text k v) = v" by (simp_all add: arg_text_def)
  ultimately show ?case using Cons kv k(1) by simp
qed simp


text \<open>Values are not quoted: a single argument whose value holds a blank followed by another name
  and an equals sign reaches the server of the site as two arguments, and replaces an argument when
  the names are the same.\<close>

theorem argument_value_adds_arguments:
  assumes "is_word tool" "plain_name k" "plain_name k'" "no_space a" "no_space b" "cl_order lib w [k] = [k]"
  shows "\<exists>cmd pairs al. invokeMCP lib c tool [(k, JStr (a @ '' '' @ arg_text k' b))] w = execCommand lib c cmd w \<and>
    Fields cmd = ''mcp'' # tool # pairs \<and> mcp_arguments pairs [] = Inr al \<and> map_of al = [k \<mapsto> JStr a, k' \<mapsto> JStr b]"
proof -
  let ?pairs = "[arg_text k a, arg_text k' b]"
  have "call_text tool [arg_text k (a @ '' '' @ arg_text k' b)] = call_text tool ?pairs"
    by (simp add: call_text_def arg_text_def)
  then have i: "invokeMCP lib c tool [(k, JStr (a @ '' '' @ arg_text k' b))] w = execCommand lib c (call_text tool ?pairs) w"
    using assms(6) by (simp add: invokeMCP_text)
  have f: "Fields (call_text tool ?pairs) = ''mcp'' # tool # ?pairs"
    by (rule call_fields) (use assms arg_word in simp_all)
  have "mcp_arguments (map (\<lambda>(k, v). arg_text k v) [(k, a), (k', b)]) [] =
      Inr (assigned (map (\<lambda>(k, v). (k, JStr v)) [(k, a), (k', b)]) [])"
    by (rule server_arguments) (use assms in simp)
  then have m: "mcp_arguments ?pairs [] = Inr (assigned [(k, JStr a), (k', JStr b)] [])" by simp
  have "map_of (assigned [(k, JStr a), (k', JStr b)] []) = [k \<mapsto> JStr a, k' \<mapsto> JStr b]"
    unfolding assigned_map_of by (simp add: fun_eq_iff)
  with i f m show ?thesis by blast
qed

subsection \<open>Witnesses\<close>

text \<open>A world that counts connections; every command is answered with nothing.\<close>

definition demo_client :: "(int, unit, unit) client_lib" where
  "demo_client = \<lparr>cl_tcp = (\<lambda>w a t. (Inr (), w + 1)), cl_tcp_close = (\<lambda>w t. w - 1), cl_handshake = (\<lambda>w t a cf. (Inr (), w)),
     cl_run = (\<lambda>w c cmd. (RunOk [], w)), cl_close = (\<lambda>w c. w - 1), cl_order = (\<lambda>w ks. ks),
     cl_json_error = (\<lambda>s. ''unexpected end of JSON input''), cl_float_text = Some, cl_float_v = id\<rparr>"

definition demo_lines :: "bytes list" where
  "demo_lines = [json_marshal (json_map [(''id'', JNum ''1''), (''method'', JStr ''ping'')]) @ [LF], ''{'' @ [LF],
     json_marshal (json_map [(''id'', JNum ''2''), (''method'', JStr ''tools/call''), (''params'', json_map
       [(''name'', JStr ''sshweb_connect''), (''arguments'', json_map [(''host'', JStr ''a.org'')])])]) @ [LF]]"

theorem every_line_answered_witness:
  "\<exists>r s' w' ms. client_run demo_client demo_lines True newServer 0 = (r, s', w') \<and>
     sv_out s' = map (\<lambda>m. json_marshal m @ [LF]) ms \<and> List.map_filter (json_get ''id'') ms = [JNum ''1'', JNull, JNum ''2'']"
proof -
  obtain r s' w' where c: "client_run demo_client demo_lines True newServer 0 = (r, s', w')" by (metis prod.exhaust)
  have "line_ids Some (demo_lines ! 0) = [JNum ''1'']" "line_ids Some (demo_lines ! 1) = [JNull]"
    "line_ids Some (demo_lines ! 2) = [JNum ''2'']" by code_simp+
  then have "concat (map (line_ids (cl_float_text demo_client)) demo_lines) = [JNum ''1'', JNull, JNum ''2'']"
    by (simp add: demo_client_def demo_lines_def)
  with every_line_answered [OF c] c show ?thesis by (auto simp: newServer_def)
qed



theorem argument_value_adds_arguments_witness:
  "\<exists>cmd al. invokeMCP demo_client () ''find'' [(''q'', JStr (''x'' @ '' '' @ arg_text ''all'' ''true''))] 0 = execCommand demo_client () cmd 0 \<and>
     mcp_arguments (drop 2 (Fields cmd)) [] = Inr al \<and> map_of al ''all'' = Some (JStr ''true'')"
proof -
  have "is_word ''find''" "plain_name ''q''" "plain_name ''all''" "no_space ''x''" "no_space ''true''" by code_simp+
  from argument_value_adds_arguments [OF this, of demo_client 0 "()"] show ?thesis by (auto simp: demo_client_def)
qed
end
