(* ===== verification/Client_Site.thy ===== *)
theory Client_Site
  imports Client_Props Handler_Props
begin

text \<open>
  The two programs together: what \<open>sshweb-mcp\<close> makes of the manifest that \<open>sshttpd\<close> writes.
\<close>

subsection \<open>Fields and maps that were marshalled\<close>

lemma json_field_Nil: "json_field f [] = None"
  by (simp add: json_field_def)

lemma json_field_append: "json_field f (xs @ ys) = (case json_field f ys of None \<Rightarrow> json_field f xs | Some v \<Rightarrow> Some v)"
  by (simp add: json_field_def map_add_def split: option.split)

lemma json_field_Cons: "json_field f ((k, v) # xs) =
    (case json_field f xs of None \<Rightarrow> if fold_case k = fold_case f then Some v else None | Some v \<Rightarrow> Some v)"
  by (simp add: json_field_def map_add_def split: option.split)

lemmas json_field_simps = json_field_Nil json_field_append json_field_Cons

lemma lower_manifest_keys: "fold_case ''protocol'' = ''protocol''" "fold_case ''site'' = ''site''" "fold_case ''commands'' = ''commands''"
    "fold_case ''auth'' = ''auth''" "fold_case ''mcp'' = ''mcp''" "fold_case ''feeds'' = ''feeds''" "fold_case ''sitemap'' = ''sitemap''"
    "fold_case ''robots'' = ''robots''" "fold_case ''name'' = ''name''" "fold_case ''host'' = ''host''" "fold_case ''modes'' = ''modes''"
    "fold_case ''key_types'' = ''key_types''" "fold_case ''key-types'' = ''key-types''" "fold_case ''version'' = ''version''"
    "fold_case ''tools'' = ''tools''"
  by code_simp+

lemma all_nums_utf8 [simp]: "all_nums P (utf8_json j) = all_nums P j"
  by (induction j rule: utf8_json.induct) (auto simp: list_all_iff)

lemma those_total: "(\<And>x. x \<in> set xs \<Longrightarrow> f x \<noteq> None) \<Longrightarrow> \<exists>ys. those (map f xs) = Some ys"
proof (induction xs)
  case (Cons a xs)
  then obtain y ys where "f a = Some y" "those (map f xs) = Some ys" by fastforce
  then show ?case by simp
qed simp

lemma iface_total: "all_nums (\<lambda>n. ft n \<noteq> None) j \<Longrightarrow> iface ft j \<noteq> None"
proof (induction j)
  case (JArr vs)
  then have "\<exists>ys. those (map (iface ft) vs) = Some ys" by (intro those_total) (auto simp: list_all_iff)
  then show ?case by auto
next
  case (JObj kvs)
  have "\<exists>ys. those (map (\<lambda>(k, v). map_option (Pair k) (iface ft v)) kvs) = Some ys"
  proof (rule those_total)
    fix e assume "e \<in> set kvs"
    with JObj show "(case e of (k, v) \<Rightarrow> map_option (Pair k) (iface ft v)) \<noteq> None"
      by (cases e) (force simp: list_all_iff)
  qed
  then show ?case by auto
qed auto

lemma those_iface_some:
  "those (map (\<lambda>(k, v). map_option (Pair k) (iface ft v)) kvs) = Some kvs' \<Longrightarrow> map_of (rev kvs) k = Some v \<Longrightarrow> iface ft v \<noteq> None"
proof (induction kvs arbitrary: kvs')
  case (Cons e kvs)
  then show ?case by (cases e) (auto simp: map_add_def split: option.splits if_splits)
qed simp

lemma those_iface_get:
  "those (map (\<lambda>(k, v). map_option (Pair k) (iface ft v)) kvs) = Some kvs' \<Longrightarrow>
    map_of (rev kvs') k = Option.bind (map_of (rev kvs) k) (iface ft)"
proof (induction kvs arbitrary: kvs')
  case (Cons e kvs)
  obtain k' v where e: "e = (k', v)" by (cases e)
  with Cons.prems obtain v' ys where y: "iface ft v = Some v'" "kvs' = (k', v') # ys"
    "those (map (\<lambda>(k, v). map_option (Pair k) (iface ft v)) kvs) = Some ys"
    by (auto split: option.splits)
  from Cons.IH [OF y(3)] y(1) e y(2) those_iface_some [OF y(3)] show ?case
    by (auto simp: map_add_def split: option.split)
qed simp

text \<open>A map that was written and read into a Go map holds for every key what was written for it.\<close>

lemma as_map_marshalled:
  assumes "all_nums (\<lambda>n. ft n \<noteq> None) (json_map es)" "\<And>e. e \<in> set es \<Longrightarrow> to_utf8 (fst e) = fst e"
  shows "\<exists>m. as_map ft (Some (utf8_json (json_map es))) = Some (Some m) \<and>
    (\<forall>k. map_of m k = Option.bind (map_of (rev es) k) (\<lambda>v. iface ft (utf8_json v)))"
proof -
  let ?S = "sort_key fst (assigned es [])"
  have S: "json_map es = JObj ?S" by (simp add: json_map_def)
  have "set ?S \<subseteq> set es" using assigned_subset [of es "[]"] by simp
  then have u: "map (\<lambda>(k, v). (to_utf8 k, utf8_json v)) ?S = map (\<lambda>(k, v). (k, utf8_json v)) ?S"
    using assms(2) by (intro map_cong refl) force
  then have eq: "utf8_json (json_map es) = JObj (map (\<lambda>(k, v). (k, utf8_json v)) ?S)" by (simp add: S)
  let ?kvs = "map (\<lambda>(k, v). (k, utf8_json v)) ?S"
  have "\<exists>ys. those (map (\<lambda>(k, v). map_option (Pair k) (iface ft v)) ?kvs) = Some ys"
  proof (rule those_total)
    fix e assume e: "e \<in> set ?kvs"
    have all: "list_all (\<lambda>(k, v). all_nums (\<lambda>n. ft n \<noteq> None) v) ?kvs" using assms(1) by (simp add: S list_all_iff case_prod_unfold)
    have "all_nums (\<lambda>n. ft n \<noteq> None) (snd e)" using bspec [OF all [unfolded list_all_iff] e] by (simp add: case_prod_unfold)
    then have "iface ft (snd e) \<noteq> None" by (rule iface_total)
    then show "(case e of (k, v) \<Rightarrow> map_option (Pair k) (iface ft v)) \<noteq> None" by (simp add: case_prod_unfold)
  qed
  then obtain ys where ys: "those (map (\<lambda>(k, v). map_option (Pair k) (iface ft v)) ?kvs) = Some ys" by blast
  have d: "distinct (map fst ?S)"
    using assigned_distinct [of "[]" es] by (metis distinct_map distinct_sort set_sort distinct.simps(1) list.simps(8))
  have "map_of (rev ?kvs) k = map_of ?kvs k" for k
  proof -
    have "distinct (map fst ?kvs)" using d by (simp add: comp_def case_prod_unfold)
    then have "distinct (map fst (rev ?kvs))" unfolding rev_map [symmetric] distinct_rev .
    from map_of_inject_set [OF this \<open>distinct (map fst ?kvs)\<close>] show ?thesis by simp
  qed
  moreover have "map_of ?kvs k = map_option utf8_json (map_of ?S k)" for k
    by (simp add: map_of_map)
  moreover have "map_of ?S k = map_of (rev es) k" for k using json_get_map [of k es] by (simp add: S)
  ultimately have "map_of (rev ?kvs) k = map_option utf8_json (map_of (rev es) k)" for k by simp
  with those_iface_get [OF ys] have "map_of (assigned ys []) k = Option.bind (map_of (rev es) k) (\<lambda>v. iface ft (utf8_json v))" for k
    by (simp add: assigned_map_of bind_map_option comp_def)
  then show ?thesis using ys unfolding eq by auto
qed

subsection \<open>Tools\<close>

text \<open>What \<open>sshweb-mcp\<close> knows of a tool of the site.\<close>

definition client_tool :: "SiteConfig \<Rightarrow> Tool \<Rightarrow> siteTool" where
  "client_tool conf t = \<lparr>st_name = to_utf8 (tl_Name t), st_description = to_utf8 (tl_Description t), st_params = [],
     st_auth = (case MCP conf of None \<Rightarrow> [] | Some m \<Rightarrow> mcpToolTier (tl_Name t) (mc_Auth m))\<rparr>"

lemma to_utf8_Nil: "to_utf8 s = [] \<longleftrightarrow> s = []"
proof (cases "s = []")
  case False
  show ?thesis
  proof (cases "rune_len s")
    case None
    with False show ?thesis by (subst to_utf8.simps) (simp add: rune_error_def)
  next
    case (Some n)
    with False rune_len_le [OF Some] show ?thesis by (subst to_utf8.simps) simp
  qed
qed (simp add: to_utf8.simps)

lemma tier_utf8: "to_utf8 (mcpToolTier n a) = mcpToolTier n a"
  by (rule to_utf8_ascii) (auto simp: mcpToolTier_def TierAnonymous_def TierIdentified_def TierTrusted_def)


text \<open>The entries of a tool before they become a map.\<close>

definition tool_entries :: "(string \<Rightarrow> string option) \<Rightarrow> SiteConfig \<Rightarrow> Tool \<Rightarrow> (string \<times> json) list" where
  "tool_entries ft conf t =
     [(''name'', JStr (tl_Name t))] @
     (if tl_Description t \<noteq> [] then [(''description'', JStr (tl_Description t))] else []) @
     (case tl_InputSchema t of
        None \<Rightarrow> []
      | Some raw \<Rightarrow> (case iface ft raw of None \<Rightarrow> [] | Some schema \<Rightarrow> [(''inputSchema'', schema)])) @
     (case MCP conf of None \<Rightarrow> [] | Some m \<Rightarrow> [(''auth'', JStr (mcpToolTier (tl_Name t) (mc_Auth m)))])"

lemma tool_entry_map: "tool_entry ft conf t = json_map (tool_entries ft conf t)"
  by (simp add: tool_entry_def tool_entries_def)

lemma tool_keys: "e \<in> set (tool_entries ft conf t) \<Longrightarrow> to_utf8 (fst e) = fst e"
  by (rule to_utf8_ascii) (auto simp: tool_entries_def split: if_splits option.splits)

lemma tool_get:
  "map_of (rev (tool_entries ft conf t)) ''name'' = Some (JStr (tl_Name t))"
  "map_of (rev (tool_entries ft conf t)) ''description'' = (if tl_Description t = [] then None else Some (JStr (tl_Description t)))"
  "map_of (rev (tool_entries ft conf t)) ''auth'' =
     (case MCP conf of None \<Rightarrow> None | Some m \<Rightarrow> Some (JStr (mcpToolTier (tl_Name t) (mc_Auth m))))"
  "map_of (rev (tool_entries ft conf t)) ''params'' = None"
  by (auto simp: tool_entries_def map_add_def split: option.split)

lemma tool_decoded:
  assumes "\<And>n n'. ft n = Some n' \<Longrightarrow> ft n' \<noteq> None"
  shows "\<exists>m. as_map ft (Some (utf8_json (tool_entry ft conf t))) = Some (Some m) \<and>
    parse_tool m = (if tl_Name t = [] then None else Some (client_tool conf t))"
proof -
  have "all_nums (\<lambda>n. ft n \<noteq> None) (tool_entry ft conf t)" by (rule nums_ok_tool) (rule assms)
  then have "all_nums (\<lambda>n. ft n \<noteq> None) (json_map (tool_entries ft conf t))" by (simp only: tool_entry_map)
  from as_map_marshalled [OF this tool_keys [of _ ft conf t]]
  obtain m where m: "as_map ft (Some (utf8_json (tool_entry ft conf t))) = Some (Some m)"
    "\<And>k. map_of m k = Option.bind (map_of (rev (tool_entries ft conf t)) k) (\<lambda>v. iface ft (utf8_json v))"
    by (auto simp: tool_entry_map)
  have "map_of m ''name'' = Some (JStr (to_utf8 (tl_Name t)))" "strOrEmpty (map_of m ''description'') = to_utf8 (tl_Description t)"
    "strOrEmpty (map_of m ''auth'') = st_auth (client_tool conf t)" "map_of m ''params'' = None"
    by (simp_all add: m(2) tool_get strOrEmpty_def client_tool_def to_utf8_Nil [THEN iffD2] tier_utf8 split: option.split)
  then have "parse_tool m = (if tl_Name t = [] then None else Some (client_tool conf t))"
    by (simp add: parse_tool_def Let_def strOrEmpty_def [of "Some _"] to_utf8_Nil client_tool_def)
  with m(1) show ?thesis by blast
qed


subsection \<open>The manifest\<close>

lemma as_map_total:
  assumes "all_nums (\<lambda>n. ft n \<noteq> None) (JObj kvs)"
  shows "\<exists>m. as_map ft (Some (JObj kvs)) = Some m"
proof -
  have "\<exists>ys. those (map (\<lambda>(k, v). map_option (Pair k) (iface ft v)) kvs) = Some ys"
  proof (rule those_total)
    fix e assume "e \<in> set kvs"
    with assms have "all_nums (\<lambda>n. ft n \<noteq> None) (snd e)" by (auto simp: list_all_iff)
    then have "iface ft (snd e) \<noteq> None" by (rule iface_total)
    then show "(case e of (k, v) \<Rightarrow> map_option (Pair k) (iface ft v)) \<noteq> None" by (simp add: case_prod_unfold)
  qed
  then show ?thesis by auto
qed

lemma as_map_json_map:
  assumes "all_nums (\<lambda>n. ft n \<noteq> None) (json_map es)"
  shows "\<exists>m. as_map ft (Some (utf8_json (json_map es))) = Some m"
proof -
  obtain kvs where "utf8_json (json_map es) = JObj kvs" by (simp add: json_map_def)
  with assms as_map_total [of ft kvs] all_nums_utf8 [of _ "json_map es"] show ?thesis by metis
qed

lemma tools_decoded:
  assumes "\<And>n n'. ft n = Some n' \<Longrightarrow> ft n' \<noteq> None"
  shows "\<exists>ms. those (map (\<lambda>v. as_map ft (Some v)) (map utf8_json (map (tool_entry ft conf) ts))) = Some ms \<and>
    List.map_filter (\<lambda>raw. parse_tool (map_entries raw)) ms = map (client_tool conf) (filter (\<lambda>t. tl_Name t \<noteq> []) ts)"
proof (induction ts)
  case (Cons t ts)
  then obtain ms where ms: "those (map (\<lambda>v. as_map ft (Some v)) (map utf8_json (map (tool_entry ft conf) ts))) = Some ms"
    "List.map_filter (\<lambda>raw. parse_tool (map_entries raw)) ms = map (client_tool conf) (filter (\<lambda>t. tl_Name t \<noteq> []) ts)" by blast
  obtain m where "as_map ft (Some (utf8_json (tool_entry ft conf t))) = Some (Some m)"
    "parse_tool m = (if tl_Name t = [] then None else Some (client_tool conf t))"
    using tool_decoded [of ft conf t] assms by blast
  with ms show ?case by (simp add: map_filter_def map_entries_def)
qed (simp add: map_filter_def)

text \<open>The fields of the manifest as they are read.\<close>

definition manifest_fields :: "(string \<Rightarrow> string option) \<Rightarrow> SiteConfig \<Rightarrow> Tool list option \<Rightarrow> (string \<times> json) list" where
  "manifest_fields ft conf tools =
     (case utf8_json (CapabilitiesManifest ft conf tools) of JObj kvs \<Rightarrow> kvs | _ \<Rightarrow> [])"

lemma ascii_keys: "to_utf8 ''protocol'' = ''protocol''" "to_utf8 ''site'' = ''site''" "to_utf8 ''commands'' = ''commands''"
    "to_utf8 ''auth'' = ''auth''" "to_utf8 ''mcp'' = ''mcp''" "to_utf8 ''feeds'' = ''feeds''" "to_utf8 ''sitemap'' = ''sitemap''"
    "to_utf8 ''robots'' = ''robots''" "to_utf8 ''name'' = ''name''" "to_utf8 ''host'' = ''host''" "to_utf8 ''modes'' = ''modes''"
    "to_utf8 ''key-types'' = ''key-types''" "to_utf8 ''version'' = ''version''" "to_utf8 ''tools'' = ''tools''"
    "to_utf8 ''ssh-web/0.1'' = ''ssh-web/0.1''" "to_utf8 ''1.0'' = ''1.0''" "to_utf8 ''anonymous'' = ''anonymous''"
    "to_utf8 ''identified'' = ''identified''" "to_utf8 ''trusted'' = ''trusted''" "to_utf8 ''ed25519'' = ''ed25519''"
    "to_utf8 ''ecdsa-sha2-nistp256'' = ''ecdsa-sha2-nistp256''"
  by (rule to_utf8_ascii, simp)+

lemma manifest_obj: "utf8_json (CapabilitiesManifest ft conf tools) = JObj (manifest_fields ft conf tools)"
  by (simp add: manifest_fields_def CapabilitiesManifest_def)

lemma manifest_get:
  "json_field ''protocol'' (manifest_fields ft conf tools) = Some (JStr ''ssh-web/0.1'')"
  "json_field ''site'' (manifest_fields ft conf tools) = Some (utf8_json (SiteInfo conf))"
  "json_field ''commands'' (manifest_fields ft conf tools) = Some (utf8_json (json_map (command_entries conf)))"
  "json_field ''auth'' (manifest_fields ft conf tools) = Some (utf8_json AuthInfo)"
  "json_field ''mcp'' (manifest_fields ft conf tools) =
     map_option (\<lambda>ts. utf8_json (MCPInfo (map (tool_entry ft conf) ts))) tools"
  "json_field ''feeds'' (manifest_fields ft conf tools) =
     (if Feeds (Meta conf) = [] then None else Some (utf8_json (json_map (map feed_entry (Feeds (Meta conf))))))"
  by (auto simp: manifest_fields_def CapabilitiesManifest_def Let_def json_field_simps lower_manifest_keys ascii_keys split: option.split)


definition offered_tools :: "Tool list option \<Rightarrow> Tool list" where
  "offered_tools tools = filter (\<lambda>t. tl_Name t \<noteq> []) (case tools of None \<Rightarrow> [] | Some ts \<Rightarrow> ts)"

lemma manifest_decoded:
  assumes "\<And>n n'. ft n = Some n' \<Longrightarrow> ft n' \<noteq> None"
  shows "\<exists>caps. decode_manifest ft (manifest_fields ft conf tools) = Some caps \<and>
    cm_Protocol caps = ''ssh-web/0.1'' \<and> cm_SiteName caps = to_utf8 (Host conf) \<and> cm_SiteHost caps = to_utf8 (Host conf) \<and>
    cm_Modes caps = Some [''anonymous'', ''identified'', ''trusted''] \<and> cm_KeyTypes caps = None \<and>
    parseToolsFromCapabilities caps = map (client_tool conf) (offered_tools tools)"
proof -
  obtain cs where cs: "as_map ft (json_field ''commands'' (manifest_fields ft conf tools)) = Some cs"
    using as_map_json_map [OF nums_ok_map [OF nums_ok_commands [of _ conf]]] unfolding manifest_get by blast
  have "\<exists>fs. as_map ft (Some (utf8_json (json_map (map feed_entry feeds)))) = Some fs" for feeds
    by (rule as_map_json_map) (auto simp: feed_entry_def intro!: nums_ok_map)
  then obtain fs where fs: "as_map ft (json_field ''feeds'' (manifest_fields ft conf tools)) = Some fs"
    unfolding manifest_get by fastforce
  have si: "as_struct decode_siteInfo (json_field ''site'' (manifest_fields ft conf tools)) = Some (to_utf8 (Host conf), to_utf8 (Host conf))"
    by (simp add: manifest_get SiteInfo_def decode_siteInfo_def json_field_simps lower_manifest_keys ascii_keys)
  have au: "as_struct decode_authInfo (json_field ''auth'' (manifest_fields ft conf tools)) =
      Some (Some [''anonymous'', ''identified'', ''trusted''], None)"
    by (simp add: manifest_get AuthInfo_def decode_authInfo_def json_field_simps lower_manifest_keys ascii_keys json_strings_def as_slice_def)
  obtain m where m: "as_struct_ptr (decode_mcpInfo ft) (json_field ''mcp'' (manifest_fields ft conf tools)) = Some m"
    "(case m of None \<Rightarrow> [] | Some i \<Rightarrow> List.map_filter (\<lambda>raw. parse_tool (map_entries raw))
        (case mi_Tools i of None \<Rightarrow> [] | Some ts \<Rightarrow> ts)) = map (client_tool conf) (offered_tools tools)"
  proof (cases tools)
    case None
    then show ?thesis using that [of None] by (simp add: manifest_get offered_tools_def)
  next
    case (Some ts)
    obtain ms where ms: "those (map (\<lambda>v. as_map ft (Some v)) (map utf8_json (map (tool_entry ft conf) ts))) = Some ms"
      "List.map_filter (\<lambda>raw. parse_tool (map_entries raw)) ms = map (client_tool conf) (filter (\<lambda>t. tl_Name t \<noteq> []) ts)"
      using tools_decoded [of ft conf ts] assms by blast
    have "as_struct_ptr (decode_mcpInfo ft) (json_field ''mcp'' (manifest_fields ft conf tools)) =
        Some (Some \<lparr>mi_Version = ''1.0'', mi_Tools = Some ms\<rparr>)"
      using ms(1) by (simp add: Some manifest_get MCPInfo_def decode_mcpInfo_def json_field_simps lower_manifest_keys ascii_keys as_slice_def comp_def)
    then show ?thesis using that ms(2) by (simp add: Some offered_tools_def)
  qed
  have pr: "as_string (json_field ''protocol'' (manifest_fields ft conf tools)) = Some ''ssh-web/0.1''" by (simp add: manifest_get)
  show ?thesis
    using m(2) by (intro exI conjI) (simp add: decode_manifest_def cs fs si au m(1) pr, simp_all add: parseToolsFromCapabilities_def)
qed

text \<open>C15: The two programs agree on the manifest: what a server's \<open>capabilities\<close> command writes, the
  \<open>sshweb-mcp\<close> client reads without error, with the protocol, the host and exactly the named tools of
  the server's MCP process, with their descriptions and tiers.  They disagree on two keys: the key
  types are lost, and so are the input schemas, so that every tool is offered without parameters.\<close>

theorem manifest_understood:
  assumes "\<And>n n'. ev_float_text ev n = Some n' \<Longrightarrow> num_ok n' \<and> ev_float_text ev n' \<noteq> None"
    and "cl_float_text lib = ev_float_text ev" "\<And>w. cl_order lib w [] = []"
    and "Execute ev h ''capabilities'' args sess u = Some (Inr out, h', u')"
    and "cl_run lib w c ''capabilities'' = (RunOk out, w')"
  shows "\<exists>caps. fetchCapabilities lib c w = (Inr caps, w') \<and>
    cm_Protocol caps = ''ssh-web/0.1'' \<and> cm_SiteHost caps = to_utf8 (Host (site h)) \<and> cm_KeyTypes caps = None \<and>
    parseToolsFromCapabilities caps = map (client_tool (site h)) (offered_tools (map_option Tools (hd_mcp h))) \<and>
    (\<forall>t \<in> set (parseToolsFromCapabilities caps).
       json_at [''inputSchema'', ''properties''] (asMCPTool lib w' t host) = Some (JObj []))"
proof -
  let ?ft = "ev_float_text ev" and ?ts = "map_option Tools (hd_mcp h)"
  have out: "out = capabilities ?ft (site h) ?ts" using assms(4) by (auto simp: Execute_def denied_def)
  have "json_parse out = Some (JObj (manifest_fields ?ft (site h) ?ts))"
    unfolding out capabilities_def manifest_obj [symmetric] using assms(1) by (intro parse_indent nums_ok_manifest) blast
  moreover obtain caps where caps: "decode_manifest ?ft (manifest_fields ?ft (site h) ?ts) = Some caps"
    "cm_Protocol caps = ''ssh-web/0.1''" "cm_SiteHost caps = to_utf8 (Host (site h))" "cm_KeyTypes caps = None"
    "parseToolsFromCapabilities caps = map (client_tool (site h)) (offered_tools ?ts)"
    using manifest_decoded [of ?ft "site h" ?ts] assms(1) by blast
  ultimately have "fetchCapabilities lib c w = (Inr caps, w')"
    using assms(2,5) by (simp add: fetchCapabilities_def execCommand_def)
  moreover have "json_at [''inputSchema'', ''properties''] (asMCPTool lib w' (client_tool (site h) t) host) = Some (JObj [])" for t
    by (simp add: asMCPTool_def client_tool_def assms(3) json_get_map) (simp add: json_map_def)
  ultimately show ?thesis using caps by auto
qed

definition demo_tools :: Proxy where
  "demo_tools = \<lparr>pr_nextID = 2, pr_tools = [\<lparr>tl_Name = ''find'', tl_Description = [],
     tl_InputSchema = Some (JObj [(''properties'', JObj [(''q'', JObj [(''type'', JStr ''string'')])])])\<rparr>]\<rparr>"

theorem manifest_understood_witness:
  "\<exists>caps t. fetchCapabilities (demo_client\<lparr>cl_float_text := \<lambda>n. None, cl_run := \<lambda>w c cmd.
       (RunOk (capabilities (\<lambda>n. None) (site demo_handler) (Some (pr_tools demo_tools))), w)\<rparr>) () 0 = (Inr caps, 0) \<and>
     parseToolsFromCapabilities caps = [t] \<and> st_name t = ''find'' \<and>
     json_at [''inputSchema'', ''properties''] (asMCPTool demo_client 0 t ''a.org'') = Some (JObj [])"
proof -
  let ?lib = "demo_client\<lparr>cl_float_text := \<lambda>n. None, cl_run := \<lambda>w c cmd.
       (RunOk (capabilities (\<lambda>n. None) (site demo_handler) (Some (pr_tools demo_tools))), w)\<rparr>"
  let ?h = "demo_handler\<lparr>hd_mcp := Some demo_tools\<rparr>"
  have ft: "ev_float_text demo_env = (\<lambda>n. None)" by (simp add: demo_env_def)
  have st: "site ?h = site demo_handler" by (simp add: site_def del: demo_handler_site)
  have e: "Execute demo_env ?h ''capabilities'' [] demo_session 0 =
      Some (Inr (capabilities (\<lambda>n. None) (site demo_handler) (Some (pr_tools demo_tools))), ?h, 0)"
    unfolding Execute_def denied_def st by (simp add: ft Tools_def)
  have "to_utf8 ''find'' = ''find''" by (rule to_utf8_ascii) simp
  moreover have "asMCPTool ?lib 0 t host = asMCPTool demo_client 0 t host" for t host by (simp add: asMCPTool_def)
  ultimately show ?thesis
    using manifest_understood [OF _ _ _ e, of ?lib 0 "()" 0 "''a.org''"]
    by (auto simp: ft demo_client_def offered_tools_def demo_tools_def Tools_def client_tool_def)
qed

end
